theory Spec2Isabelle
  imports Main "HOL-Library.Finite_Map"
begin

section \<open>JSON documents and the JavaScript operations the scripts use\<close>

text \<open>
  The three scripts (\<^verbatim>\<open>scripts/build-bundles.js\<close>, \<^verbatim>\<open>scripts/build-flat-registry.js\<close> and the
  post-build URL transformer) work on values read by \<^verbatim>\<open>JSON.parse\<close> or written as object
  literals. A value is \<^verbatim>\<open>null\<close>, a boolean, a number, a string, an array or an object.

  \<^item> Strings are held as the list of their UTF-8 bytes; the scripts only concatenate
    strings, compare them and test an ASCII prefix or suffix, and these agree on the
    bytes and on JavaScript's code units.
  \<^item> A document is the value \<^verbatim>\<open>JSON.parse\<close> returns. A number in it is the double
    the literal has been read as: \<open>JNum n\<close> when it is finite (the model has the integers
    among them), \<open>JInf negative\<close> when the literal is too large for a double and has been
    read as \<^verbatim>\<open>Infinity\<close> or \<^verbatim>\<open>-Infinity\<close>. The scripts never compute with a number, they
    only test whether a value is truthy (and may print one in a file name).
  \<^item> An object is the finite map from its keys to their values: a JavaScript object
    holds every key once. The order in which \<^verbatim>\<open>JSON.stringify\<close> prints the keys is not
    part of the model.
  \<^item> \<^verbatim>\<open>undefined\<close> is not a JSON value: a JavaScript value is a \<open>json option\<close>, with
    \<open>None\<close> for \<^verbatim>\<open>undefined\<close>.
\<close>

datatype json =
    JNull
  | JBool bool
  | JNum int
  | JInf bool
  | JStr string
  | JArr "json list"
  | JObj "(string, json) fmap"

type_synonym jsval = "json option"

text \<open>The exceptions that can reach a script: a \<^verbatim>\<open>TypeError\<close> of the language, a
  \<^verbatim>\<open>SyntaxError\<close> of \<^verbatim>\<open>JSON.parse\<close>, and an error of a file-system call.\<close>

datatype error = TypeError | SyntaxError | IOError

text \<open>Truthiness, as \<^verbatim>\<open>if (v)\<close> and \<^verbatim>\<open>!v\<close> decide it.\<close>

fun truthy :: "jsval \<Rightarrow> bool" where
  "truthy None = False"
| "truthy (Some JNull) = False"
| "truthy (Some (JBool b)) = b"
| "truthy (Some (JNum n)) = (n \<noteq> 0)"
| "truthy (Some (JInf negative)) = True"
| "truthy (Some (JStr s)) = (s \<noteq> [])"
| "truthy (Some (JArr xs)) = True"
| "truthy (Some (JObj m)) = True"

text \<open>\<^verbatim>\<open>Array.isArray(v)\<close>.\<close>

fun isArray :: "jsval \<Rightarrow> bool" where
  "isArray (Some (JArr xs)) = True"
| "isArray v = False"

text \<open>\<^verbatim>\<open>s.startsWith(p)\<close> and \<^verbatim>\<open>s.endsWith(p)\<close> on strings.\<close>

definition startsWith :: "string \<Rightarrow> string \<Rightarrow> bool" where
  "startsWith s p = (take (length p) s = p)"

definition endsWith :: "string \<Rightarrow> string \<Rightarrow> bool" where
  "endsWith s p = (length p \<le> length s \<and> drop (length s - length p) s = p)"

text \<open>
  Reading a property, \<^verbatim>\<open>v.k\<close>. On \<^verbatim>\<open>null\<close> and \<^verbatim>\<open>undefined\<close> it raises a
  \<^verbatim>\<open>TypeError\<close>. The names the scripts read are \<^verbatim>\<open>registryDependencies\<close>, \<^verbatim>\<open>items\<close>,
  \<^verbatim>\<open>name\<close>, \<^verbatim>\<open>type\<close>, \<^verbatim>\<open>files\<close>, \<^verbatim>\<open>path\<close>, \<^verbatim>\<open>title\<close>, \<^verbatim>\<open>meta\<close> and \<^verbatim>\<open>backend\<close>: none is an
  index, \<^verbatim>\<open>length\<close> or a member of a prototype, so on an array, a string, a number or a
  boolean the result is \<^verbatim>\<open>undefined\<close>. The statements below also use \<open>get\<close> to say what an
  object holds at a key.
\<close>

fun get :: "string \<Rightarrow> jsval \<Rightarrow> error + jsval" where
  "get k None = Inl TypeError"
| "get k (Some JNull) = Inl TypeError"
| "get k (Some (JObj m)) = Inr (fmlookup m k)"
| "get k (Some v) = Inr None"

text \<open>\<^verbatim>\<open>xs.map(f)\<close> with a callback that may raise: the first exception ends the loop.\<close>

fun mapE :: "('a \<Rightarrow> error + 'b) \<Rightarrow> 'a list \<Rightarrow> error + 'b list" where
  "mapE f [] = Inr []"
| "mapE f (x # xs) =
     (case f x of
        Inl e \<Rightarrow> Inl e
      | Inr y \<Rightarrow> (case mapE f xs of Inl e \<Rightarrow> Inl e | Inr ys \<Rightarrow> Inr (y # ys)))"

text \<open>The decimal digits of a natural number, as JavaScript prints an index.\<close>

fun dec :: "nat \<Rightarrow> string" where
  "dec n =
     (if n < 10 then [''0123456789'' ! n]
      else dec (n div 10) @ [''0123456789'' ! (n mod 10)])"

declare dec.simps [simp del]

text \<open>
  The own enumerable properties of a value: what the spread \<^verbatim>\<open>{...v}\<close> copies and what a
  rest pattern \<^verbatim>\<open>const {content, ...rest} = v\<close> collects. An object has its keys, an
  array its indices, a string the indices of its characters (here of its bytes, which
  are its characters when it is ASCII), and \<^verbatim>\<open>null\<close>, a number or a boolean none.
\<close>

fun own_props :: "json \<Rightarrow> (string, json) fmap" where
  "own_props (JObj m) = m"
| "own_props (JArr xs) = fmap_of_list (zip (map dec [0..<length xs]) xs)"
| "own_props (JStr s) = fmap_of_list (zip (map dec [0..<length s]) (map (\<lambda>c. JStr [c]) s))"
| "own_props v = fmempty"

text \<open>
  Defining a property in an object literal, \<^verbatim>\<open>{...m, k: v}\<close>, or by assignment. Every
  object the scripts build is only ever printed by \<^verbatim>\<open>JSON.stringify\<close>, which leaves out
  a property whose value is \<^verbatim>\<open>undefined\<close>: so defining \<open>k\<close> as \<^verbatim>\<open>undefined\<close> is the same
  as the object without \<open>k\<close>.
\<close>

definition with_prop :: "string \<Rightarrow> jsval \<Rightarrow> (string, json) fmap \<Rightarrow> (string, json) fmap" where
  "with_prop k v m = (case v of None \<Rightarrow> fmdrop k m | Some x \<Rightarrow> fmupd k x m)"

text \<open>
  \<^verbatim>\<open>data.k = v\<close> on a parsed document. The scripts assign only after they have read a
  truthy property of \<^verbatim>\<open>data\<close>, that is to an object.
\<close>

fun assign :: "string \<Rightarrow> jsval \<Rightarrow> json \<Rightarrow> json" where
  "assign k v (JObj m) = JObj (with_prop k v m)"
| "assign k v d = d"

text \<open>
  The string a template literal \<^verbatim>\<open>`${v}`\<close> prints. An array prints its elements joined
  by commas, with nothing for \<^verbatim>\<open>null\<close>; an object prints as \<^verbatim>\<open>[object Object]\<close>, unless it
  has a key \<^verbatim>\<open>toString\<close> of its own, which is not a function: then the conversion raises.
  A number prints its decimal digits; JavaScript prints one of 22 digits or more with an
  exponent, which only changes the name of the file an item with such a \<^verbatim>\<open>name\<close> is
  written to.
\<close>

fun toStr :: "json \<Rightarrow> error + string" and joinStr :: "json list \<Rightarrow> error + string" where
  "toStr JNull = Inr ''null''"
| "toStr (JBool b) = Inr (if b then ''true'' else ''false'')"
| "toStr (JNum n) = Inr (if n < 0 then ''-'' @ dec (nat (- n)) else dec (nat n))"
| "toStr (JInf negative) = Inr (if negative then ''-Infinity'' else ''Infinity'')"
| "toStr (JStr s) = Inr s"
| "toStr (JArr xs) = joinStr xs"
| "toStr (JObj m) = (if ''toString'' |\<in>| fmdom m then Inl TypeError else Inr ''[object Object]'')"
| "joinStr [] = Inr []"
| "joinStr (x # xs) =
     (case (if x = JNull then Inr [] else toStr x) of
        Inl e \<Rightarrow> Inl e
      | Inr s \<Rightarrow>
          (if xs = [] then Inr s
           else case joinStr xs of Inl e \<Rightarrow> Inl e | Inr t \<Rightarrow> Inr (s @ '','' @ t)))"

text \<open>
  What a file holds once a value has been written to it: \<^verbatim>\<open>JSON.parse(JSON.stringify(d))\<close>.
  \<^verbatim>\<open>JSON.stringify\<close> prints a number that is not finite as \<^verbatim>\<open>null\<close>; every other value
  is read back as it was.
\<close>

primrec reparse :: "json \<Rightarrow> json" where
  "reparse JNull = JNull"
| "reparse (JBool b) = JBool b"
| "reparse (JNum n) = JNum n"
| "reparse (JInf negative) = JNull"
| "reparse (JStr s) = JStr s"
| "reparse (JArr xs) = JArr (map reparse xs)"
| "reparse (JObj m) = JObj (fmmap reparse m)"

section \<open>Files, effects and the way a script ends\<close>

text \<open>
  A path is the list of the arguments of the nested \<^verbatim>\<open>path.join\<close> calls that build it:
  \<^verbatim>\<open>path.join(path.join(OUTPUT_DIR, backend), 'registry.json')\<close> is
  \<open>[OUTPUT_DIR, backend, ''registry.json'']\<close>.
\<close>

type_synonym path = "string list"

text \<open>What \<^verbatim>\<open>JSON.parse(fs.readFileSync(p))\<close> finds at a path: the read raises, the parse
  raises, or there is a document.\<close>

datatype fcontent = Unreadable | Malformed | Parsed json

text \<open>
  What a script does to the world, in order: the file-system calls that change
  something, and the warnings and errors it prints. The progress and summary lines of
  \<^verbatim>\<open>console.log\<close> are left out, but for the line the post-build transformer prints for
  each file it has rewritten.

  \<open>WriteFile p d\<close> is \<^verbatim>\<open>fs.writeFileSync(p, JSON.stringify(d, null, 2), 'utf-8')\<close>: the
  file then parses back to \<open>reparse d\<close>. \<open>CopyFile src dest\<close> is \<^verbatim>\<open>copyFile(src, dest)\<close> of the flat
  builder, which makes the directory of \<open>dest\<close> and copies.
\<close>

datatype event =
    EnsureDir path
  | WriteFile path json
  | CopyFile path path
  | Warn_missing_name
  | Warn_source_not_found string
  | Error_read_registry error
  | Error_no_items
  | Error_build_failed error
  | Error_processing path error
  | Transformed path

text \<open>A script stops early by an exception or by \<^verbatim>\<open>process.exit(n)\<close>.\<close>

datatype stop = Throw error | Exit nat

text \<open>
  A step of a script gives the events it caused and either a value or the reason it
  stopped. Which file-system calls fail is not decided by the script: \<open>fails\<close> says it.
\<close>

type_synonym 'a io = "event list \<times> (stop + 'a)"

definition io_return :: "'a \<Rightarrow> 'a io" where
  "io_return x = ([], Inr x)"

definition io_bind :: "'a io \<Rightarrow> ('a \<Rightarrow> 'b io) \<Rightarrow> 'b io" where
  "io_bind m f =
     (case m of
        (es, Inl s) \<Rightarrow> (es, Inl s)
      | (es, Inr x) \<Rightarrow> (case f x of (es', r) \<Rightarrow> (es @ es', r)))"

definition emit :: "event \<Rightarrow> unit io" where
  "emit e = ([e], Inr ())"

definition perform :: "(event \<Rightarrow> bool) \<Rightarrow> event \<Rightarrow> unit io" where
  "perform fails e = (if fails e then ([], Inl (Throw IOError)) else ([e], Inr ()))"

definition lift :: "error + 'a \<Rightarrow> 'a io" where
  "lift r = (case r of Inl e \<Rightarrow> ([], Inl (Throw e)) | Inr x \<Rightarrow> ([], Inr x))"

definition OUTPUT_DIR :: string where
  "OUTPUT_DIR = ''public/r''"

section \<open>The dependency rewriter, in its three copies\<close>

definition REGISTRY_BASE_URL :: string where
  "REGISTRY_BASE_URL =
     ''https://raw.githubusercontent.com/RMNCLDYO/coderabbit-shadcn-registry/main/public/r''"

text \<open>
  The callback of both builders:
  \<^verbatim>\<open>(dep) => { if (dep.startsWith('coderabbit-')) return `${REGISTRY_BASE_URL}/${dep}.json`; return dep; }\<close>
  A \<^verbatim>\<open>dep\<close> that is not a string has no \<^verbatim>\<open>startsWith\<close> method, and the call raises.
\<close>

fun rewriteDep :: "json \<Rightarrow> error + json" where
  "rewriteDep (JStr dep) =
     (if startsWith dep ''coderabbit-''
      then Inr (JStr (REGISTRY_BASE_URL @ ''/'' @ dep @ ''.json''))
      else Inr (JStr dep))"
| "rewriteDep v = Inl TypeError"

text \<open>The callback of the post-build transformer, which first skips what is a URL.\<close>

fun rewriteDepUrl :: "json \<Rightarrow> error + json" where
  "rewriteDepUrl (JStr dep) =
     (if startsWith dep ''http://'' \<or> startsWith dep ''https://''
      then Inr (JStr dep)
      else if startsWith dep ''coderabbit-''
      then Inr (JStr (REGISTRY_BASE_URL @ ''/'' @ dep @ ''.json''))
      else Inr (JStr dep))"
| "rewriteDepUrl v = Inl TypeError"

text \<open>
  \<^verbatim>\<open>transformRegistryDependencies\<close> of \<^verbatim>\<open>build-bundles.js\<close> is \<^verbatim>\<open>deps.map(...)\<close> with no test
  of \<^verbatim>\<open>deps\<close>: only an array has a \<^verbatim>\<open>map\<close> method, on anything else the call raises.
\<close>

fun transformRegistryDependencies_bundles :: "jsval \<Rightarrow> error + jsval" where
  "transformRegistryDependencies_bundles (Some (JArr deps)) =
     (case mapE rewriteDep deps of Inl e \<Rightarrow> Inl e | Inr ys \<Rightarrow> Inr (Some (JArr ys)))"
| "transformRegistryDependencies_bundles v = Inl TypeError"

text \<open>
  \<^verbatim>\<open>transformRegistryDependencies\<close> of \<^verbatim>\<open>build-flat-registry.js\<close> starts with
  \<^verbatim>\<open>if (!deps || !Array.isArray(deps)) return deps;\<close>
\<close>

definition transformRegistryDependencies_flat :: "jsval \<Rightarrow> error + jsval" where
  "transformRegistryDependencies_flat deps =
     (if \<not> truthy deps \<or> \<not> isArray deps then Inr deps
      else case deps of
             Some (JArr xs) \<Rightarrow>
               (case mapE rewriteDep xs of Inl e \<Rightarrow> Inl e | Inr ys \<Rightarrow> Inr (Some (JArr ys)))
           | _ \<Rightarrow> Inr deps)"

text \<open>\<^verbatim>\<open>transformDeps\<close> of the post-build transformer has the same guard.\<close>

definition transformDeps :: "jsval \<Rightarrow> error + jsval" where
  "transformDeps deps =
     (if \<not> truthy deps \<or> \<not> isArray deps then Inr deps
      else case deps of
             Some (JArr xs) \<Rightarrow>
               (case mapE rewriteDepUrl xs of Inl e \<Rightarrow> Inl e | Inr ys \<Rightarrow> Inr (Some (JArr ys)))
           | _ \<Rightarrow> Inr deps)"

text \<open>The string an identifier becomes under the rule of the builders.\<close>

definition rewritten :: "string \<Rightarrow> string" where
  "rewritten d =
     (if startsWith d ''coderabbit-''
      then ''https://raw.githubusercontent.com/RMNCLDYO/coderabbit-shadcn-registry/main/public/r/''
             @ d @ ''.json''
      else d)"

section \<open>The Post-Build URL Transformer\<close>

text \<open>
  The callback of \<^verbatim>\<open>data.items.map\<close> in \<^verbatim>\<open>processFile\<close>: the element it returns, and whether
  it set \<^verbatim>\<open>modified\<close>. The two \<^verbatim>\<open>JSON.stringify\<close> texts it compares are those of a parsed
  value and of the value \<^verbatim>\<open>transformDeps\<close> returns for it, which differ exactly when the
  values differ.
\<close>

definition transformItem :: "json \<Rightarrow> error + (json \<times> bool)" where
  "transformItem item =
     (case get ''registryDependencies'' (Some item) of
        Inl e \<Rightarrow> Inl e
      | Inr deps \<Rightarrow>
          if truthy deps then
            (case transformDeps deps of
               Inl e \<Rightarrow> Inl e
             | Inr transformed \<Rightarrow>
                 if transformed \<noteq> deps
                 then Inr (JObj (with_prop ''registryDependencies'' transformed (own_props item)),
                           True)
                 else Inr (item, False))
          else Inr (item, False))"

text \<open>
  The body of \<^verbatim>\<open>processFile\<close> between the parse and the write, in its two steps: the
  \<^verbatim>\<open>registryDependencies\<close> of the document (\<open>processRoot\<close>), then those of the elements of
  its \<^verbatim>\<open>items\<close> (\<open>processItems\<close>, which starts from the flag the first step has left).
  \<open>processData\<close> is both: the document as it is before the write, and \<^verbatim>\<open>modified\<close>.
\<close>

definition processRoot :: "json \<Rightarrow> error + (json \<times> bool)" where
  "processRoot data =
     (case get ''registryDependencies'' (Some data) of
        Inl e \<Rightarrow> Inl e
      | Inr deps \<Rightarrow>
          if truthy deps then
            (case transformDeps deps of
               Inl e \<Rightarrow> Inl e
             | Inr transformed \<Rightarrow>
                 if transformed \<noteq> deps
                 then Inr (assign ''registryDependencies'' transformed data, True)
                 else Inr (data, False))
          else Inr (data, False))"

definition processItems :: "json \<Rightarrow> bool \<Rightarrow> error + (json \<times> bool)" where
  "processItems data modified =
     (case get ''items'' (Some data) of
        Inl e \<Rightarrow> Inl e
      | Inr its \<Rightarrow>
          if truthy its \<and> isArray its then
            (case its of
               Some (JArr xs) \<Rightarrow>
                 (case mapE transformItem xs of
                    Inl e \<Rightarrow> Inl e
                  | Inr rs \<Rightarrow>
                      Inr (assign ''items'' (Some (JArr (map fst rs))) data,
                           modified \<or> list_ex snd rs))
             | _ \<Rightarrow> Inr (data, modified))
          else Inr (data, modified))"

definition processData :: "json \<Rightarrow> error + (json \<times> bool)" where
  "processData data =
     (case processRoot data of
        Inl e \<Rightarrow> Inl e
      | Inr (data1, modified) \<Rightarrow> processItems data1 modified)"

text \<open>
  \<^verbatim>\<open>processFile(filePath)\<close>. The files are a store from paths to what a read finds
  there. Everything from the read to the write is inside one \<^verbatim>\<open>try\<close>, whose \<^verbatim>\<open>catch\<close> prints
  the path and the message and returns \<^verbatim>\<open>false\<close>. The result is the store afterwards, the
  returned boolean and the events.
\<close>

type_synonym store = "path \<Rightarrow> fcontent"

definition processFile ::
  "(event \<Rightarrow> bool) \<Rightarrow> path \<Rightarrow> store \<Rightarrow> store \<times> bool \<times> event list" where
  "processFile fails filePath st =
     (case (case st filePath of
              Unreadable \<Rightarrow> Inl IOError
            | Malformed \<Rightarrow> Inl SyntaxError
            | Parsed data \<Rightarrow>
                (case processData data of
                   Inl e \<Rightarrow> Inl e
                 | Inr (data', modified) \<Rightarrow>
                     if modified then
                       (if fails (WriteFile filePath data') then Inl IOError
                        else Inr (Some data'))
                     else Inr None)) of
        Inl e \<Rightarrow> (st, False, [Error_processing filePath e])
      | Inr (Some data') \<Rightarrow>
          (st(filePath := Parsed (reparse data')), True, [WriteFile filePath data'])
      | Inr None \<Rightarrow> (st, False, []))"

text \<open>
  A directory listing, as \<^verbatim>\<open>fs.readdirSync(dir, {withFileTypes: true})\<close> gives it: an entry
  is a directory (\<^verbatim>\<open>entry.isDirectory()\<close>) with its own listing, a directory whose
  listing raises, or anything else.
\<close>

datatype dirent = FileEnt string | DirEnt string "dirent list" | BadDirEnt string

text \<open>\<^verbatim>\<open>findJsonFiles(dir)\<close>, on the listing of \<open>dir\<close>.\<close>

fun findJsonFiles :: "path \<Rightarrow> dirent list \<Rightarrow> error + path list" where
  "findJsonFiles dir [] = Inr []"
| "findJsonFiles dir (DirEnt name sub # entries) =
     (if name \<noteq> ''registry'' then
        (case findJsonFiles (dir @ [name]) sub of
           Inl e \<Rightarrow> Inl e
         | Inr found \<Rightarrow>
             (case findJsonFiles dir entries of
                Inl e \<Rightarrow> Inl e
              | Inr files \<Rightarrow> Inr (found @ files)))
      else findJsonFiles dir entries)"
| "findJsonFiles dir (BadDirEnt name # entries) =
     (if name \<noteq> ''registry'' then Inl IOError else findJsonFiles dir entries)"
| "findJsonFiles dir (FileEnt name # entries) =
     (if endsWith name ''.json'' then
        (case findJsonFiles dir entries of
           Inl e \<Rightarrow> Inl e
         | Inr files \<Rightarrow> Inr ((dir @ [name]) # files))
      else findJsonFiles dir entries)"

text \<open>The main loop: \<^verbatim>\<open>for (const file of jsonFiles) if (processFile(file)) { ...; transformedCount++ }\<close>.\<close>

fun processFiles ::
  "(event \<Rightarrow> bool) \<Rightarrow> path list \<Rightarrow> store \<Rightarrow> store \<times> nat \<times> event list" where
  "processFiles fails [] st = (st, 0, [])"
| "processFiles fails (file # files) st =
     (case processFile fails file st of
        (st1, ok, es1) \<Rightarrow>
          (case processFiles fails files st1 of
             (st2, n, es2) \<Rightarrow>
               (st2,
                (if ok then Suc n else n),
                es1 @ (if ok then [Transformed file] else []) @ es2)))"

text \<open>
  The whole script. The listing of the output directory is \<open>None\<close> when
  \<^verbatim>\<open>readdirSync(OUTPUT_DIR)\<close> raises. \<^verbatim>\<open>findJsonFiles\<close> is called outside every \<^verbatim>\<open>try\<close>: its
  exception ends the script before any file is read. The result is the store at the
  end, the events, and the count of transformed files or the uncaught exception.
\<close>

definition transformUrls ::
  "(event \<Rightarrow> bool) \<Rightarrow> dirent list option \<Rightarrow> store \<Rightarrow> store \<times> event list \<times> (error + nat)" where
  "transformUrls fails root st =
     (case root of
        None \<Rightarrow> (st, [], Inl IOError)
      | Some entries \<Rightarrow>
          (case findJsonFiles [OUTPUT_DIR] entries of
             Inl e \<Rightarrow> (st, [], Inl e)
           | Inr jsonFiles \<Rightarrow>
               (case processFiles fails jsonFiles st of
                  (st', transformedCount, es) \<Rightarrow> (st', es, Inr transformedCount))))"

text \<open>
  For the statements about the transformer. A file is \<open>settled\<close> when \<^verbatim>\<open>processFile\<close>
  finds nothing to write in it: it cannot be read or parsed, its processing raises, or
  \<^verbatim>\<open>modified\<close> stays \<^verbatim>\<open>false\<close>. Two documents \<open>deps_differ\<close> when a
  \<^verbatim>\<open>registryDependencies\<close> value differs between them, at the root or in an element of
  \<^verbatim>\<open>items\<close>.
\<close>

definition settled :: "fcontent \<Rightarrow> bool" where
  "settled c =
     (case c of
        Parsed d \<Rightarrow> (case processData d of Inl e \<Rightarrow> True | Inr (d', modified) \<Rightarrow> \<not> modified)
      | _ \<Rightarrow> True)"

definition deps_differ :: "json \<Rightarrow> json \<Rightarrow> bool" where
  "deps_differ d d' \<longleftrightarrow>
     get ''registryDependencies'' (Some d') \<noteq> get ''registryDependencies'' (Some d)
     \<or> (\<exists>xs ys. get ''items'' (Some d) = Inr (Some (JArr xs))
           \<and> get ''items'' (Some d') = Inr (Some (JArr ys))
           \<and> (\<exists>i<length xs. get ''registryDependencies'' (Some (ys ! i))
                              \<noteq> get ''registryDependencies'' (Some (xs ! i))))"

section \<open>The Flat Registry Builder\<close>

text \<open>
  The callback of \<^verbatim>\<open>cleanItem.files.map\<close>:
  \<^verbatim>\<open>(file) => { const { content, ...fileWithoutContent } = file; return fileWithoutContent; }\<close>
  Destructuring \<^verbatim>\<open>null\<close> raises.
\<close>

fun withoutContent :: "json \<Rightarrow> error + json" where
  "withoutContent JNull = Inl TypeError"
| "withoutContent file = Inr (JObj (fmdrop ''content'' (own_props file)))"

text \<open>\<^verbatim>\<open>generateItemJSON(item)\<close>: the copy \<^verbatim>\<open>{ $schema: ..., ...item }\<close>, then its two updates.\<close>

definition generateItemJSON :: "json \<Rightarrow> error + json" where
  "generateItemJSON item =
     (let cleanItem =
            fmadd (fmupd ''$schema'' (JStr ''https://ui.shadcn.com/schema/registry-item.json'') fmempty)
                  (own_props item)
      in case (if truthy (fmlookup cleanItem ''registryDependencies'') then
                 (case transformRegistryDependencies_flat
                         (fmlookup cleanItem ''registryDependencies'') of
                    Inl e \<Rightarrow> Inl e
                  | Inr transformed \<Rightarrow>
                      Inr (with_prop ''registryDependencies'' transformed cleanItem))
               else Inr cleanItem) of
           Inl e \<Rightarrow> Inl e
         | Inr cleanItem1 \<Rightarrow>
             if truthy (fmlookup cleanItem1 ''files'') \<and> isArray (fmlookup cleanItem1 ''files'')
             then
               (case fmlookup cleanItem1 ''files'' of
                  Some (JArr files) \<Rightarrow>
                    (case mapE withoutContent files of
                       Inl e \<Rightarrow> Inl e
                     | Inr files' \<Rightarrow> Inr (JObj (fmupd ''files'' (JArr files') cleanItem1)))
                | _ \<Rightarrow> Inr (JObj cleanItem1))
             else Inr (JObj cleanItem1))"

text \<open>
  \<^verbatim>\<open>copySourceFiles(item)\<close>. \<^verbatim>\<open>path.join(OUTPUT_DIR, file.path)\<close> raises a \<^verbatim>\<open>TypeError\<close> when
  \<^verbatim>\<open>file.path\<close> is not a string. \<open>exists\<close> is \<^verbatim>\<open>fs.existsSync\<close>.
\<close>

definition copySourceFile :: "(path \<Rightarrow> bool) \<Rightarrow> (event \<Rightarrow> bool) \<Rightarrow> json \<Rightarrow> unit io" where
  "copySourceFile exists fails file =
     io_bind (lift (get ''path'' (Some file))) (\<lambda>p.
       case p of
         Some (JStr sourcePath) \<Rightarrow>
           if exists [sourcePath]
           then perform fails (CopyFile [sourcePath] [OUTPUT_DIR, sourcePath])
           else emit (Warn_source_not_found sourcePath)
       | _ \<Rightarrow> lift (Inl TypeError))"

fun copyEach :: "(path \<Rightarrow> bool) \<Rightarrow> (event \<Rightarrow> bool) \<Rightarrow> json list \<Rightarrow> unit io" where
  "copyEach exists fails [] = io_return ()"
| "copyEach exists fails (file # files) =
     io_bind (copySourceFile exists fails file) (\<lambda>_. copyEach exists fails files)"

definition copySourceFiles :: "(path \<Rightarrow> bool) \<Rightarrow> (event \<Rightarrow> bool) \<Rightarrow> json \<Rightarrow> unit io" where
  "copySourceFiles exists fails item =
     io_bind (lift (get ''files'' (Some item))) (\<lambda>files.
       if \<not> truthy files \<or> \<not> isArray files then io_return ()
       else case files of
              Some (JArr fs) \<Rightarrow> copyEach exists fails fs
            | _ \<Rightarrow> io_return ())"

text \<open>What a template literal prints for a value that may be \<^verbatim>\<open>undefined\<close>.\<close>

definition printed :: "jsval \<Rightarrow> error + string" where
  "printed v = (case v of None \<Rightarrow> Inr ''undefined'' | Some x \<Rightarrow> toStr x)"

text \<open>
  The body of the loop \<^verbatim>\<open>for (const item of registry.items)\<close> of \<^verbatim>\<open>buildFlatRegistry\<close>. The
  statistics it collects only feed the summary; of its progress lines the model keeps
  that \<^verbatim>\<open>`   Type: ${item.type}`\<close> converts \<^verbatim>\<open>item.type\<close> to a string, which can raise.
\<close>

definition buildItem :: "(path \<Rightarrow> bool) \<Rightarrow> (event \<Rightarrow> bool) \<Rightarrow> json \<Rightarrow> unit io" where
  "buildItem exists fails item =
     io_bind (lift (get ''name'' (Some item))) (\<lambda>name.
       if \<not> truthy name then emit Warn_missing_name
       else
         io_bind (lift (generateItemJSON item)) (\<lambda>itemJSON.
         io_bind (lift (printed name)) (\<lambda>fileName.
         io_bind (perform fails (WriteFile [OUTPUT_DIR, fileName @ ''.json''] itemJSON)) (\<lambda>_.
         io_bind (copySourceFiles exists fails item) (\<lambda>_.
         io_bind (lift (get ''type'' (Some item))) (\<lambda>type.
         io_bind (lift (printed type)) (\<lambda>_. io_return ())))))))"

fun buildItems :: "(path \<Rightarrow> bool) \<Rightarrow> (event \<Rightarrow> bool) \<Rightarrow> json list \<Rightarrow> unit io" where
  "buildItems exists fails [] = io_return ()"
| "buildItems exists fails (item # items) =
     io_bind (buildItem exists fails item) (\<lambda>_. buildItems exists fails items)"

text \<open>
  The callback that builds the consolidated index:
  \<^verbatim>\<open>(item) => ({ ...item, registryDependencies: transformRegistryDependencies(item.registryDependencies) })\<close>
\<close>

definition indexItem :: "json \<Rightarrow> error + json" where
  "indexItem item =
     (case get ''registryDependencies'' (Some item) of
        Inl e \<Rightarrow> Inl e
      | Inr deps \<Rightarrow>
          (case transformRegistryDependencies_flat deps of
             Inl e \<Rightarrow> Inl e
           | Inr transformed \<Rightarrow>
               Inr (JObj (with_prop ''registryDependencies'' transformed (own_props item)))))"

text \<open>
  \<^verbatim>\<open>buildFlatRegistry()\<close>, with \<^verbatim>\<open>readRegistryConfig()\<close> in it. \<open>registryFile\<close> is what is
  found at \<^verbatim>\<open>registry.json\<close>.
\<close>

definition buildFlatRegistry ::
  "fcontent \<Rightarrow> (path \<Rightarrow> bool) \<Rightarrow> (event \<Rightarrow> bool) \<Rightarrow> unit io" where
  "buildFlatRegistry registryFile exists fails =
     (case registryFile of
        Unreadable \<Rightarrow> ([Error_read_registry IOError], Inl (Exit 1))
      | Malformed \<Rightarrow> ([Error_read_registry SyntaxError], Inl (Exit 1))
      | Parsed registry \<Rightarrow>
          io_bind (lift (get ''items'' (Some registry))) (\<lambda>items.
            if \<not> truthy items \<or> \<not> isArray items then ([Error_no_items], Inl (Exit 1))
            else case items of
                   Some (JArr its) \<Rightarrow>
                     io_bind (perform fails (EnsureDir [OUTPUT_DIR])) (\<lambda>_.
                     io_bind (buildItems exists fails its) (\<lambda>_.
                     io_bind (lift (mapE indexItem its)) (\<lambda>transformed.
                       perform fails
                         (WriteFile [OUTPUT_DIR, ''registry.json'']
                            (JObj (fmupd ''items'' (JArr transformed) (own_props registry)))))))
                 | _ \<Rightarrow> io_return ()))"

text \<open>
  The end of a builder script: \<^verbatim>\<open>try { build() } catch (error) { console.error(...); process.exit(1) }\<close>.
  The result is the events and the exit code.
\<close>

definition run_script :: "unit io \<Rightarrow> event list \<times> nat" where
  "run_script m =
     (case m of
        (es, Inr u) \<Rightarrow> (es, 0)
      | (es, Inl (Exit n)) \<Rightarrow> (es, n)
      | (es, Inl (Throw e)) \<Rightarrow> (es @ [Error_build_failed e], 1))"

definition main_flat :: "fcontent \<Rightarrow> (path \<Rightarrow> bool) \<Rightarrow> (event \<Rightarrow> bool) \<Rightarrow> event list \<times> nat" where
  "main_flat registryFile exists fails = run_script (buildFlatRegistry registryFile exists fails)"

text \<open>The document last written at a path, if any.\<close>

fun written_at :: "path \<Rightarrow> event list \<Rightarrow> json option" where
  "written_at p [] = None"
| "written_at p (e # es) =
     (case written_at p es of
        Some d \<Rightarrow> Some d
      | None \<Rightarrow> (case e of WriteFile q d \<Rightarrow> if q = p then Some d else None | _ \<Rightarrow> None))"

section \<open>The Bundle Registry Builder\<close>

text \<open>The table \<^verbatim>\<open>BUNDLES\<close>, with its keys in the order of the source.\<close>

definition BUNDLE_localstorage :: json where
  "BUNDLE_localstorage =
     JObj (fmap_of_list
         [(''name'', JStr ''coderabbit''),
          (''type'', JStr ''registry:block''),
          (''title'', JStr ''CodeRabbit with LocalStorage''),
          (''author'', JStr ''Ray <hi@rmncldyo.com>''),
          (''description'', JStr ''Complete CodeRabbit integration with browser localStorage persistence. Includes types, API client, storage adapter, React hook, form component, and branding. Perfect for browser-based applications, prototyping, and testing. Reports persist across page reloads.''),
          (''dependencies'', JArr [JStr ''react'', JStr ''lucide-react'']),
          (''registryDependencies'', JArr [JStr ''button'', JStr ''input'', JStr ''label'', JStr ''select'', JStr ''textarea'', JStr ''coderabbit-types'', JStr ''coderabbit-client'', JStr ''coderabbit-storage-adapter'', JStr ''coderabbit-storage-localstorage'', JStr ''coderabbit-react'', JStr ''coderabbit-form'', JStr ''coderabbit-branding'']),
          (''envVars'', JObj (fmap_of_list
             [(''CODERABBIT_API_KEY'', JStr '''')])),
          (''meta'', JObj (fmap_of_list
             [(''source'', JStr ''https://github.com/RMNCLDYO/coderabbit-shadcn-registry''),
              (''license'', JStr ''MIT''),
              (''backend'', JStr ''localStorage'')])),
          (''docs'', JStr ''Get CODERABBIT_API_KEY from https://app.coderabbit.ai/settings/api-keys (requires Pro plan). No database setup required. Data persists in browser localStorage across page reloads (~5-10MB limit). Perfect for prototyping and client-side apps. Use LocalStorageAdapter in your useCodeRabbit hook.''),
          (''categories'', JArr [JStr ''complete'', JStr ''browser'', JStr ''developer-tools''])])"

definition BUNDLE_convex :: json where
  "BUNDLE_convex =
     JObj (fmap_of_list
         [(''name'', JStr ''coderabbit''),
          (''type'', JStr ''registry:block''),
          (''title'', JStr ''CodeRabbit with Convex''),
          (''author'', JStr ''Ray <hi@rmncldyo.com>''),
          (''description'', JStr ''Complete CodeRabbit integration with Convex real-time database. Includes types, API client, storage adapter, schema, React hook, form component, and branding. Perfect for production applications with real-time sync and auth support.''),
          (''dependencies'', JArr [JStr ''react'', JStr ''lucide-react'', JStr ''convex'']),
          (''registryDependencies'', JArr [JStr ''button'', JStr ''input'', JStr ''label'', JStr ''select'', JStr ''textarea'', JStr ''coderabbit-types'', JStr ''coderabbit-client'', JStr ''coderabbit-storage-adapter'', JStr ''coderabbit-storage-convex'', JStr ''coderabbit-react'', JStr ''coderabbit-form'', JStr ''coderabbit-branding'']),
          (''envVars'', JObj (fmap_of_list
             [(''CODERABBIT_API_KEY'', JStr ''''),
              (''CONVEX_DEPLOYMENT'', JStr ''''),
              (''CONVEX_URL'', JStr ''''),
              (''CONVEX_SITE_URL'', JStr '''')])),
          (''meta'', JObj (fmap_of_list
             [(''source'', JStr ''https://github.com/RMNCLDYO/coderabbit-shadcn-registry''),
              (''license'', JStr ''MIT''),
              (''backend'', JStr ''Convex'')])),
          (''docs'', JStr (''Get CODERABBIT_API_KEY from https://app.coderabbit.ai/settings/api-keys (requires Pro plan). Run '' @ [CHR 0x22] @ ''npx convex dev'' @ [CHR 0x22] @ '' to automatically populate CONVEX_DEPLOYMENT and CONVEX_URL in your .env.local. CONVEX_SITE_URL is optional (only needed for HTTP actions). Import coderabbitReportsTable in your convex/schema.ts and add as '' @ [CHR 0x22] @ ''coderabbit_reports'' @ [CHR 0x22] @ '' table.'')),
          (''categories'', JArr [JStr ''complete'', JStr ''database'', JStr ''real-time'', JStr ''developer-tools''])])"

definition BUNDLE_supabase :: json where
  "BUNDLE_supabase =
     JObj (fmap_of_list
         [(''name'', JStr ''coderabbit''),
          (''type'', JStr ''registry:block''),
          (''title'', JStr ''CodeRabbit with Supabase''),
          (''author'', JStr ''Ray <hi@rmncldyo.com>''),
          (''description'', JStr ''Complete CodeRabbit integration with Supabase (PostgreSQL). Includes types, API client, storage adapter with Row Level Security, React hook, form component, and branding. Perfect for apps with authentication and real-time features.''),
          (''dependencies'', JArr [JStr ''react'', JStr ''lucide-react'', JStr ''@supabase/supabase-js'']),
          (''registryDependencies'', JArr [JStr ''button'', JStr ''input'', JStr ''label'', JStr ''select'', JStr ''textarea'', JStr ''coderabbit-types'', JStr ''coderabbit-client'', JStr ''coderabbit-storage-adapter'', JStr ''coderabbit-storage-supabase'', JStr ''coderabbit-react'', JStr ''coderabbit-form'', JStr ''coderabbit-branding'']),
          (''envVars'', JObj (fmap_of_list
             [(''CODERABBIT_API_KEY'', JStr ''''),
              (''SUPABASE_URL'', JStr ''''),
              (''SUPABASE_ANON_KEY'', JStr '''')])),
          (''meta'', JObj (fmap_of_list
             [(''source'', JStr ''https://github.com/RMNCLDYO/coderabbit-shadcn-registry''),
              (''license'', JStr ''MIT''),
              (''backend'', JStr ''Supabase'')])),
          (''docs'', JStr (''Get CODERABBIT_API_KEY from https://app.coderabbit.ai/settings/api-keys (requires Pro plan). Get SUPABASE_URL and SUPABASE_ANON_KEY from your Supabase dashboard: Project Settings '' @ [CHR 0xE2] @ [CHR 0x86] @ [CHR 0x92] @ '' API. Or run '' @ [CHR 0x22] @ ''npx supabase init && npx supabase start'' @ [CHR 0x22] @ '' for local development. Run the SQL schema from storage-supabase.ts to create the coderabbit_reports table with RLS policies.'')),
          (''categories'', JArr [JStr ''complete'', JStr ''database'', JStr ''developer-tools''])])"

definition BUNDLE_postgres :: json where
  "BUNDLE_postgres =
     JObj (fmap_of_list
         [(''name'', JStr ''coderabbit''),
          (''type'', JStr ''registry:block''),
          (''title'', JStr ''CodeRabbit with PostgreSQL''),
          (''author'', JStr ''Ray <hi@rmncldyo.com>''),
          (''description'', JStr ''Complete CodeRabbit integration with PostgreSQL. Includes types, API client, storage adapter with connection pooling, React hook, form component, and branding. Works with Neon, Vercel Postgres, Railway, AWS RDS, Google Cloud SQL, etc.''),
          (''dependencies'', JArr [JStr ''react'', JStr ''lucide-react'', JStr ''pg'']),
          (''devDependencies'', JArr [JStr ''@types/pg'']),
          (''registryDependencies'', JArr [JStr ''button'', JStr ''input'', JStr ''label'', JStr ''select'', JStr ''textarea'', JStr ''coderabbit-types'', JStr ''coderabbit-client'', JStr ''coderabbit-storage-adapter'', JStr ''coderabbit-storage-postgres'', JStr ''coderabbit-react'', JStr ''coderabbit-form'', JStr ''coderabbit-branding'']),
          (''envVars'', JObj (fmap_of_list
             [(''CODERABBIT_API_KEY'', JStr ''''),
              (''POSTGRES_HOST'', JStr ''''),
              (''POSTGRES_PORT'', JStr ''5432''),
              (''POSTGRES_DATABASE'', JStr ''''),
              (''POSTGRES_USER'', JStr ''''),
              (''POSTGRES_PASSWORD'', JStr '''')])),
          (''meta'', JObj (fmap_of_list
             [(''source'', JStr ''https://github.com/RMNCLDYO/coderabbit-shadcn-registry''),
              (''license'', JStr ''MIT''),
              (''backend'', JStr ''PostgreSQL'')])),
          (''docs'', JStr (''Get CODERABBIT_API_KEY from https://app.coderabbit.ai/settings/api-keys (requires Pro plan). Get connection details from your provider dashboard (Neon, Vercel Postgres, Railway, AWS RDS). For local dev: '' @ [CHR 0x22] @ ''docker run -e POSTGRES_PASSWORD=password -p 5432:5432 postgres'' @ [CHR 0x22] @ ''. Run the SQL schema from storage-postgres.ts to create the coderabbit_reports table.'')),
          (''categories'', JArr [JStr ''complete'', JStr ''database'', JStr ''developer-tools''])])"

definition BUNDLE_mysql :: json where
  "BUNDLE_mysql =
     JObj (fmap_of_list
         [(''name'', JStr ''coderabbit''),
          (''type'', JStr ''registry:block''),
          (''title'', JStr ''CodeRabbit with MySQL''),
          (''author'', JStr ''Ray <hi@rmncldyo.com>''),
          (''description'', JStr ''Complete CodeRabbit integration with MySQL/MariaDB. Includes types, API client, storage adapter with connection pooling, React hook, form component, and branding. Works with PlanetScale, AWS RDS, Google Cloud SQL, Azure, etc.''),
          (''dependencies'', JArr [JStr ''react'', JStr ''lucide-react'', JStr ''mysql2'']),
          (''devDependencies'', JArr [JStr ''@types/mysql2'']),
          (''registryDependencies'', JArr [JStr ''button'', JStr ''input'', JStr ''label'', JStr ''select'', JStr ''textarea'', JStr ''coderabbit-types'', JStr ''coderabbit-client'', JStr ''coderabbit-storage-adapter'', JStr ''coderabbit-storage-mysql'', JStr ''coderabbit-react'', JStr ''coderabbit-form'', JStr ''coderabbit-branding'']),
          (''envVars'', JObj (fmap_of_list
             [(''CODERABBIT_API_KEY'', JStr ''''),
              (''MYSQL_HOST'', JStr ''''),
              (''MYSQL_PORT'', JStr ''3306''),
              (''MYSQL_DATABASE'', JStr ''''),
              (''MYSQL_USER'', JStr ''''),
              (''MYSQL_PASSWORD'', JStr '''')])),
          (''meta'', JObj (fmap_of_list
             [(''source'', JStr ''https://github.com/RMNCLDYO/coderabbit-shadcn-registry''),
              (''license'', JStr ''MIT''),
              (''backend'', JStr ''MySQL'')])),
          (''docs'', JStr (''Get CODERABBIT_API_KEY from https://app.coderabbit.ai/settings/api-keys (requires Pro plan). Get connection details from your provider dashboard (PlanetScale, AWS RDS, Google Cloud SQL). For local dev: '' @ [CHR 0x22] @ ''docker run -e MYSQL_ROOT_PASSWORD=password -p 3306:3306 mysql'' @ [CHR 0x22] @ ''. Run the SQL schema from storage-mysql.ts to create the coderabbit_reports table.'')),
          (''categories'', JArr [JStr ''complete'', JStr ''database'', JStr ''developer-tools''])])"

definition BUNDLES :: "(string \<times> json) list" where
  "BUNDLES =
     [(''localstorage'', BUNDLE_localstorage),
      (''convex'', BUNDLE_convex),
      (''supabase'', BUNDLE_supabase),
      (''postgres'', BUNDLE_postgres),
      (''mysql'', BUNDLE_mysql)]"

text \<open>\<^verbatim>\<open>generateBundleJSON(bundleConfig)\<close>.\<close>

definition generateBundleJSON :: "json \<Rightarrow> error + json" where
  "generateBundleJSON bundleConfig =
     (case get ''registryDependencies'' (Some bundleConfig) of
        Inl e \<Rightarrow> Inl e
      | Inr deps \<Rightarrow>
          (case transformRegistryDependencies_bundles deps of
             Inl e \<Rightarrow> Inl e
           | Inr transformed \<Rightarrow>
               Inr (JObj (with_prop ''registryDependencies'' transformed
                    (fmadd (fmupd ''$schema''
                              (JStr ''https://ui.shadcn.com/schema/registry-item.json'') fmempty)
                           (own_props bundleConfig))))))"

text \<open>\<^verbatim>\<open>createBundleRegistry(backend, items)\<close>, and the callback of its \<^verbatim>\<open>items.map\<close>.\<close>

definition bundleItem :: "json \<Rightarrow> error + json" where
  "bundleItem item =
     (case get ''registryDependencies'' (Some item) of
        Inl e \<Rightarrow> Inl e
      | Inr deps \<Rightarrow>
          (case transformRegistryDependencies_bundles deps of
             Inl e \<Rightarrow> Inl e
           | Inr transformed \<Rightarrow>
               Inr (JObj (with_prop ''registryDependencies'' transformed (own_props item)))))"

definition createBundleRegistry :: "string \<Rightarrow> json list \<Rightarrow> error + json" where
  "createBundleRegistry backend items =
     (case mapE bundleItem items of
        Inl e \<Rightarrow> Inl e
      | Inr transformedItems \<Rightarrow>
          Inr (JObj (fmap_of_list
            [(''$schema'', JStr ''https://ui.shadcn.com/schema/registry.json''),
             (''name'', JStr ''coderabbit''),
             (''homepage'', JStr ''https://github.com/RMNCLDYO/coderabbit-shadcn-registry''),
             (''items'', JArr transformedItems)])))"

text \<open>
  The body of the loop \<^verbatim>\<open>for (const backend of backends)\<close> of \<^verbatim>\<open>buildBundles\<close>. Its
  progress lines print \<^verbatim>\<open>bundleConfig.title\<close> and \<^verbatim>\<open>bundleConfig.meta.backend\<close>; reading and
  converting them can raise.
\<close>

definition buildBundle :: "(event \<Rightarrow> bool) \<Rightarrow> string \<Rightarrow> json \<Rightarrow> unit io" where
  "buildBundle fails backend bundleConfig =
     io_bind (perform fails (EnsureDir [OUTPUT_DIR, backend])) (\<lambda>_.
     io_bind (lift (generateBundleJSON bundleConfig)) (\<lambda>bundleJSON.
     io_bind (perform fails (WriteFile [OUTPUT_DIR, backend, ''coderabbit.json''] bundleJSON)) (\<lambda>_.
     io_bind (lift (createBundleRegistry backend [bundleConfig])) (\<lambda>registryJSON.
     io_bind (perform fails (WriteFile [OUTPUT_DIR, backend, ''registry.json''] registryJSON)) (\<lambda>_.
     io_bind (lift (get ''title'' (Some bundleConfig))) (\<lambda>title.
     io_bind (lift (printed title)) (\<lambda>_.
     io_bind (lift (get ''meta'' (Some bundleConfig))) (\<lambda>meta.
     io_bind (lift (get ''backend'' meta)) (\<lambda>label.
     io_bind (lift (printed label)) (\<lambda>_. io_return ()))))))))))"

text \<open>\<^verbatim>\<open>buildBundles()\<close> over a table, and the script, which runs it on \<^verbatim>\<open>BUNDLES\<close>.\<close>

fun buildBundles :: "(event \<Rightarrow> bool) \<Rightarrow> (string \<times> json) list \<Rightarrow> unit io" where
  "buildBundles fails [] = io_return ()"
| "buildBundles fails ((backend, bundleConfig) # rest) =
     io_bind (buildBundle fails backend bundleConfig) (\<lambda>_. buildBundles fails rest)"

definition main_bundles :: "(event \<Rightarrow> bool) \<Rightarrow> event list \<times> nat" where
  "main_bundles fails = run_script (buildBundles fails BUNDLES)"

text \<open>The documents written, in order, at the paths that start with \<open>dir\<close>.\<close>

fun writes_under :: "path \<Rightarrow> event list \<Rightarrow> (path \<times> json) list" where
  "writes_under dir [] = []"
| "writes_under dir (WriteFile p d # es) =
     (if take (length dir) p = dir then (p, d) # writes_under dir es else writes_under dir es)"
| "writes_under dir (e # es) = writes_under dir es"

section \<open>Notions for the statements about the builders\<close>

text \<open>
  A step that never calls \<^verbatim>\<open>process.exit\<close>; the consolidated index the flat builder
  writes for a registry and its rewritten items.
\<close>

definition no_exit :: "'a io \<Rightarrow> bool" where
  "no_exit m \<longleftrightarrow> (\<forall>n. snd m \<noteq> Inl (Exit n))"

definition index_doc :: "json \<Rightarrow> json list \<Rightarrow> json" where
  "index_doc registry transformed = JObj (fmupd ''items'' (JArr transformed) (own_props registry))"

text \<open>
  For a bundle configuration: the strings of its \<^verbatim>\<open>registryDependencies\<close>; that these are
  all of the list and the fields the progress lines print are there; the two documents
  the builder writes for it; and the events of a table of such configurations.
\<close>

definition dep_strings :: "json \<Rightarrow> string list" where
  "dep_strings cfg =
     (case get ''registryDependencies'' (Some cfg) of
        Inr (Some (JArr xs)) \<Rightarrow> concat (map (\<lambda>x. case x of JStr s \<Rightarrow> [s] | _ \<Rightarrow> []) xs)
      | _ \<Rightarrow> [])"

definition typed_bundle :: "json \<Rightarrow> bool" where
  "typed_bundle cfg \<longleftrightarrow>
     get ''registryDependencies'' (Some cfg) = Inr (Some (JArr (map JStr (dep_strings cfg))))
     \<and> (case get ''title'' (Some cfg) of
          Inr title \<Rightarrow> (case printed title of Inr s \<Rightarrow> True | Inl e \<Rightarrow> False)
        | Inl e \<Rightarrow> False)
     \<and> (case get ''meta'' (Some cfg) of
          Inr meta \<Rightarrow>
            (case get ''backend'' meta of
               Inr label \<Rightarrow> (case printed label of Inr s \<Rightarrow> True | Inl e \<Rightarrow> False)
             | Inl e \<Rightarrow> False)
        | Inl e \<Rightarrow> False)"

definition bundle_doc :: "json \<Rightarrow> json" where
  "bundle_doc cfg =
     JObj (fmupd ''registryDependencies'' (JArr (map JStr (map rewritten (dep_strings cfg))))
            (fmadd (fmupd ''$schema'' (JStr ''https://ui.shadcn.com/schema/registry-item.json'') fmempty)
                   (own_props cfg)))"

definition bundle_index :: "json \<Rightarrow> json" where
  "bundle_index cfg =
     JObj (fmap_of_list
       [(''$schema'', JStr ''https://ui.shadcn.com/schema/registry.json''),
        (''name'', JStr ''coderabbit''),
        (''homepage'', JStr ''https://github.com/RMNCLDYO/coderabbit-shadcn-registry''),
        (''items'', JArr [JObj (fmupd ''registryDependencies''
                                  (JArr (map JStr (map rewritten (dep_strings cfg))))
                                  (own_props cfg))])])"

definition bundle_events :: "(string \<times> json) list \<Rightarrow> event list" where
  "bundle_events table =
     concat (map (\<lambda>(backend, cfg).
        [EnsureDir [OUTPUT_DIR, backend],
         WriteFile [OUTPUT_DIR, backend, ''coderabbit.json''] (bundle_doc cfg),
         WriteFile [OUTPUT_DIR, backend, ''registry.json''] (bundle_index cfg)]) table)"

section \<open>Example documents and trees\<close>

text \<open>
  A registry item with one internal dependency and the same item after rewriting; a
  registry index that holds it; an output tree with a source directory \<^verbatim>\<open>registry\<close>, and
  two states of its files.
\<close>

definition ex_item :: json where
  "ex_item = JObj (fmap_of_list
     [(''name'', JStr ''coderabbit-form''),
      (''registryDependencies'', JArr [JStr ''button'', JStr ''coderabbit-types''])])"

definition ex_item_done :: json where
  "ex_item_done = JObj (fmap_of_list
     [(''name'', JStr ''coderabbit-form''),
      (''registryDependencies'', JArr [JStr ''button'',
         JStr ''https://raw.githubusercontent.com/RMNCLDYO/coderabbit-shadcn-registry/main/public/r/coderabbit-types.json''])])"

definition ex_index :: json where
  "ex_index = JObj (fmap_of_list
     [(''name'', JStr ''coderabbit''), (''items'', JArr [ex_item, JObj (fmap_of_list [(''name'', JStr ''plain'')])])])"

definition ex_index_done :: json where
  "ex_index_done = JObj (fmap_of_list
     [(''name'', JStr ''coderabbit''), (''items'', JArr [ex_item_done, JObj (fmap_of_list [(''name'', JStr ''plain'')])])])"

definition ex_tree :: "dirent list" where
  "ex_tree = [FileEnt ''coderabbit-form.json'', FileEnt ''notes.txt'',
              DirEnt ''registry'' [FileEnt ''source.json''],
              DirEnt ''convex'' [FileEnt ''registry.json'']]"

definition ex_store :: store where
  "ex_store = (\<lambda>p. Unreadable)
     ([''public/r'', ''coderabbit-form.json''] := Parsed ex_item,
      [''public/r'', ''convex'', ''registry.json''] := Malformed)"

definition ex_store2 :: store where
  "ex_store2 = (\<lambda>p. Unreadable)([''public/r'', ''registry.json''] := Parsed ex_index)"

text \<open>
  A document with a number too large for a double, which \<^verbatim>\<open>JSON.parse\<close> reads as
  \<^verbatim>\<open>Infinity\<close>; the document after rewriting, as \<^verbatim>\<open>processFile\<close> holds it; and the
  document the written file parses back to.
\<close>

definition ex_big :: json where
  "ex_big = JObj (fmap_of_list
     [(''registryDependencies'', JArr [JStr ''coderabbit-types'']),
      (''size'', JInf False)])"

definition ex_big_done :: json where
  "ex_big_done = JObj (fmap_of_list
     [(''registryDependencies'', JArr [JStr ''https://raw.githubusercontent.com/RMNCLDYO/coderabbit-shadcn-registry/main/public/r/coderabbit-types.json'']),
      (''size'', JInf False)])"

definition ex_big_read_back :: json where
  "ex_big_read_back = JObj (fmap_of_list
     [(''registryDependencies'', JArr [JStr ''https://raw.githubusercontent.com/RMNCLDYO/coderabbit-shadcn-registry/main/public/r/coderabbit-types.json'']),
      (''size'', JNull)])"

definition ex_store3 :: store where
  "ex_store3 = (\<lambda>p. Unreadable)([''public/r'', ''big.json''] := Parsed ex_big)"

text \<open>
  The item of the specification's example, with one file that has inline content, and
  its flattened descriptor; an item without a name; a registry of both, and the index
  built from it; the one source file that exists.
\<close>

definition ex_lib_item :: json where
  "ex_lib_item = JObj (fmap_of_list
     [(''name'', JStr ''foo''),
      (''type'', JStr ''registry:lib''),
      (''files'', JArr [JObj (fmap_of_list
          [(''path'', JStr ''lib/foo.ts''),
           (''content'', JStr ''export const x=1''),
           (''type'', JStr ''registry:lib'')])])])"

definition ex_lib_flat :: json where
  "ex_lib_flat = JObj (fmap_of_list
     [(''$schema'', JStr ''https://ui.shadcn.com/schema/registry-item.json''),
      (''name'', JStr ''foo''),
      (''type'', JStr ''registry:lib''),
      (''files'', JArr [JObj (fmap_of_list
          [(''path'', JStr ''lib/foo.ts''),
           (''type'', JStr ''registry:lib'')])])])"

definition ex_nameless :: json where
  "ex_nameless = JObj (fmap_of_list
     [(''title'', JStr ''Draft''),
      (''registryDependencies'', JArr [JStr ''coderabbit-types''])])"

definition ex_nameless_done :: json where
  "ex_nameless_done = JObj (fmap_of_list
     [(''title'', JStr ''Draft''),
      (''registryDependencies'', JArr [JStr ''https://raw.githubusercontent.com/RMNCLDYO/coderabbit-shadcn-registry/main/public/r/coderabbit-types.json''])])"

definition ex_registry :: json where
  "ex_registry = JObj (fmap_of_list
     [(''name'', JStr ''coderabbit''), (''items'', JArr [ex_nameless, ex_lib_item])])"

definition ex_registry_index :: json where
  "ex_registry_index = JObj (fmap_of_list
     [(''name'', JStr ''coderabbit''), (''items'', JArr [ex_nameless_done, ex_lib_item])])"

text \<open>
  An item without a name whose \<^verbatim>\<open>registryDependencies\<close> holds a number, and a registry
  of it and the item above.
\<close>

definition ex_nameless_bad :: json where
  "ex_nameless_bad = JObj (fmap_of_list
     [(''title'', JStr ''Draft''), (''registryDependencies'', JArr [JNum 1])])"

definition ex_registry_bad :: json where
  "ex_registry_bad = JObj (fmap_of_list
     [(''name'', JStr ''coderabbit''), (''items'', JArr [ex_nameless_bad, ex_lib_item])])"

definition ex_sources :: "path \<Rightarrow> bool" where
  "ex_sources p = (p = [''lib/foo.ts''])"

section \<open>Facts about the rewriters\<close>

lemma mapE_strings:
  assumes "\<And>d. f (JStr d) = Inr (JStr (g d))"
  shows "mapE f (map JStr ds) = Inr (map JStr (map g ds))"
  by (induction ds) (simp_all add: assms)

lemma rewriteDep_string: "rewriteDep (JStr d) = Inr (JStr (rewritten d))"
  by (simp add: rewritten_def REGISTRY_BASE_URL_def)

lemma url_not_internal:
  "startsWith d ''http://'' \<or> startsWith d ''https://'' \<Longrightarrow> \<not> startsWith d ''coderabbit-''"
  by (cases d) (auto simp: startsWith_def)

lemma rewriteDepUrl_eq: "rewriteDepUrl v = rewriteDep v"
  using url_not_internal by (cases v) auto

lemma rewriteDepUrl_string: "rewriteDepUrl (JStr d) = Inr (JStr (rewritten d))"
  by (simp only: rewriteDepUrl_eq rewriteDep_string)

lemma transformRegistryDependencies_bundles_strings:
  "transformRegistryDependencies_bundles (Some (JArr (map JStr ds)))
     = Inr (Some (JArr (map JStr (map rewritten ds))))"
  by (simp add: mapE_strings [where g = rewritten, OF rewriteDep_string] del: map_map)

lemma transformRegistryDependencies_flat_strings:
  "transformRegistryDependencies_flat (Some (JArr (map JStr ds)))
     = Inr (Some (JArr (map JStr (map rewritten ds))))"
  by (simp add: transformRegistryDependencies_flat_def
      mapE_strings [where g = rewritten, OF rewriteDep_string] del: map_map)

lemma transformDeps_strings:
  "transformDeps (Some (JArr (map JStr ds)))
     = Inr (Some (JArr (map JStr (map rewritten ds))))"
  by (simp add: transformDeps_def
      mapE_strings [where g = rewritten, OF rewriteDepUrl_string] del: map_map)

lemma rewriteDepUrl_fun_eq: "rewriteDepUrl = rewriteDep"
  by (rule ext) (rule rewriteDepUrl_eq)

section \<open>The rewriter's contract\<close>

text \<open>
  Claim C1. On a list \<open>ds\<close> of dependency identifiers each of the three rewriters
  returns a list \<open>out\<close> of the same length, and at every position \<open>i\<close>: when \<open>ds ! i\<close>
  starts with \<^verbatim>\<open>coderabbit-\<close> the element is the base URL, a slash, the identifier and
  \<^verbatim>\<open>.json\<close>; when it starts with \<^verbatim>\<open>http://\<close> or \<^verbatim>\<open>https://\<close> it is the identifier; in
  every other case it is the identifier too.
\<close>

theorem rewriter_elementwise:
  "\<exists>out. length out = length ds
     \<and> transformRegistryDependencies_bundles (Some (JArr (map JStr ds)))
         = Inr (Some (JArr (map JStr out)))
     \<and> transformRegistryDependencies_flat (Some (JArr (map JStr ds)))
         = Inr (Some (JArr (map JStr out)))
     \<and> transformDeps (Some (JArr (map JStr ds))) = Inr (Some (JArr (map JStr out)))
     \<and> (\<forall>i<length ds.
          (startsWith (ds ! i) ''coderabbit-'' \<longrightarrow>
             out ! i =
               ''https://raw.githubusercontent.com/RMNCLDYO/coderabbit-shadcn-registry/main/public/r/''
                 @ ds ! i @ ''.json'')
        \<and> (startsWith (ds ! i) ''http://'' \<or> startsWith (ds ! i) ''https://'' \<longrightarrow>
             out ! i = ds ! i)
        \<and> (\<not> startsWith (ds ! i) ''coderabbit-'' \<longrightarrow> out ! i = ds ! i))"
proof (intro exI [of _ "map rewritten ds"] conjI allI impI)
  show "length (map rewritten ds) = length ds" by simp
  show "transformRegistryDependencies_bundles (Some (JArr (map JStr ds)))
          = Inr (Some (JArr (map JStr (map rewritten ds))))"
    by (rule transformRegistryDependencies_bundles_strings)
  show "transformRegistryDependencies_flat (Some (JArr (map JStr ds)))
          = Inr (Some (JArr (map JStr (map rewritten ds))))"
    by (rule transformRegistryDependencies_flat_strings)
  show "transformDeps (Some (JArr (map JStr ds)))
          = Inr (Some (JArr (map JStr (map rewritten ds))))"
    by (rule transformDeps_strings)
next
  fix i assume "i < length ds" "startsWith (ds ! i) ''coderabbit-''"
  then show "map rewritten ds ! i =
      ''https://raw.githubusercontent.com/RMNCLDYO/coderabbit-shadcn-registry/main/public/r/''
        @ ds ! i @ ''.json''"
    by (simp add: rewritten_def)
next
  fix i assume "i < length ds"
    "startsWith (ds ! i) ''http://'' \<or> startsWith (ds ! i) ''https://''"
  then show "map rewritten ds ! i = ds ! i"
    using url_not_internal [of "ds ! i"] by (simp add: rewritten_def)
next
  fix i assume "i < length ds" "\<not> startsWith (ds ! i) ''coderabbit-''"
  then show "map rewritten ds ! i = ds ! i"
    by (simp add: rewritten_def)
qed

theorem rewriter_elementwise_witness:
  "transformDeps (Some (JArr [JStr ''button'', JStr ''coderabbit-types'', JStr ''https://a.b/c.json'']))
     = Inr (Some (JArr [JStr ''button'',
         JStr ''https://raw.githubusercontent.com/RMNCLDYO/coderabbit-shadcn-registry/main/public/r/coderabbit-types.json'',
         JStr ''https://a.b/c.json'']))
   \<and> transformRegistryDependencies_flat (Some (JArr [JStr ''button'', JStr ''coderabbit-types'', JStr ''https://a.b/c.json'']))
     = transformDeps (Some (JArr [JStr ''button'', JStr ''coderabbit-types'', JStr ''https://a.b/c.json'']))
   \<and> transformRegistryDependencies_bundles (Some (JArr [JStr ''button'', JStr ''coderabbit-types'', JStr ''https://a.b/c.json'']))
     = transformDeps (Some (JArr [JStr ''button'', JStr ''coderabbit-types'', JStr ''https://a.b/c.json'']))"
proof -
  let ?ds = "[''button'', ''coderabbit-types'', ''https://a.b/c.json'']"
  obtain out where len: "length out = length ?ds"
    and b: "transformRegistryDependencies_bundles (Some (JArr (map JStr ?ds)))
              = Inr (Some (JArr (map JStr out)))"
    and f: "transformRegistryDependencies_flat (Some (JArr (map JStr ?ds)))
              = Inr (Some (JArr (map JStr out)))"
    and t: "transformDeps (Some (JArr (map JStr ?ds))) = Inr (Some (JArr (map JStr out)))"
    and el: "\<forall>i<length ?ds.
          (startsWith (?ds ! i) ''coderabbit-'' \<longrightarrow>
             out ! i =
               ''https://raw.githubusercontent.com/RMNCLDYO/coderabbit-shadcn-registry/main/public/r/''
                 @ ?ds ! i @ ''.json'')
        \<and> (startsWith (?ds ! i) ''http://'' \<or> startsWith (?ds ! i) ''https://'' \<longrightarrow>
             out ! i = ?ds ! i)
        \<and> (\<not> startsWith (?ds ! i) ''coderabbit-'' \<longrightarrow> out ! i = ?ds ! i)"
    using rewriter_elementwise [of ?ds] by blast
  from el [rule_format, of 0] have e0: "out ! 0 = ''button''"
    by (simp add: startsWith_def)
  from el [rule_format, of 1] have e1: "out ! 1 =
      ''https://raw.githubusercontent.com/RMNCLDYO/coderabbit-shadcn-registry/main/public/r/coderabbit-types.json''"
    by (simp add: startsWith_def)
  from el [rule_format, of 2] have e2: "out ! 2 = ''https://a.b/c.json''"
    by (simp add: startsWith_def)
  from len obtain a b c where out: "out = [a, b, c]"
    by (cases out; cases "tl out"; cases "tl (tl out)") auto
  with e0 e1 e2 have "out = [''button'',
      ''https://raw.githubusercontent.com/RMNCLDYO/coderabbit-shadcn-registry/main/public/r/coderabbit-types.json'',
      ''https://a.b/c.json'']"
    by simp
  with b f t show ?thesis by simp
qed

text \<open>
  Claim C4, as amended. On an input that is absent (\<^verbatim>\<open>undefined\<close>, \<^verbatim>\<open>null\<close>) or is not an
  array, the rewriter of the Flat Registry Builder and the one of the Post-Build URL
  Transformer return the input as it is and raise nothing. The rewriter of the Bundle
  Registry Builder has no such guard (it is only ever applied to the lists of the fixed
  bundle table): on such an input it raises a \<^verbatim>\<open>TypeError\<close>.
\<close>

theorem rewriter_non_list:
  "deps = None \<or> deps = Some JNull \<or> \<not> isArray deps \<Longrightarrow>
     transformRegistryDependencies_flat deps = Inr deps
   \<and> transformDeps deps = Inr deps
   \<and> transformRegistryDependencies_bundles deps = Inl TypeError"
proof -
  assume "deps = None \<or> deps = Some JNull \<or> \<not> isArray deps"
  then have na: "\<not> isArray deps" by auto
  then have "transformRegistryDependencies_bundles deps = Inl TypeError"
    by (cases deps rule: isArray.cases) simp_all
  with na show ?thesis
    by (simp add: transformRegistryDependencies_flat_def transformDeps_def)
qed

theorem rewriter_non_list_witness:
  "transformRegistryDependencies_flat (Some (JStr ''coderabbit-types''))
     = Inr (Some (JStr ''coderabbit-types''))
   \<and> transformDeps (Some (JStr ''coderabbit-types'')) = Inr (Some (JStr ''coderabbit-types''))
   \<and> transformRegistryDependencies_bundles (Some (JStr ''coderabbit-types'')) = Inl TypeError"
  using rewriter_non_list [of "Some (JStr ''coderabbit-types'')"] by simp

text \<open>
  Claim C4 as it is written fails for the Bundle Registry Builder: its rewriter does not
  return an absent input, it raises.
\<close>

theorem rewriter_non_list_counterexample:
  "transformRegistryDependencies_bundles None = Inl TypeError
   \<and> transformRegistryDependencies_bundles None \<noteq> Inr None
   \<and> transformRegistryDependencies_bundles (Some JNull) \<noteq> Inr (Some JNull)"
  by simp

text \<open>
  Claim C10. The rewriter of the Flat Registry Builder, which has no test for URLs, and
  the one of the Post-Build Transformer, which skips identifiers that start with
  \<^verbatim>\<open>http://\<close> or \<^verbatim>\<open>https://\<close>, give the same result (value or exception) on every input,
  a list or not.
\<close>

theorem flat_rewriter_eq_transformDeps:
  "transformRegistryDependencies_flat deps = transformDeps deps"
  by (simp only: transformRegistryDependencies_flat_def transformDeps_def
      rewriteDepUrl_fun_eq)

theorem flat_rewriter_eq_transformDeps_witness:
  "transformRegistryDependencies_flat
       (Some (JArr [JStr ''https://x.y/coderabbit-a'', JStr ''coderabbit-form'', JStr ''input'']))
     = Inr (Some (JArr [JStr ''https://x.y/coderabbit-a'',
         JStr ''https://raw.githubusercontent.com/RMNCLDYO/coderabbit-shadcn-registry/main/public/r/coderabbit-form.json'',
         JStr ''input'']))
   \<and> transformRegistryDependencies_flat (Some (JArr [JStr ''coderabbit-form'', JNum 3]))
     = Inl TypeError
   \<and> transformRegistryDependencies_flat (Some (JBool True)) = Inr (Some (JBool True))"
proof -
  have "transformDeps
       (Some (JArr [JStr ''https://x.y/coderabbit-a'', JStr ''coderabbit-form'', JStr ''input'']))
     = Inr (Some (JArr [JStr ''https://x.y/coderabbit-a'',
         JStr ''https://raw.githubusercontent.com/RMNCLDYO/coderabbit-shadcn-registry/main/public/r/coderabbit-form.json'',
         JStr ''input'']))"
    by (simp add: transformDeps_def startsWith_def REGISTRY_BASE_URL_def)
  moreover have "transformDeps (Some (JArr [JStr ''coderabbit-form'', JNum 3])) = Inl TypeError"
    by (simp add: transformDeps_def startsWith_def REGISTRY_BASE_URL_def)
  moreover have "transformDeps (Some (JBool True)) = Inr (Some (JBool True))"
    by (simp add: transformDeps_def)
  ultimately show ?thesis
    by (simp only: flat_rewriter_eq_transformDeps)
qed

section \<open>Facts about the transformer: a second pass changes nothing\<close>

lemma startsWith_base_url: "startsWith (REGISTRY_BASE_URL @ s) ''https://''"
  by (simp add: startsWith_def REGISTRY_BASE_URL_def)

lemma rewriteDepUrl_idem: "rewriteDepUrl x = Inr y \<Longrightarrow> rewriteDepUrl y = Inr y"
  by (cases x) (auto simp: startsWith_base_url split: if_splits)

lemma mapE_idem:
  assumes "\<And>x y. f x = Inr y \<Longrightarrow> f y = Inr y"
  shows "mapE f xs = Inr ys \<Longrightarrow> mapE f ys = Inr ys"
proof (induction xs arbitrary: ys)
  case Nil
  then show ?case by simp
next
  case (Cons x xs)
  then show ?case
    by (auto split: sum.splits dest: assms)
qed

lemma transformDeps_Inr_cases:
  assumes "transformDeps v = Inr t"
  shows "t = v \<or> (\<exists>xs ys. v = Some (JArr xs) \<and> t = Some (JArr ys) \<and> mapE rewriteDepUrl xs = Inr ys)"
  using assms
  by (cases v rule: isArray.cases) (auto simp: transformDeps_def split: sum.splits)

lemma transformDeps_array: 
  "transformDeps (Some (JArr xs)) = (case mapE rewriteDepUrl xs of Inl e \<Rightarrow> Inl e | Inr ys \<Rightarrow> Inr (Some (JArr ys)))"
  by (simp add: transformDeps_def)

lemma transformDeps_idem: 
  assumes "transformDeps v = Inr t" shows "transformDeps t = Inr t"
proof -
  from transformDeps_Inr_cases [OF assms] show ?thesis
  proof
    assume "t = v" with assms show ?thesis by simp
  next
    assume "\<exists>xs ys. v = Some (JArr xs) \<and> t = Some (JArr ys) \<and> mapE rewriteDepUrl xs = Inr ys"
    then obtain xs ys where "t = Some (JArr ys)" "mapE rewriteDepUrl xs = Inr ys" by blast
    then show ?thesis
      using mapE_idem [of rewriteDepUrl xs ys, OF rewriteDepUrl_idem]
      by (simp add: transformDeps_array)
  qed
qed

lemma transformDeps_truthy:
  "transformDeps v = Inr t \<Longrightarrow> truthy v \<Longrightarrow> truthy t"
  by (drule transformDeps_Inr_cases) auto

lemma transformDeps_Some:
  "transformDeps v = Inr t \<Longrightarrow> truthy v \<Longrightarrow> \<exists>x. t = Some x"
  by (drule transformDeps_truthy) (auto, cases t, auto)

lemma transformItem_idem:
  assumes "transformItem x = Inr (x', m)"
  shows "transformItem x' = Inr (x', False)"
proof (cases m)
  case False
  with assms have "x' = x"
    by (auto simp: transformItem_def split: sum.splits if_splits)
  with assms False show ?thesis
    by (auto simp: transformItem_def split: sum.splits if_splits)
next
  case True
  with assms obtain deps t where
    d: "get ''registryDependencies'' (Some x) = Inr deps" "truthy deps"
    and t: "transformDeps deps = Inr t" "t \<noteq> deps"
    and x': "x' = JObj (with_prop ''registryDependencies'' t (own_props x))"
    by (auto simp: transformItem_def split: sum.splits if_splits)
  from transformDeps_Some [OF t(1) d(2)] obtain tv where tv: "t = Some tv" by blast
  have "truthy t" using transformDeps_truthy [OF t(1) d(2)] .
  moreover have "transformDeps t = Inr t" using transformDeps_idem [OF t(1)] .
  ultimately show ?thesis
    by (simp add: x' tv transformItem_def with_prop_def)
qed


lemma processRoot_cases:
  assumes "processRoot d = Inr (d1, m)"
  shows "(d1 = d \<and> \<not> m) \<or>
         (\<exists>obj deps t. d = JObj obj \<and> fmlookup obj ''registryDependencies'' = deps \<and> truthy deps
            \<and> transformDeps deps = Inr (Some t) \<and> Some t \<noteq> deps
            \<and> d1 = JObj (fmupd ''registryDependencies'' t obj) \<and> m)"
proof (cases d)
  case (JObj obj)
  show ?thesis
  proof (cases m)
    case False
    with assms show ?thesis
      by (auto simp: processRoot_def split: sum.splits if_splits)
  next
    case True
    with assms JObj obtain t where
      tr: "truthy (fmlookup obj ''registryDependencies'')"
      and t: "transformDeps (fmlookup obj ''registryDependencies'') = Inr t"
        "t \<noteq> fmlookup obj ''registryDependencies''"
      and d1: "d1 = assign ''registryDependencies'' t d"
      by (auto simp: processRoot_def split: sum.splits if_splits)
    from transformDeps_Some [OF t(1) tr] obtain tv where "t = Some tv" by blast
    with tr t d1 JObj True show ?thesis
      by (simp add: with_prop_def)
  qed
qed (use assms in \<open>auto simp: processRoot_def split: sum.splits if_splits\<close>)

lemma processRoot_stable_iff:
  "processRoot d = Inr (d, False) \<longleftrightarrow>
     (\<exists>deps. get ''registryDependencies'' (Some d) = Inr deps
        \<and> (truthy deps \<longrightarrow> transformDeps deps = Inr deps))"
  by (auto simp: processRoot_def split: sum.splits if_splits)

lemma processRoot_idem:
  assumes "processRoot d = Inr (d1, m)"
  shows "processRoot d1 = Inr (d1, False)"
proof -
  from processRoot_cases [OF assms] show ?thesis
  proof
    assume "d1 = d \<and> \<not> m" with assms show ?thesis by simp
  next
    assume "\<exists>obj deps t. d = JObj obj \<and> fmlookup obj ''registryDependencies'' = deps \<and> truthy deps
            \<and> transformDeps deps = Inr (Some t) \<and> Some t \<noteq> deps
            \<and> d1 = JObj (fmupd ''registryDependencies'' t obj) \<and> m"
    then obtain obj deps t where td: "transformDeps deps = Inr (Some t)"
      and d1: "d1 = JObj (fmupd ''registryDependencies'' t obj)"
      by blast
    from td have "transformDeps (Some t) = Inr (Some t)"
      by (rule transformDeps_idem)
    with d1 show ?thesis
      by (simp add: processRoot_stable_iff)
  qed
qed

lemma get_assign_other:
  "k \<noteq> k' \<Longrightarrow> get k (Some (assign k' v d)) = get k (Some d)"
  by (cases d) (auto simp: with_prop_def split: option.splits)

lemma processRoot_stable_assign_items:
  "processRoot d = Inr (d, False) \<Longrightarrow>
     processRoot (assign ''items'' v d) = Inr (assign ''items'' v d, False)"
  by (simp add: processRoot_stable_iff get_assign_other)

lemma mapE_transformItem_idem:
  "mapE transformItem xs = Inr rs \<Longrightarrow>
     mapE transformItem (map fst rs) = Inr (map (\<lambda>r. (fst r, False)) rs)"
proof (induction xs arbitrary: rs)
  case Nil
  then show ?case by simp
next
  case (Cons x xs)
  then obtain r rs' where r: "transformItem x = Inr r" and rs': "mapE transformItem xs = Inr rs'"
    and rs: "rs = r # rs'"
    by (auto split: sum.splits)
  from r have "transformItem (fst r) = Inr (fst r, False)"
    using transformItem_idem [of x "fst r" "snd r"] by simp
  with Cons.IH [OF rs'] rs show ?case by simp
qed

lemma list_ex_snd_False [simp]: "\<not> list_ex snd (map (\<lambda>r. (fst r, False)) rs)"
  by (induction rs) simp_all

lemma map_fst_False [simp]: "map (fst \<circ> (\<lambda>r. (fst r, False))) rs = map fst rs"
  by (induction rs) simp_all

lemma isArray_iff: "isArray v \<longleftrightarrow> (\<exists>xs. v = Some (JArr xs))"
  by (cases v rule: isArray.cases) simp_all

lemma processItems_idem:
  assumes "processItems d b = Inr (d', m)"
  shows "processItems d' b' = Inr (d', b')"
proof (cases d)
  case (JObj obj)
  show ?thesis
  proof (cases "isArray (fmlookup obj ''items'')")
    case True
    then obtain xs where xs: "fmlookup obj ''items'' = Some (JArr xs)"
      by (auto simp: isArray_iff)
    with assms JObj obtain rs where rs: "mapE transformItem xs = Inr rs"
      and d': "d' = JObj (fmupd ''items'' (JArr (map fst rs)) obj)"
      by (auto simp: processItems_def with_prop_def split: sum.splits)
    from mapE_transformItem_idem [OF rs] d' show ?thesis
      by (simp add: processItems_def with_prop_def)
  next
    case False
    with assms JObj show ?thesis by (auto simp: processItems_def)
  qed
qed (use assms in \<open>auto simp: processItems_def split: sum.splits if_splits\<close>)

lemma processItems_doc:
  assumes "processItems d b = Inr (d', m)"
  shows "d' = d \<or> (\<exists>v. d' = assign ''items'' v d)"
  using assms
  by (auto simp: processItems_def split: sum.splits if_splits option.splits json.splits)

lemma processData_idem:
  assumes "processData d = Inr (d', m)"
  shows "processData d' = Inr (d', False)"
proof -
  from assms obtain d1 m1 where r: "processRoot d = Inr (d1, m1)"
    and i: "processItems d1 m1 = Inr (d', m)"
    by (auto simp: processData_def split: sum.splits)
  have "processRoot d1 = Inr (d1, False)" using processRoot_idem [OF r] .
  with processItems_doc [OF i] have "processRoot d' = Inr (d', False)"
    by (auto simp: processRoot_stable_assign_items)
  moreover have "processItems d' False = Inr (d', False)"
    using processItems_idem [OF i] .
  ultimately show ?thesis by (simp add: processData_def)
qed

section \<open>Facts about the transformer: what a pass leaves alone\<close>

lemma truthy_get_obj:
  "get k (Some x) = Inr v \<Longrightarrow> truthy v \<Longrightarrow> \<exists>m. x = JObj m"
  by (cases x) auto

lemma transformItem_frame:
  assumes "transformItem x = Inr (x', m)"
  shows "k \<noteq> ''registryDependencies'' \<Longrightarrow> get k (Some x') = get k (Some x)"
    and "m \<longleftrightarrow> x' \<noteq> x"
    and "m \<longleftrightarrow> get ''registryDependencies'' (Some x') \<noteq> get ''registryDependencies'' (Some x)"
proof -
  have "(\<not> m \<and> x' = x) \<or>
        (m \<and> (\<exists>mo t. x = JObj mo \<and> x' = JObj (fmupd ''registryDependencies'' t mo)
           \<and> Some t \<noteq> fmlookup mo ''registryDependencies''))"
  proof (cases m)
    case False
    with assms show ?thesis
      by (auto simp: transformItem_def split: sum.splits if_splits)
  next
    case True
    with assms obtain deps t where
      d: "get ''registryDependencies'' (Some x) = Inr deps" "truthy deps"
      and t: "transformDeps deps = Inr t" "t \<noteq> deps"
      and x': "x' = JObj (with_prop ''registryDependencies'' t (own_props x))"
      by (auto simp: transformItem_def split: sum.splits if_splits)
    from truthy_get_obj [OF d] obtain mo where mo: "x = JObj mo" by blast
    from transformDeps_Some [OF t(1) d(2)] obtain tv where tv: "t = Some tv" by blast
    from d t x' mo tv True show ?thesis by (auto simp: with_prop_def)
  qed
  then have c: "(\<not> m \<and> x' = x) \<or>
        (m \<and> (\<exists>mo t. x = JObj mo \<and> x' = JObj (fmupd ''registryDependencies'' t mo)
           \<and> get ''registryDependencies'' (Some x') \<noteq> get ''registryDependencies'' (Some x)))"
    by auto
  from c show "k \<noteq> ''registryDependencies'' \<Longrightarrow> get k (Some x') = get k (Some x)"
    by auto
  from c show "m \<longleftrightarrow> get ''registryDependencies'' (Some x') \<noteq> get ''registryDependencies'' (Some x)"
    by auto
  from c show "m \<longleftrightarrow> x' \<noteq> x"
    by auto
qed

lemma mapE_nth:
  "mapE f xs = Inr ys \<Longrightarrow> length ys = length xs \<and> (\<forall>i<length xs. f (xs ! i) = Inr (ys ! i))"
proof (induction xs arbitrary: ys)
  case Nil
  then show ?case by simp
next
  case (Cons x xs)
  then obtain y ys' where "f x = Inr y" "mapE f xs = Inr ys'" "ys = y # ys'"
    by (auto split: sum.splits)
  with Cons.IH [of ys'] show ?case
    by (auto simp: nth_Cons split: nat.splits)
qed

lemma fmupd_same: "fmlookup m k = Some v \<Longrightarrow> fmupd k v m = m"
  by (rule fmap_ext) auto

lemma fmupd_changes: "fmlookup m k \<noteq> Some v \<Longrightarrow> fmupd k v m \<noteq> m"
  by (metis fmupd_lookup)

lemma processItems_cases:
  assumes "processItems d b = Inr (d', m)"
  shows "(d' = d \<and> m = b \<and> (\<forall>xs. get ''items'' (Some d) \<noteq> Inr (Some (JArr xs)))) \<or>
         (\<exists>obj xs rs. d = JObj obj \<and> fmlookup obj ''items'' = Some (JArr xs)
            \<and> mapE transformItem xs = Inr rs
            \<and> d' = JObj (fmupd ''items'' (JArr (map fst rs)) obj)
            \<and> m = (b \<or> list_ex snd rs))"
proof (cases d)
  case (JObj obj)
  show ?thesis
  proof (cases "isArray (fmlookup obj ''items'')")
    case True
    then obtain xs where xs: "fmlookup obj ''items'' = Some (JArr xs)"
      by (auto simp: isArray_iff)
    with assms JObj show ?thesis
      by (auto simp: processItems_def with_prop_def split: sum.splits)
  next
    case False
    with assms JObj show ?thesis by (auto simp: processItems_def)
  qed
qed (use assms in \<open>auto simp: processItems_def split: sum.splits if_splits\<close>)

lemma items_frame:
  assumes rs: "mapE transformItem xs = Inr rs"
  shows "length (map fst rs) = length xs"
    and "i < length xs \<Longrightarrow> k \<noteq> ''registryDependencies'' \<Longrightarrow>
           get k (Some (map fst rs ! i)) = get k (Some (xs ! i))"
    and "list_ex snd rs \<longleftrightarrow>
           (\<exists>i<length xs. get ''registryDependencies'' (Some (map fst rs ! i))
                            \<noteq> get ''registryDependencies'' (Some (xs ! i)))"
    and "list_ex snd rs \<longleftrightarrow> map fst rs \<noteq> xs"
proof -
  from mapE_nth [OF rs] have len: "length rs = length xs"
    and el: "\<And>i. i < length xs \<Longrightarrow> transformItem (xs ! i) = Inr (fst (rs ! i), snd (rs ! i))"
    by auto
  show "length (map fst rs) = length xs" using len by simp
  show "i < length xs \<Longrightarrow> k \<noteq> ''registryDependencies'' \<Longrightarrow>
           get k (Some (map fst rs ! i)) = get k (Some (xs ! i))"
    using transformItem_frame(1) [OF el] len by simp
  have ex: "list_ex snd rs \<longleftrightarrow> (\<exists>i<length xs. snd (rs ! i))"
    using len by (simp add: list_ex_length)
  show "list_ex snd rs \<longleftrightarrow>
           (\<exists>i<length xs. get ''registryDependencies'' (Some (map fst rs ! i))
                            \<noteq> get ''registryDependencies'' (Some (xs ! i)))"
    unfolding ex using transformItem_frame(3) [OF el] len by auto
  have "map fst rs \<noteq> xs \<longleftrightarrow> (\<exists>i<length xs. fst (rs ! i) \<noteq> xs ! i)"
    using len by (auto simp: list_eq_iff_nth_eq)
  then show "list_ex snd rs \<longleftrightarrow> map fst rs \<noteq> xs"
    unfolding ex using transformItem_frame(2) [OF el] by auto
qed


lemma processData_parts:
  assumes "processData d = Inr (d', m)"
  obtains d1 m1 where "processRoot d = Inr (d1, m1)" "processItems d1 m1 = Inr (d', m)"
  using assms by (auto simp: processData_def split: sum.splits)

lemma processRoot_frame:
  assumes "processRoot d = Inr (d1, m1)"
  shows "k \<noteq> ''registryDependencies'' \<Longrightarrow> get k (Some d1) = get k (Some d)"
    and "m1 \<longleftrightarrow> get ''registryDependencies'' (Some d1) \<noteq> get ''registryDependencies'' (Some d)"
    and "m1 \<longleftrightarrow> d1 \<noteq> d"
proof -
  from processRoot_cases [OF assms]
  have c: "(d1 = d \<and> \<not> m1) \<or>
         (m1 \<and> get ''registryDependencies'' (Some d1) \<noteq> get ''registryDependencies'' (Some d)
            \<and> (\<forall>k. k \<noteq> ''registryDependencies'' \<longrightarrow> get k (Some d1) = get k (Some d)))"
    by auto
  from c show "k \<noteq> ''registryDependencies'' \<Longrightarrow> get k (Some d1) = get k (Some d)" by auto
  from c show "m1 \<longleftrightarrow> get ''registryDependencies'' (Some d1) \<noteq> get ''registryDependencies'' (Some d)"
    by auto
  from c show "m1 \<longleftrightarrow> d1 \<noteq> d" by auto
qed

lemma processItems_frame:
  assumes "processItems d1 b = Inr (d', m)"
  shows "k \<noteq> ''items'' \<Longrightarrow> get k (Some d') = get k (Some d1)"
    and "get ''items'' (Some d1) = Inr (Some (JArr xs)) \<Longrightarrow>
           \<exists>ys. get ''items'' (Some d') = Inr (Some (JArr ys)) \<and> length ys = length xs
             \<and> (\<forall>i<length xs. \<forall>k. k \<noteq> ''registryDependencies'' \<longrightarrow>
                   get k (Some (ys ! i)) = get k (Some (xs ! i)))
             \<and> (m \<longleftrightarrow> b \<or> (\<exists>i<length xs. get ''registryDependencies'' (Some (ys ! i))
                            \<noteq> get ''registryDependencies'' (Some (xs ! i))))
             \<and> (m \<longleftrightarrow> b \<or> ys \<noteq> xs)"
    and "\<forall>xs. get ''items'' (Some d1) \<noteq> Inr (Some (JArr xs)) \<Longrightarrow> d' = d1 \<and> m = b"
    and "b \<Longrightarrow> m"
    and "\<not> b \<Longrightarrow> (m \<longleftrightarrow> d' \<noteq> d1)"
proof -
  note c = processItems_cases [OF assms]
  from c show "k \<noteq> ''items'' \<Longrightarrow> get k (Some d') = get k (Some d1)" by auto
  from c show "\<forall>xs. get ''items'' (Some d1) \<noteq> Inr (Some (JArr xs)) \<Longrightarrow> d' = d1 \<and> m = b" by auto
  from c show "b \<Longrightarrow> m" by auto
  show "get ''items'' (Some d1) = Inr (Some (JArr xs)) \<Longrightarrow>
           \<exists>ys. get ''items'' (Some d') = Inr (Some (JArr ys)) \<and> length ys = length xs
             \<and> (\<forall>i<length xs. \<forall>k. k \<noteq> ''registryDependencies'' \<longrightarrow>
                   get k (Some (ys ! i)) = get k (Some (xs ! i)))
             \<and> (m \<longleftrightarrow> b \<or> (\<exists>i<length xs. get ''registryDependencies'' (Some (ys ! i))
                            \<noteq> get ''registryDependencies'' (Some (xs ! i))))
             \<and> (m \<longleftrightarrow> b \<or> ys \<noteq> xs)"
  proof -
    assume a: "get ''items'' (Some d1) = Inr (Some (JArr xs))"
    then have "\<not> (\<forall>xs. get ''items'' (Some d1) \<noteq> Inr (Some (JArr xs)))" by simp
    with c obtain obj xs' rs where obj': "d1 = JObj obj" "fmlookup obj ''items'' = Some (JArr xs')"
      and rs': "mapE transformItem xs' = Inr rs"
      and d': "d' = JObj (fmupd ''items'' (JArr (map fst rs)) obj)"
      and m: "m = (b \<or> list_ex snd rs)"
      by blast
    from a obj' have "xs' = xs" by simp
    with obj' rs' have obj: "d1 = JObj obj" "fmlookup obj ''items'' = Some (JArr xs)"
      and rs: "mapE transformItem xs = Inr rs"
      by simp_all
    have "get ''items'' (Some d') = Inr (Some (JArr (map fst rs)))" using d' by simp
    moreover note items_frame(1) [OF rs]
    moreover have "\<forall>i<length xs. \<forall>k. k \<noteq> ''registryDependencies'' \<longrightarrow>
                   get k (Some (map fst rs ! i)) = get k (Some (xs ! i))"
      using items_frame(2) [OF rs] by blast
    moreover have "m \<longleftrightarrow> b \<or> (\<exists>i<length xs. get ''registryDependencies'' (Some (map fst rs ! i))
                            \<noteq> get ''registryDependencies'' (Some (xs ! i)))"
      unfolding m using items_frame(3) [OF rs] by simp
    moreover have "m \<longleftrightarrow> b \<or> map fst rs \<noteq> xs"
      unfolding m using items_frame(4) [OF rs] by simp
    ultimately show ?thesis by blast
  qed
  show "\<not> b \<Longrightarrow> (m \<longleftrightarrow> d' \<noteq> d1)"
  proof -
    assume nb: "\<not> b"
    from c show ?thesis
    proof
      assume "d' = d1 \<and> m = b \<and> (\<forall>xs. get ''items'' (Some d1) \<noteq> Inr (Some (JArr xs)))"
      with nb show ?thesis by simp
    next
      assume "\<exists>obj xs rs. d1 = JObj obj \<and> fmlookup obj ''items'' = Some (JArr xs)
            \<and> mapE transformItem xs = Inr rs
            \<and> d' = JObj (fmupd ''items'' (JArr (map fst rs)) obj)
            \<and> m = (b \<or> list_ex snd rs)"
      then obtain obj xs rs where obj: "d1 = JObj obj" "fmlookup obj ''items'' = Some (JArr xs)"
        and rs: "mapE transformItem xs = Inr rs"
        and d': "d' = JObj (fmupd ''items'' (JArr (map fst rs)) obj)"
        and m: "m = (b \<or> list_ex snd rs)"
        by blast
      show ?thesis
      proof (cases "map fst rs = xs")
        case True
        with obj d' have "d' = d1" by (simp add: fmupd_same)
        with True m nb items_frame(4) [OF rs] show ?thesis by simp
      next
        case False
        have "fmlookup obj ''items'' \<noteq> Some (JArr (map fst rs))"
          using False obj by simp
        then have "fmupd ''items'' (JArr (map fst rs)) obj \<noteq> obj" by (rule fmupd_changes)
        then have "d' \<noteq> d1" using d' obj by simp
        with False m nb items_frame(4) [OF rs] show ?thesis by simp
      qed
    qed
  qed
qed

lemma deps_differ_same [simp]: "\<not> deps_differ d d"
  by (auto simp: deps_differ_def)

lemma processData_frame:
  assumes "processData d = Inr (d', m)"
  shows "k \<noteq> ''registryDependencies'' \<Longrightarrow> k \<noteq> ''items'' \<Longrightarrow> get k (Some d') = get k (Some d)"
    and "get ''items'' (Some d) = Inr (Some (JArr xs)) \<Longrightarrow>
           \<exists>ys. get ''items'' (Some d') = Inr (Some (JArr ys)) \<and> length ys = length xs
             \<and> (\<forall>i<length xs. \<forall>k. k \<noteq> ''registryDependencies'' \<longrightarrow>
                   get k (Some (ys ! i)) = get k (Some (xs ! i)))"
    and "\<forall>xs. get ''items'' (Some d) \<noteq> Inr (Some (JArr xs)) \<Longrightarrow>
           get ''items'' (Some d') = get ''items'' (Some d)"
    and "m \<longleftrightarrow> deps_differ d d'"
    and "m \<longleftrightarrow> d' \<noteq> d"
proof -
  from assms obtain d1 m1 where r: "processRoot d = Inr (d1, m1)"
    and i: "processItems d1 m1 = Inr (d', m)"
    by (rule processData_parts)
  have it: "get ''items'' (Some d1) = get ''items'' (Some d)"
    using processRoot_frame(1) [OF r, of "''items''"] by simp
  have rd: "get ''registryDependencies'' (Some d') = get ''registryDependencies'' (Some d1)"
    using processItems_frame(1) [OF i, of "''registryDependencies''"] by simp
  show "k \<noteq> ''registryDependencies'' \<Longrightarrow> k \<noteq> ''items'' \<Longrightarrow> get k (Some d') = get k (Some d)"
    using processRoot_frame(1) [OF r, of k] processItems_frame(1) [OF i, of k] by simp
  show "get ''items'' (Some d) = Inr (Some (JArr xs)) \<Longrightarrow>
           \<exists>ys. get ''items'' (Some d') = Inr (Some (JArr ys)) \<and> length ys = length xs
             \<and> (\<forall>i<length xs. \<forall>k. k \<noteq> ''registryDependencies'' \<longrightarrow>
                   get k (Some (ys ! i)) = get k (Some (xs ! i)))"
    using processItems_frame(2) [OF i, of xs] it by auto
  show "\<forall>xs. get ''items'' (Some d) \<noteq> Inr (Some (JArr xs)) \<Longrightarrow>
           get ''items'' (Some d') = get ''items'' (Some d)"
    using processItems_frame(3) [OF i] it by simp
  have m1: "m1 \<longleftrightarrow> get ''registryDependencies'' (Some d') \<noteq> get ''registryDependencies'' (Some d)"
    using processRoot_frame(2) [OF r] rd by simp
  show "m \<longleftrightarrow> deps_differ d d'"
  proof (cases "\<exists>xs. get ''items'' (Some d) = Inr (Some (JArr xs))")
    case True
    then obtain xs where xs: "get ''items'' (Some d) = Inr (Some (JArr xs))" by blast
    with processItems_frame(2) [OF i, of xs] it obtain ys where
      ys: "get ''items'' (Some d') = Inr (Some (JArr ys))"
      and m: "m \<longleftrightarrow> m1 \<or> (\<exists>i<length xs. get ''registryDependencies'' (Some (ys ! i))
                            \<noteq> get ''registryDependencies'' (Some (xs ! i)))"
      by auto
    from xs ys m m1 show ?thesis
      by (auto simp: deps_differ_def)
  next
    case False
    with processItems_frame(3) [OF i] it have "m = m1" by simp
    with False m1 show ?thesis by (auto simp: deps_differ_def)
  qed
  show "m \<longleftrightarrow> d' \<noteq> d"
  proof (cases m1)
    case True
    with m1 have "d' \<noteq> d" by auto
    with True processItems_frame(4) [OF i] show ?thesis by simp
  next
    case False
    with processRoot_frame(3) [OF r] have "d1 = d" by simp
    with False processItems_frame(5) [OF i] show ?thesis by simp
  qed
qed

lemma processFile_store:
  assumes "st p = Parsed d"
  shows "processFile fails p st =
     (case processData d of
        Inl e \<Rightarrow> (st, False, [Error_processing p e])
      | Inr (d2, m) \<Rightarrow>
          if m then
            (if fails (WriteFile p d2) then (st, False, [Error_processing p IOError])
             else (st(p := Parsed (reparse d2)), True, [WriteFile p d2]))
          else (st, False, []))"
  using assms by (simp add: processFile_def split: sum.splits prod.splits)


section \<open>Facts about the transformer: what a written file is read back as\<close>

lemma reparse_truthy: "truthy (Some (reparse v)) \<Longrightarrow> truthy (Some v)"
  by (cases v) auto

lemma reparse_isArray: "isArray (Some (reparse v)) \<longleftrightarrow> isArray (Some v)"
  by (cases v) auto

lemma rewriteDepUrl_Inr_str: "rewriteDepUrl x = Inr y \<Longrightarrow> \<exists>s. x = JStr s"
  by (cases x) auto

lemma mapE_rewriteDepUrl_strs:
  "mapE rewriteDepUrl xs = Inr ys \<Longrightarrow> map reparse xs = xs"
proof (induction xs arbitrary: ys)
  case Nil
  then show ?case by simp
next
  case (Cons x xs)
  then obtain y ys' where y: "rewriteDepUrl x = Inr y" and ys: "mapE rewriteDepUrl xs = Inr ys'"
    by (auto split: sum.splits)
  from rewriteDepUrl_Inr_str [OF y] Cons.IH [OF ys] show ?case by auto
qed

lemma transformDeps_fixed_reparse:
  assumes "truthy (Some v) \<longrightarrow> transformDeps (Some v) = Inr (Some v)"
  shows "truthy (Some (reparse v)) \<longrightarrow> transformDeps (Some (reparse v)) = Inr (Some (reparse v))"
proof
  assume t: "truthy (Some (reparse v))"
  then have tv: "truthy (Some v)" by (rule reparse_truthy)
  with assms have f: "transformDeps (Some v) = Inr (Some v)" by simp
  show "transformDeps (Some (reparse v)) = Inr (Some (reparse v))"
  proof (cases "isArray (Some v)")
    case True
    then obtain xs where xs: "v = JArr xs" by (auto simp: isArray_iff)
    with f have "mapE rewriteDepUrl xs = Inr xs"
      by (auto simp: transformDeps_array split: sum.splits)
    from mapE_rewriteDepUrl_strs [OF this] have "reparse v = v" by (simp add: xs)
    with f show ?thesis by simp
  next
    case False
    then have "\<not> isArray (Some (reparse v))" by (simp add: reparse_isArray)
    then show ?thesis by (simp add: transformDeps_def)
  qed
qed

lemma transformItem_stable_iff:
  "transformItem x = Inr (x, False) \<longleftrightarrow>
     (\<exists>deps. get ''registryDependencies'' (Some x) = Inr deps
        \<and> (truthy deps \<longrightarrow> transformDeps deps = Inr deps))"
proof
  assume "transformItem x = Inr (x, False)"
  then show "\<exists>deps. get ''registryDependencies'' (Some x) = Inr deps
        \<and> (truthy deps \<longrightarrow> transformDeps deps = Inr deps)"
    by (auto simp: transformItem_def split: sum.splits if_splits)
next
  assume "\<exists>deps. get ''registryDependencies'' (Some x) = Inr deps
        \<and> (truthy deps \<longrightarrow> transformDeps deps = Inr deps)"
  then show "transformItem x = Inr (x, False)"
    by (auto simp: transformItem_def)
qed

lemma fixed_opt_reparse:
  assumes "truthy deps \<longrightarrow> transformDeps deps = Inr deps"
  shows "truthy (map_option reparse deps) \<longrightarrow>
           transformDeps (map_option reparse deps) = Inr (map_option reparse deps)"
proof (cases deps)
  case None
  then show ?thesis by simp
next
  case (Some v)
  with assms transformDeps_fixed_reparse [of v] show ?thesis by simp
qed

lemma transformItem_reparse:
  assumes "transformItem x = Inr (x, False)"
  shows "(\<exists>e. transformItem (reparse x) = Inl e) \<or> transformItem (reparse x) = Inr (reparse x, False)"
proof (cases "\<exists>b. x = JInf b")
  case True
  then show ?thesis by (auto simp: transformItem_def)
next
  case False
  from assms obtain deps where d: "get ''registryDependencies'' (Some x) = Inr deps"
    and f: "truthy deps \<longrightarrow> transformDeps deps = Inr deps"
    by (auto simp: transformItem_stable_iff)
  from d False have "get ''registryDependencies'' (Some (reparse x)) = Inr (map_option reparse deps)"
    by (cases x) auto
  with fixed_opt_reparse [OF f] have "transformItem (reparse x) = Inr (reparse x, False)"
    by (auto simp: transformItem_stable_iff)
  then show ?thesis by simp
qed

lemma processRoot_reparse:
  assumes "processRoot d = Inr (d, False)"
  shows "(\<exists>e. processRoot (reparse d) = Inl e) \<or> processRoot (reparse d) = Inr (reparse d, False)"
proof (cases "\<exists>b. d = JInf b")
  case True
  then show ?thesis by (auto simp: processRoot_def)
next
  case False
  from assms obtain deps where d: "get ''registryDependencies'' (Some d) = Inr deps"
    and f: "truthy deps \<longrightarrow> transformDeps deps = Inr deps"
    by (auto simp: processRoot_stable_iff)
  from d False have "get ''registryDependencies'' (Some (reparse d)) = Inr (map_option reparse deps)"
    by (cases d) auto
  with fixed_opt_reparse [OF f] have "processRoot (reparse d) = Inr (reparse d, False)"
    by (auto simp: processRoot_stable_iff)
  then show ?thesis by simp
qed

lemma mapE_transformItem_reparse:
  assumes "\<And>x. x \<in> set xs \<Longrightarrow> transformItem x = Inr (x, False)"
  shows "(\<exists>e. mapE transformItem (map reparse xs) = Inl e)
       \<or> mapE transformItem (map reparse xs) = Inr (map (\<lambda>x. (reparse x, False)) xs)"
  using assms
proof (induction xs)
  case Nil
  then show ?case by simp
next
  case (Cons x xs)
  from Cons.prems have "transformItem x = Inr (x, False)" by simp
  from transformItem_reparse [OF this] Cons.IH Cons.prems show ?case
    by (auto split: sum.splits)
qed


lemma processData_stable:
  assumes "processData d = Inr (d, False)"
  shows "processRoot d = Inr (d, False)" and "processItems d False = Inr (d, False)"
proof -
  from assms obtain d1 m1 where r: "processRoot d = Inr (d1, m1)"
    and i: "processItems d1 m1 = Inr (d, False)"
    by (rule processData_parts)
  from processItems_frame(4) [OF i] have "\<not> m1" by auto
  with processRoot_frame(3) [OF r] have "d1 = d" by simp
  with r i \<open>\<not> m1\<close> show "processRoot d = Inr (d, False)" and "processItems d False = Inr (d, False)"
    by simp_all
qed

lemma processItems_stable_items:
  assumes "processItems d False = Inr (d, False)"
    and "get ''items'' (Some d) = Inr (Some (JArr xs))"
    and "x \<in> set xs"
  shows "transformItem x = Inr (x, False)"
proof -
  from processItems_cases [OF assms(1)] assms(2)
  obtain obj xs' rs where obj: "d = JObj obj" "fmlookup obj ''items'' = Some (JArr xs')"
    and rs: "mapE transformItem xs' = Inr rs"
    and d: "d = JObj (fmupd ''items'' (JArr (map fst rs)) obj)"
    and m: "False = (False \<or> list_ex snd rs)"
    by blast
  from assms(2) obj have xs': "xs' = xs" by simp
  from d obj have "fmlookup (fmupd ''items'' (JArr (map fst rs)) obj) ''items'' = Some (JArr xs)"
    using xs' by (metis json.inject(6))
  then have fst: "map fst rs = xs" by simp
  from assms(3) obtain i where i: "i < length xs" "xs ! i = x"
    by (auto simp: in_set_conv_nth)
  from mapE_nth [OF rs] xs' i have t: "transformItem x = Inr (rs ! i)" and len: "length rs = length xs"
    by auto
  from m len i have "\<not> snd (rs ! i)" by (auto simp: list_ex_length)
  moreover from fst i len have "fst (rs ! i) = x" by (metis nth_map)
  ultimately have "rs ! i = (x, False)" by (cases "rs ! i") simp
  with t show ?thesis by simp
qed

lemma processItems_reparse:
  assumes "processItems d False = Inr (d, False)"
  shows "(\<exists>e. processItems (reparse d) False = Inl e)
       \<or> processItems (reparse d) False = Inr (reparse d, False)"
proof (cases d)
  case (JObj obj)
  show ?thesis
  proof (cases "isArray (fmlookup obj ''items'')")
    case True
    then obtain xs where xs: "fmlookup obj ''items'' = Some (JArr xs)"
      by (auto simp: isArray_iff)
    with JObj have g: "get ''items'' (Some d) = Inr (Some (JArr xs))" by simp
    have "\<And>x. x \<in> set xs \<Longrightarrow> transformItem x = Inr (x, False)"
      using processItems_stable_items [OF assms g] .
    from mapE_transformItem_reparse [OF this]
    show ?thesis
    proof
      assume "\<exists>e. mapE transformItem (map reparse xs) = Inl e"
      with JObj xs show ?thesis by (auto simp: processItems_def)
    next
      assume "mapE transformItem (map reparse xs) = Inr (map (\<lambda>x. (reparse x, False)) xs)"
      moreover have "fmupd ''items'' (JArr (map reparse xs)) (fmmap reparse obj) = fmmap reparse obj"
        by (rule fmupd_same) (simp add: xs)
      moreover have "\<not> list_ex snd (map (\<lambda>x. (reparse x, False)) xs)"
        by (induction xs) simp_all
      ultimately have "processItems (reparse d) False = Inr (reparse d, False)"
        using JObj xs by (simp add: processItems_def with_prop_def comp_def)
      then show ?thesis by simp
    qed
  next
    case False
    then have "\<not> isArray (map_option reparse (fmlookup obj ''items''))"
      by (cases "fmlookup obj ''items''") (simp_all add: reparse_isArray)
    with JObj show ?thesis by (simp add: processItems_def)
  qed
qed (auto simp: processItems_def)

lemma processData_reparse:
  assumes "processData d = Inr (d, False)"
  shows "(\<exists>e. processData (reparse d) = Inl e) \<or> processData (reparse d) = Inr (reparse d, False)"
  using processRoot_reparse [OF processData_stable(1) [OF assms]]
    processItems_reparse [OF processData_stable(2) [OF assms]]
  by (auto simp: processData_def)

lemma settled_reparse:
  assumes "processData d = Inr (d', m)"
  shows "settled (Parsed (reparse d'))"
  using processData_reparse [OF processData_idem [OF assms]]
  by (auto simp: settled_def)

section \<open>Facts about the transformer: files and runs\<close>

lemma processFile_settled:
  "settled (st p) \<Longrightarrow> \<exists>es. processFile f p st = (st, False, es)"
  by (auto simp: settled_def processFile_def split: fcontent.splits sum.splits)

lemma processFile_other:
  "q \<noteq> p \<Longrightarrow> fst (processFile f p st) q = st q"
  by (auto simp: processFile_def split: fcontent.splits sum.splits option.splits)

lemma processFile_makes_settled:
  assumes "\<And>d. \<not> f (WriteFile p d)"
  shows "settled (fst (processFile f p st) p)"
proof (cases "st p")
  case (Parsed d)
  show ?thesis
  proof (cases "processData d")
    case (Inl e)
    with Parsed show ?thesis by (simp add: processFile_def settled_def)
  next
    case (Inr r)
    obtain d' m where r: "r = (d', m)" by (cases r)
    show ?thesis
    proof (cases m)
      case True
      from Inr r have "settled (Parsed (reparse d'))"
        using settled_reparse by simp
      with Parsed Inr r True assms show ?thesis
        by (simp add: processFile_def)
    next
      case False
      with Parsed Inr r show ?thesis by (simp add: processFile_def settled_def)
    qed
  qed
qed (simp_all add: processFile_def settled_def)

lemma processFile_keeps_settled:
  assumes "settled (st q)"
  shows "settled (fst (processFile f p st) q)"
proof (cases "q = p")
  case True
  with assms processFile_settled [of st p f] show ?thesis by auto
next
  case False
  with assms show ?thesis by (simp add: processFile_other)
qed

lemma processFiles_Cons_store:
  "fst (processFiles f (p # ps) st) = fst (processFiles f ps (fst (processFile f p st)))"
  by (cases "processFile f p st"; cases "processFiles f ps (fst (processFile f p st))") simp

lemma processFiles_keeps_settled:
  "settled (st q) \<Longrightarrow> settled (fst (processFiles f ps st) q)"
proof (induction ps arbitrary: st)
  case Nil
  then show ?case by simp
next
  case (Cons p ps)
  from Cons.prems have "settled (fst (processFile f p st) q)"
    by (rule processFile_keeps_settled)
  with Cons.IH [of "fst (processFile f p st)"] show ?case
    by (simp only: processFiles_Cons_store)
qed

lemma processFiles_settles:
  assumes "\<And>p d. \<not> f (WriteFile p d)"
  shows "p \<in> set ps \<Longrightarrow> settled (fst (processFiles f ps st) p)"
proof (induction ps arbitrary: st)
  case Nil
  then show ?case by simp
next
  case (Cons q ps)
  show ?case
  proof (cases "p = q")
    case True
    have "settled (fst (processFile f q st) q)"
      by (rule processFile_makes_settled) (rule assms)
    with processFiles_keeps_settled [of "fst (processFile f q st)" q f ps] True show ?thesis
      by (simp only: processFiles_Cons_store)
  next
    case False
    with Cons.prems have "p \<in> set ps" by simp
    with Cons.IH [of "fst (processFile f q st)"] show ?thesis
      by (simp only: processFiles_Cons_store)
  qed
qed

lemma processFiles_settled_noop:
  "(\<And>p. p \<in> set ps \<Longrightarrow> settled (st p)) \<Longrightarrow>
     \<exists>es. processFiles f ps st = (st, 0, es) \<and> (\<forall>e\<in>set es. \<exists>p x. e = Error_processing p x)"
proof (induction ps)
  case Nil
  then show ?case by simp
next
  case (Cons p ps)
  from Cons.prems have "settled (st p)" by simp
  then have "\<exists>es. processFile f p st = (st, False, es) \<and> (\<forall>e\<in>set es. \<exists>p x. e = Error_processing p x)"
    by (auto simp: settled_def processFile_def split: fcontent.splits sum.splits)
  moreover from Cons have "\<exists>es. processFiles f ps st = (st, 0, es) \<and> (\<forall>e\<in>set es. \<exists>p x. e = Error_processing p x)"
    by simp
  ultimately show ?case by auto
qed

lemma transformUrls_second_run:
  assumes ok: "\<And>p d. \<not> f (WriteFile p d)"
    and run: "transformUrls f root st = (st', es, Inr n)"
  shows "\<exists>es'. transformUrls f' root st' = (st', es', Inr 0)
           \<and> (\<forall>e\<in>set es'. \<exists>p x. e = Error_processing p x)"
proof -
  from run obtain entries files where root: "root = Some entries"
    and files: "findJsonFiles [OUTPUT_DIR] entries = Inr files"
    and st': "st' = fst (processFiles f files st)"
    by (auto simp: transformUrls_def split: option.splits sum.splits prod.splits)
  have "\<And>p. p \<in> set files \<Longrightarrow> settled (st' p)"
    unfolding st' by (rule processFiles_settles) (rule ok)
  from processFiles_settled_noop [of files st' f', OF this]
  obtain es' where "processFiles f' files st' = (st', 0, es')"
    "\<forall>e\<in>set es'. \<exists>p x. e = Error_processing p x" by blast
  with root files show ?thesis
    by (simp add: transformUrls_def)
qed

section \<open>Facts about the transformer: what a pass writes\<close>

lemma fmmap_fmupd: "fmmap f (fmupd k v m) = fmupd k (f v) (fmmap f m)"
  by (rule fmap_ext) simp

lemma reparse_obj_lookup:
  "reparse (JObj m) = JObj m \<Longrightarrow> fmlookup m k = Some v \<Longrightarrow> reparse v = v"
proof -
  assume a: "reparse (JObj m) = JObj m" and l: "fmlookup m k = Some v"
  then have "fmlookup (fmmap reparse m) k = fmlookup m k" by simp
  with l show ?thesis by simp
qed

lemma rewriteDepUrl_out_str: "rewriteDepUrl x = Inr y \<Longrightarrow> \<exists>s. y = JStr s"
  by (cases x) (auto split: if_splits)

lemma mapE_rewriteDepUrl_out:
  "mapE rewriteDepUrl xs = Inr ys \<Longrightarrow> map reparse ys = ys"
proof (induction xs arbitrary: ys)
  case Nil
  then show ?case by simp
next
  case (Cons x xs)
  then obtain y ys' where y: "rewriteDepUrl x = Inr y" and ys': "mapE rewriteDepUrl xs = Inr ys'"
    and ys: "ys = y # ys'"
    by (auto split: sum.splits)
  from rewriteDepUrl_out_str [OF y] Cons.IH [OF ys'] ys show ?case by auto
qed

lemma transformDeps_changed_reparse:
  assumes "transformDeps deps = Inr (Some t)" and "Some t \<noteq> deps"
  shows "reparse t = t"
proof -
  from transformDeps_Inr_cases [OF assms(1)] assms(2)
  obtain xs ys where "t = JArr ys" "mapE rewriteDepUrl xs = Inr ys" by auto
  with mapE_rewriteDepUrl_out show ?thesis by simp
qed

lemma transformItem_keeps_reparse:
  assumes "transformItem x = Inr (x', m)" and "reparse x = x"
  shows "reparse x' = x'"
proof (cases m)
  case False
  with transformItem_frame(2) [OF assms(1)] assms(2) show ?thesis by simp
next
  case True
  with assms(1) obtain deps t where
    d: "get ''registryDependencies'' (Some x) = Inr deps" "truthy deps"
    and t: "transformDeps deps = Inr t" "t \<noteq> deps"
    and x': "x' = JObj (with_prop ''registryDependencies'' t (own_props x))"
    by (auto simp: transformItem_def split: sum.splits if_splits)
  from truthy_get_obj [OF d] obtain mo where mo: "x = JObj mo" by blast
  from transformDeps_Some [OF t(1) d(2)] obtain tv where tv: "t = Some tv" by blast
  from t tv have "reparse tv = tv" using transformDeps_changed_reparse by blast
  moreover from assms(2) mo have "fmmap reparse mo = mo" by simp
  ultimately show ?thesis by (simp add: x' mo tv with_prop_def fmmap_fmupd)
qed

lemma processRoot_keeps_reparse:
  assumes "processRoot d = Inr (d1, m1)" and "reparse d = d"
  shows "reparse d1 = d1"
proof -
  from processRoot_cases [OF assms(1)] show ?thesis
  proof
    assume "d1 = d \<and> \<not> m1" with assms(2) show ?thesis by simp
  next
    assume "\<exists>obj deps t. d = JObj obj \<and> fmlookup obj ''registryDependencies'' = deps \<and> truthy deps
            \<and> transformDeps deps = Inr (Some t) \<and> Some t \<noteq> deps
            \<and> d1 = JObj (fmupd ''registryDependencies'' t obj) \<and> m1"
    then obtain obj deps t where obj: "d = JObj obj"
      and t: "transformDeps deps = Inr (Some t)" "Some t \<noteq> deps"
      and d1: "d1 = JObj (fmupd ''registryDependencies'' t obj)"
      by blast
    from t have "reparse t = t" by (rule transformDeps_changed_reparse)
    moreover from assms(2) obj have "fmmap reparse obj = obj" by simp
    ultimately show ?thesis by (simp add: d1 fmmap_fmupd)
  qed
qed

lemma processItems_keeps_reparse:
  assumes "processItems d1 b = Inr (d', m)" and "reparse d1 = d1"
  shows "reparse d' = d'"
proof -
  from processItems_cases [OF assms(1)] show ?thesis
  proof
    assume "d' = d1 \<and> m = b \<and> (\<forall>xs. get ''items'' (Some d1) \<noteq> Inr (Some (JArr xs)))"
    with assms(2) show ?thesis by simp
  next
    assume "\<exists>obj xs rs. d1 = JObj obj \<and> fmlookup obj ''items'' = Some (JArr xs)
            \<and> mapE transformItem xs = Inr rs
            \<and> d' = JObj (fmupd ''items'' (JArr (map fst rs)) obj)
            \<and> m = (b \<or> list_ex snd rs)"
    then obtain obj xs rs where obj: "d1 = JObj obj" "fmlookup obj ''items'' = Some (JArr xs)"
      and rs: "mapE transformItem xs = Inr rs"
      and d': "d' = JObj (fmupd ''items'' (JArr (map fst rs)) obj)"
      by blast
    from assms(2) obj have o: "fmmap reparse obj = obj" by simp
    from reparse_obj_lookup [OF assms(2) [unfolded obj(1)] obj(2)]
    have xs: "map reparse xs = xs" by simp
    from mapE_nth [OF rs] have len: "length rs = length xs"
      and el: "\<And>i. i < length xs \<Longrightarrow> transformItem (xs ! i) = Inr (fst (rs ! i), snd (rs ! i))"
      by auto
    have "reparse (fst (rs ! i)) = fst (rs ! i)" if "i < length xs" for i
    proof -
      from xs that have "reparse (xs ! i) = xs ! i" by (metis nth_map)
      with el [OF that] show ?thesis by (rule transformItem_keeps_reparse)
    qed
    with len have "map reparse (map fst rs) = map fst rs"
      by (auto simp: list_eq_iff_nth_eq)
    with o show ?thesis by (simp add: d' fmmap_fmupd del: map_map)
  qed
qed

lemma processData_keeps_reparse:
  assumes "processData d = Inr (d2, m)" and "reparse d = d"
  shows "reparse d2 = d2"
proof -
  from assms(1) obtain d1 m1 where r: "processRoot d = Inr (d1, m1)"
    and i: "processItems d1 m1 = Inr (d2, m)"
    by (rule processData_parts)
  from processRoot_keeps_reparse [OF r assms(2)] have "reparse d1 = d1" .
  with i show ?thesis by (rule processItems_keeps_reparse)
qed

lemma transformItem_rewrites:
  assumes "transformItem x = Inr (x', m)"
  shows "\<exists>deps. get ''registryDependencies'' (Some x) = Inr deps
     \<and> (if truthy deps then transformDeps deps = get ''registryDependencies'' (Some x')
         else get ''registryDependencies'' (Some x') = Inr deps)"
proof -
  from assms obtain deps where d: "get ''registryDependencies'' (Some x) = Inr deps"
    by (auto simp: transformItem_def split: sum.splits)
  show ?thesis
  proof (cases "truthy deps")
    case False
    with assms d have "x' = x" by (simp add: transformItem_def)
    with d False show ?thesis by simp
  next
    case True
    with assms d obtain t where t: "transformDeps deps = Inr t"
      by (auto simp: transformItem_def split: sum.splits)
    from transformDeps_Some [OF t True] obtain tv where tv: "t = Some tv" by blast
    from truthy_get_obj [OF d True] obtain mo where mo: "x = JObj mo" by blast
    from assms d True t tv mo have "get ''registryDependencies'' (Some x') = Inr t"
      by (auto simp: transformItem_def with_prop_def split: if_splits)
    with d True t show ?thesis by simp
  qed
qed

lemma processRoot_rewrites:
  assumes "processRoot d = Inr (d1, m1)"
  shows "\<exists>deps. get ''registryDependencies'' (Some d) = Inr deps
     \<and> (if truthy deps then transformDeps deps = get ''registryDependencies'' (Some d1)
         else get ''registryDependencies'' (Some d1) = Inr deps)"
proof -
  from assms obtain deps where d: "get ''registryDependencies'' (Some d) = Inr deps"
    by (auto simp: processRoot_def split: sum.splits)
  show ?thesis
  proof (cases "truthy deps")
    case False
    with assms d have "d1 = d" by (simp add: processRoot_def)
    with d False show ?thesis by simp
  next
    case True
    with assms d obtain t where t: "transformDeps deps = Inr t"
      by (auto simp: processRoot_def split: sum.splits)
    from transformDeps_Some [OF t True] obtain tv where tv: "t = Some tv" by blast
    from truthy_get_obj [OF d True] obtain mo where mo: "d = JObj mo" by blast
    from assms d True t tv mo have "get ''registryDependencies'' (Some d1) = Inr t"
      by (auto simp: processRoot_def with_prop_def split: if_splits)
    with d True t show ?thesis by simp
  qed
qed

lemma processItems_rewrites:
  assumes "processItems d1 b = Inr (d', m)"
    and "get ''items'' (Some d1) = Inr (Some (JArr xs))"
    and "get ''items'' (Some d') = Inr (Some (JArr ys))"
    and "i < length xs"
  shows "\<exists>deps. get ''registryDependencies'' (Some (xs ! i)) = Inr deps
     \<and> (if truthy deps then transformDeps deps = get ''registryDependencies'' (Some (ys ! i))
         else get ''registryDependencies'' (Some (ys ! i)) = Inr deps)"
proof -
  from assms(2) have "\<not> (\<forall>xs. get ''items'' (Some d1) \<noteq> Inr (Some (JArr xs)))" by simp
  with processItems_cases [OF assms(1)]
  obtain obj xs' rs where obj: "d1 = JObj obj" "fmlookup obj ''items'' = Some (JArr xs')"
    and rs: "mapE transformItem xs' = Inr rs"
    and d': "d' = JObj (fmupd ''items'' (JArr (map fst rs)) obj)"
    by blast
  from assms(2) obj have xs: "xs' = xs" by simp
  from assms(3) d' have ys: "ys = map fst rs" by simp
  from mapE_nth [OF rs] xs assms(4) have "transformItem (xs ! i) = Inr (fst (rs ! i), snd (rs ! i))"
    and "length rs = length xs"
    by auto
  with ys assms(4) have "transformItem (xs ! i) = Inr (ys ! i, snd (rs ! i))" by simp
  then show ?thesis by (rule transformItem_rewrites)
qed


section \<open>The examples, evaluated\<close>

lemma ex_reparse: "reparse ex_item_done = ex_item_done" "reparse ex_index_done = ex_index_done"
  by code_simp+

lemma ex_item_run: "processData ex_item = Inr (ex_item_done, True)"
  by code_simp

lemma ex_index_run: "processData ex_index = Inr (ex_index_done, True)"
  by code_simp

lemma ex_files: "findJsonFiles [OUTPUT_DIR] ex_tree = Inr [[''public/r'', ''coderabbit-form.json''], [''public/r'', ''convex'', ''registry.json'']]"
  by code_simp

lemma ex_run: "transformUrls (\<lambda>e. False) (Some ex_tree) ex_store
   = (ex_store([''public/r'', ''coderabbit-form.json''] := Parsed ex_item_done),
      [WriteFile [''public/r'', ''coderabbit-form.json''] ex_item_done,
       Transformed [''public/r'', ''coderabbit-form.json''],
       Error_processing [''public/r'', ''convex'', ''registry.json''] SyntaxError],
      Inr 1)"
  by (simp add: transformUrls_def ex_files processFile_def ex_store_def ex_item_run ex_reparse)

lemma ex_file_run:
  "processFile (\<lambda>e. False) [''public/r'', ''registry.json''] ex_store2
     = (ex_store2([''public/r'', ''registry.json''] := Parsed ex_index_done), True,
        [WriteFile [''public/r'', ''registry.json''] ex_index_done])"
  by (simp add: processFile_def ex_store2_def ex_index_run ex_reparse)

lemma ex_index_reparse: "reparse ex_index = ex_index"
  by code_simp

lemma ex_big_run: "processData ex_big = Inr (ex_big_done, True)"
  by code_simp

lemma ex_big_reparse: "reparse ex_big_done = ex_big_read_back"
  by code_simp

lemma ex_big_file_run:
  "processFile (\<lambda>e. False) [''public/r'', ''big.json''] ex_store3
     = (ex_store3([''public/r'', ''big.json''] := Parsed ex_big_read_back), True,
        [WriteFile [''public/r'', ''big.json''] ex_big_done])"
  by (simp add: processFile_def ex_store3_def ex_big_run ex_big_reparse)


section \<open>The Post-Build URL Transformer's contract\<close>

text \<open>
  Claim C3. The transformation of a document is idempotent: applied to the document a
  previous application has produced, it returns that document and \<^verbatim>\<open>modified\<close> is
  \<^verbatim>\<open>false\<close>. Hence, after a run whose writes have all succeeded, a second run over the
  same tree leaves every file as it is and counts zero transformed files (it writes
  nothing and prints at most the errors of the files it cannot process).
\<close>

theorem transformer_idempotent:
  "(processData d = Inr (d', m) \<longrightarrow> processData d' = Inr (d', False))
   \<and> ((\<forall>p x. \<not> fails (WriteFile p x)) \<and> transformUrls fails root st = (st', es, Inr n) \<longrightarrow>
        (\<exists>es'. transformUrls fails' root st' = (st', es', Inr 0)
           \<and> (\<forall>e\<in>set es'. \<exists>p x. e = Error_processing p x)))"
proof (intro conjI impI)
  assume "processData d = Inr (d', m)"
  then show "processData d' = Inr (d', False)" by (rule processData_idem)
next
  assume a: "(\<forall>p x. \<not> fails (WriteFile p x)) \<and> transformUrls fails root st = (st', es, Inr n)"
  then have "\<And>p x. \<not> fails (WriteFile p x)" by simp
  moreover from a have "transformUrls fails root st = (st', es, Inr n)" by simp
  ultimately show "\<exists>es'. transformUrls fails' root st' = (st', es', Inr 0)
           \<and> (\<forall>e\<in>set es'. \<exists>p x. e = Error_processing p x)"
    by (rule transformUrls_second_run)
qed

theorem transformer_idempotent_witness:
  "processData ex_item = Inr (ex_item_done, True)
   \<and> processData ex_item_done = Inr (ex_item_done, False)
   \<and> transformUrls (\<lambda>e. False) (Some ex_tree) ex_store
       = (ex_store([''public/r'', ''coderabbit-form.json''] := Parsed ex_item_done),
          [WriteFile [''public/r'', ''coderabbit-form.json''] ex_item_done,
           Transformed [''public/r'', ''coderabbit-form.json''],
           Error_processing [''public/r'', ''convex'', ''registry.json''] SyntaxError],
          Inr 1)
   \<and> (\<exists>es'. transformUrls (\<lambda>e. True) (Some ex_tree)
               (ex_store([''public/r'', ''coderabbit-form.json''] := Parsed ex_item_done))
          = (ex_store([''public/r'', ''coderabbit-form.json''] := Parsed ex_item_done), es', Inr 0))"
proof -
  note t = transformer_idempotent
    [of ex_item ex_item_done True "\<lambda>e. False" "Some ex_tree" ex_store
        "ex_store([''public/r'', ''coderabbit-form.json''] := Parsed ex_item_done)"
        "[WriteFile [''public/r'', ''coderabbit-form.json''] ex_item_done,
          Transformed [''public/r'', ''coderabbit-form.json''],
          Error_processing [''public/r'', ''convex'', ''registry.json''] SyntaxError]"
        1 "\<lambda>e. True"]
  from t ex_item_run have "processData ex_item_done = Inr (ex_item_done, False)" by blast
  moreover from t ex_run have "\<exists>es'. transformUrls (\<lambda>e. True) (Some ex_tree)
               (ex_store([''public/r'', ''coderabbit-form.json''] := Parsed ex_item_done))
          = (ex_store([''public/r'', ''coderabbit-form.json''] := Parsed ex_item_done), es', Inr 0)"
    by auto
  ultimately show ?thesis using ex_item_run ex_run by simp
qed

text \<open>
  Claim C7, as amended. For a file that holds a document \<open>d\<close>, \<^verbatim>\<open>processFile\<close> leaves every
  other file as it is. When the transformation raises, nothing is written. When it
  returns the document \<open>d2\<close>:

    \<^item> every property of \<open>d2\<close> but \<^verbatim>\<open>registryDependencies\<close> and \<^verbatim>\<open>items\<close> is the one of \<open>d\<close>;
    \<^item> the \<^verbatim>\<open>registryDependencies\<close> of \<open>d2\<close> is what the rewriter returns on the one of \<open>d\<close>
      when that is truthy, and the one of \<open>d\<close> otherwise;
    \<^item> an \<^verbatim>\<open>items\<close> array keeps its length, every element keeps every property but
      \<^verbatim>\<open>registryDependencies\<close>, and that one is rewritten in the same way; an \<^verbatim>\<open>items\<close>
      that is not an array is kept;
    \<^item> \<^verbatim>\<open>modified\<close> is set exactly when a \<^verbatim>\<open>registryDependencies\<close> value of \<open>d2\<close> differs from
      the one of \<open>d\<close>, which is exactly when \<open>d2\<close> differs from \<open>d\<close>;
    \<^item> the file is written (\<^verbatim>\<open>processFile\<close> returns \<^verbatim>\<open>true\<close>) exactly when such a value
      differs and the write does not fail; the text written is \<^verbatim>\<open>JSON.stringify\<close> of \<open>d2\<close>,
      so the file then parses back to \<open>reparse d2\<close>; otherwise the file is not touched;
    \<^item> when \<open>d\<close> holds no number that overflowed on parsing, neither does \<open>d2\<close>, and the
      file parses back to \<open>d2\<close> itself.
\<close>

theorem processFile_frame:
  assumes "st p = Parsed d" and "processFile fails p st = (st', written, es)"
  shows "(\<forall>q. q \<noteq> p \<longrightarrow> st' q = st q)
   \<and> (\<forall>e. processData d = Inl e \<longrightarrow> st' = st \<and> \<not> written)
   \<and> (\<forall>d2 m. processData d = Inr (d2, m) \<longrightarrow>
        (\<forall>k. k \<noteq> ''registryDependencies'' \<and> k \<noteq> ''items'' \<longrightarrow>
            get k (Some d2) = get k (Some d))
      \<and> (\<exists>deps. get ''registryDependencies'' (Some d) = Inr deps
            \<and> (if truthy deps
                then transformDeps deps = get ''registryDependencies'' (Some d2)
                else get ''registryDependencies'' (Some d2) = Inr deps))
      \<and> (\<forall>xs. get ''items'' (Some d) = Inr (Some (JArr xs)) \<longrightarrow>
            (\<exists>ys. get ''items'' (Some d2) = Inr (Some (JArr ys)) \<and> length ys = length xs
              \<and> (\<forall>i<length xs.
                    (\<forall>k. k \<noteq> ''registryDependencies'' \<longrightarrow>
                        get k (Some (ys ! i)) = get k (Some (xs ! i)))
                  \<and> (\<exists>deps. get ''registryDependencies'' (Some (xs ! i)) = Inr deps
                        \<and> (if truthy deps
                            then transformDeps deps
                                   = get ''registryDependencies'' (Some (ys ! i))
                            else get ''registryDependencies'' (Some (ys ! i)) = Inr deps)))))
      \<and> ((\<forall>xs. get ''items'' (Some d) \<noteq> Inr (Some (JArr xs))) \<longrightarrow>
            get ''items'' (Some d2) = get ''items'' (Some d))
      \<and> (m \<longleftrightarrow> deps_differ d d2)
      \<and> (m \<longleftrightarrow> d2 \<noteq> d)
      \<and> (written \<longleftrightarrow> deps_differ d d2 \<and> \<not> fails (WriteFile p d2))
      \<and> (written \<longrightarrow> st' = st(p := Parsed (reparse d2)) \<and> es = [WriteFile p d2])
      \<and> (\<not> written \<longrightarrow> st' = st \<and> (\<forall>q x. WriteFile q x \<notin> set es))
      \<and> (reparse d = d \<longrightarrow> reparse d2 = d2))"
proof (intro conjI allI impI)
  fix q assume "q \<noteq> p"
  with assms(2) processFile_other [of q p fails st] show "st' q = st q" by simp
next
  fix e assume "processData d = Inl e"
  with assms show "st' = st" and "\<not> written" by (simp_all add: processFile_store)
next
  fix d2 m assume pd: "processData d = Inr (d2, m)"
  note f = processData_frame [OF pd]
  from pd obtain d1 m1 where r: "processRoot d = Inr (d1, m1)"
    and i: "processItems d1 m1 = Inr (d2, m)"
    by (rule processData_parts)
  have it: "get ''items'' (Some d1) = get ''items'' (Some d)"
    using processRoot_frame(1) [OF r, of "''items''"] by simp
  have rd: "get ''registryDependencies'' (Some d2) = get ''registryDependencies'' (Some d1)"
    using processItems_frame(1) [OF i, of "''registryDependencies''"] by simp
  from assms pd have w: "written \<longleftrightarrow> m \<and> \<not> fails (WriteFile p d2)"
    and w1: "written \<longrightarrow> st' = st(p := Parsed (reparse d2)) \<and> es = [WriteFile p d2]"
    and w0: "\<not> written \<longrightarrow> st' = st \<and> (\<forall>q x. WriteFile q x \<notin> set es)"
    by (auto simp: processFile_store split: if_splits)
  {
    fix k assume "k \<noteq> ''registryDependencies'' \<and> k \<noteq> ''items''"
    then show "get k (Some d2) = get k (Some d)" using f(1) by simp
  next
    show "\<exists>deps. get ''registryDependencies'' (Some d) = Inr deps
            \<and> (if truthy deps
                then transformDeps deps = get ''registryDependencies'' (Some d2)
                else get ''registryDependencies'' (Some d2) = Inr deps)"
      using processRoot_rewrites [OF r] unfolding rd .
  next
    fix xs assume xs: "get ''items'' (Some d) = Inr (Some (JArr xs))"
    from f(2) [OF xs] obtain ys where ys: "get ''items'' (Some d2) = Inr (Some (JArr ys))"
      and len: "length ys = length xs"
      and fr: "\<forall>i<length xs. \<forall>k. k \<noteq> ''registryDependencies'' \<longrightarrow>
                   get k (Some (ys ! i)) = get k (Some (xs ! i))"
      by blast
    have rw: "\<exists>deps. get ''registryDependencies'' (Some (xs ! j)) = Inr deps
                        \<and> (if truthy deps
                            then transformDeps deps
                                   = get ''registryDependencies'' (Some (ys ! j))
                            else get ''registryDependencies'' (Some (ys ! j)) = Inr deps)"
      if "j < length xs" for j
      using processItems_rewrites [OF i _ ys that] xs it by simp
    from ys len fr rw
    show "\<exists>ys. get ''items'' (Some d2) = Inr (Some (JArr ys)) \<and> length ys = length xs
              \<and> (\<forall>i<length xs.
                    (\<forall>k. k \<noteq> ''registryDependencies'' \<longrightarrow>
                        get k (Some (ys ! i)) = get k (Some (xs ! i)))
                  \<and> (\<exists>deps. get ''registryDependencies'' (Some (xs ! i)) = Inr deps
                        \<and> (if truthy deps
                            then transformDeps deps
                                   = get ''registryDependencies'' (Some (ys ! i))
                            else get ''registryDependencies'' (Some (ys ! i)) = Inr deps)))"
      by blast
  next
    assume "\<forall>xs. get ''items'' (Some d) \<noteq> Inr (Some (JArr xs))"
    then show "get ''items'' (Some d2) = get ''items'' (Some d)" by (rule f(3))
  next
    show "m \<longleftrightarrow> deps_differ d d2" by (rule f(4))
  next
    show "m \<longleftrightarrow> d2 \<noteq> d" by (rule f(5))
  next
    show "written \<longleftrightarrow> deps_differ d d2 \<and> \<not> fails (WriteFile p d2)"
      using w f(4) by simp
  next
    assume written
    with w1 show "st' = st(p := Parsed (reparse d2))" and "es = [WriteFile p d2]" by simp_all
  next
    assume "\<not> written"
    with w0 show "st' = st" by simp
  next
    fix q x assume "\<not> written"
    with w0 show "WriteFile q x \<notin> set es" by simp
  next
    assume "reparse d = d"
    with pd show "reparse d2 = d2" by (rule processData_keeps_reparse)
  }
qed

theorem processFile_frame_witness:
  "processFile (\<lambda>e. False) [''public/r'', ''registry.json''] ex_store2
     = (ex_store2([''public/r'', ''registry.json''] := Parsed ex_index_done), True,
        [WriteFile [''public/r'', ''registry.json''] ex_index_done])
   \<and> processData ex_index = Inr (ex_index_done, True)
   \<and> deps_differ ex_index ex_index_done
   \<and> ex_index_done \<noteq> ex_index
   \<and> get ''name'' (Some ex_index_done) = get ''name'' (Some ex_index)
   \<and> (\<exists>ys. get ''items'' (Some ex_index_done) = Inr (Some (JArr ys)) \<and> length ys = 2
         \<and> get ''name'' (Some (ys ! 0)) = get ''name'' (Some ex_item)
         \<and> transformDeps (Some (JArr [JStr ''button'', JStr ''coderabbit-types'']))
             = get ''registryDependencies'' (Some (ys ! 0)))
   \<and> reparse ex_index_done = ex_index_done"
proof -
  have s: "ex_store2 [''public/r'', ''registry.json''] = Parsed ex_index"
    by (simp add: ex_store2_def)
  note t = processFile_frame [OF s ex_file_run, THEN conjunct2, THEN conjunct2, rule_format,
      OF ex_index_run]
  note t1 = t [THEN conjunct1, rule_format]
  note t3 = t [THEN conjunct2, THEN conjunct2, THEN conjunct1, rule_format]
  note t5 = t [THEN conjunct2, THEN conjunct2, THEN conjunct2, THEN conjunct2]
  note t6 = t5 [THEN conjunct2]
  note t10 = t6 [THEN conjunct2, THEN conjunct2, THEN conjunct2, THEN conjunct2]
  have other: "get ''name'' (Some ex_index_done) = get ''name'' (Some ex_index)"
    by (rule t1) simp
  have its: "get ''items'' (Some ex_index)
      = Inr (Some (JArr [ex_item, JObj (fmap_of_list [(''name'', JStr ''plain'')])]))"
    by (simp add: ex_index_def)
  from t3 [OF its] obtain ys where ys: "get ''items'' (Some ex_index_done) = Inr (Some (JArr ys))"
    and len: "length ys = length [ex_item, JObj (fmap_of_list [(''name'', JStr ''plain'')])]"
    and el: "\<forall>i<length [ex_item, JObj (fmap_of_list [(''name'', JStr ''plain'')])].
         (\<forall>k. k \<noteq> ''registryDependencies'' \<longrightarrow> get k (Some (ys ! i))
             = get k (Some ([ex_item, JObj (fmap_of_list [(''name'', JStr ''plain'')])] ! i)))
       \<and> (\<exists>deps. get ''registryDependencies''
                    (Some ([ex_item, JObj (fmap_of_list [(''name'', JStr ''plain'')])] ! i)) = Inr deps
             \<and> (if truthy deps
                 then transformDeps deps = get ''registryDependencies'' (Some (ys ! i))
                 else get ''registryDependencies'' (Some (ys ! i)) = Inr deps))"
    by blast
  have len2: "length ys = 2" using len by simp
  have z: "0 < length [ex_item, JObj (fmap_of_list [(''name'', JStr ''plain'')])]" by simp
  from el [THEN spec, of 0, THEN mp, OF z, unfolded nth_Cons_0] have el0: "(\<forall>k. k \<noteq> ''registryDependencies'' \<longrightarrow> get k (Some (ys ! 0))
             = get k (Some ex_item))
       \<and> (\<exists>deps. get ''registryDependencies'' (Some ex_item) = Inr deps
             \<and> (if truthy deps
                 then transformDeps deps = get ''registryDependencies'' (Some (ys ! 0))
                 else get ''registryDependencies'' (Some (ys ! 0)) = Inr deps))"
    .
  from el0 have n0: "get ''name'' (Some (ys ! 0)) = get ''name'' (Some ex_item)"
    by (simp del: get.simps)
  have rd: "get ''registryDependencies'' (Some ex_item)
      = Inr (Some (JArr [JStr ''button'', JStr ''coderabbit-types'']))"
    by (simp add: ex_item_def)
  from el0 obtain deps where "get ''registryDependencies'' (Some ex_item) = Inr deps"
    and i: "if truthy deps
                 then transformDeps deps = get ''registryDependencies'' (Some (ys ! 0))
                 else get ''registryDependencies'' (Some (ys ! 0)) = Inr deps"
    by blast
  with rd have deps: "deps = Some (JArr [JStr ''button'', JStr ''coderabbit-types''])"
    by (simp del: get.simps)
  have "truthy (Some (JArr [JStr ''button'', JStr ''coderabbit-types'']))" by simp
  with i deps
  have r0: "transformDeps (Some (JArr [JStr ''button'', JStr ''coderabbit-types'']))
             = get ''registryDependencies'' (Some (ys ! 0))"
    by (simp only: if_True)
  from t5 [THEN conjunct1] have dd: "deps_differ ex_index ex_index_done" by simp
  from t6 [THEN conjunct1] have ne: "ex_index_done \<noteq> ex_index" by simp
  from t10 ex_index_reparse have rp: "reparse ex_index_done = ex_index_done" by (simp only:)
  from ys len2 n0 r0
  have ex: "\<exists>ys. get ''items'' (Some ex_index_done) = Inr (Some (JArr ys)) \<and> length ys = 2
         \<and> get ''name'' (Some (ys ! 0)) = get ''name'' (Some ex_item)
         \<and> transformDeps (Some (JArr [JStr ''button'', JStr ''coderabbit-types'']))
             = get ''registryDependencies'' (Some (ys ! 0))"
    by blast
  show ?thesis
    by (intro conjI ex_file_run ex_index_run dd ne other ex rp)
qed

text \<open>
  Claim C7 as it is written fails on the file: a property the transformer never
  assigns can differ after the write. A number literal too large for a double is parsed
  as \<^verbatim>\<open>Infinity\<close>, and \<^verbatim>\<open>JSON.stringify\<close> prints \<^verbatim>\<open>Infinity\<close> as \<^verbatim>\<open>null\<close>: once a dependency
  of the document is rewritten, the file is written back with \<^verbatim>\<open>size\<close> set to \<^verbatim>\<open>null\<close>.
\<close>

theorem processFile_frame_counterexample:
  "processFile (\<lambda>e. False) [''public/r'', ''big.json''] ex_store3
     = (ex_store3([''public/r'', ''big.json''] := Parsed ex_big_read_back), True,
        [WriteFile [''public/r'', ''big.json''] ex_big_done])
   \<and> ex_store3 [''public/r'', ''big.json''] = Parsed ex_big
   \<and> get ''size'' (Some ex_big) = Inr (Some (JInf False))
   \<and> get ''size'' (Some ex_big_read_back) = Inr (Some JNull)
   \<and> get ''size'' (Some ex_big_read_back) \<noteq> get ''size'' (Some ex_big)"
  by (simp add: ex_big_file_run) (simp add: ex_store3_def ex_big_def ex_big_read_back_def)

text \<open>
  Claim C8, as amended. An error on one file (the read fails, the text does not parse,
  the rewriting raises, or the write fails) is caught in \<^verbatim>\<open>processFile\<close>: the path and
  the error are printed, the file is left as it is and not counted, and the loop goes on
  with the files that remain. Listing the directories is outside every \<^verbatim>\<open>try\<close>: when
  the output directory or a directory under it (none named \<^verbatim>\<open>registry\<close>) cannot be
  listed, the exception ends the run before any file is processed; once the listing has
  succeeded, the run ends with a count.
\<close>

theorem file_error_is_local:
  assumes "(st p = Unreadable \<and> e = IOError) \<or> (st p = Malformed \<and> e = SyntaxError)
     \<or> (\<exists>d. st p = Parsed d \<and> processData d = Inl e)
     \<or> (\<exists>d d'. st p = Parsed d \<and> processData d = Inr (d', True) \<and> fails (WriteFile p d')
           \<and> e = IOError)"
  shows "processFile fails p st = (st, False, [Error_processing p e])
     \<and> processFiles fails (p # ps) st =
         (case processFiles fails ps st of
            (st', n, es) \<Rightarrow> (st', n, Error_processing p e # es))
     \<and> transformUrls fails None st = (st, [], Inl IOError)
     \<and> (\<forall>entries x. findJsonFiles [OUTPUT_DIR] entries = Inl x \<longrightarrow>
           transformUrls fails (Some entries) st = (st, [], Inl x))
     \<and> (\<forall>entries files. findJsonFiles [OUTPUT_DIR] entries = Inr files \<longrightarrow>
           transformUrls fails (Some entries) st =
             (case processFiles fails files st of (st', n, es) \<Rightarrow> (st', es, Inr n)))"
proof -
  from assms have f: "processFile fails p st = (st, False, [Error_processing p e])"
    by (auto simp: processFile_def)
  then have "processFiles fails (p # ps) st =
         (case processFiles fails ps st of
            (st', n, es) \<Rightarrow> (st', n, Error_processing p e # es))"
    by (simp split: prod.splits)
  with f show ?thesis
    by (simp add: transformUrls_def)
qed

theorem file_error_is_local_witness:
  "processFiles (\<lambda>e. False)
      [[''public/r'', ''convex'', ''registry.json''], [''public/r'', ''coderabbit-form.json'']]
      ex_store
     = (ex_store([''public/r'', ''coderabbit-form.json''] := Parsed ex_item_done), 1,
        [Error_processing [''public/r'', ''convex'', ''registry.json''] SyntaxError,
         WriteFile [''public/r'', ''coderabbit-form.json''] ex_item_done,
         Transformed [''public/r'', ''coderabbit-form.json'']])"
  using file_error_is_local
    [where st = ex_store and p = "[''public/r'', ''convex'', ''registry.json'']"
       and e = SyntaxError and fails = "\<lambda>e. False"
       and ps = "[[''public/r'', ''coderabbit-form.json'']]"]
  by (simp add: processFile_def ex_store_def ex_item_run ex_reparse)

text \<open>
  Claim C8 as it is written fails on the enumeration: one directory that cannot be
  listed, or a missing output directory, ends the whole run with the exception, and the
  file that could have been rewritten is not touched.
\<close>

theorem enumeration_error_counterexample:
  "transformUrls (\<lambda>e. False)
      (Some [FileEnt ''coderabbit-form.json'', BadDirEnt ''convex'']) ex_store
     = (ex_store, [], Inl IOError)
   \<and> transformUrls (\<lambda>e. False) None ex_store = (ex_store, [], Inl IOError)"
  by (simp add: transformUrls_def endsWith_def)

section \<open>Facts about the Flat Registry Builder\<close>

lemma transformRegistryDependencies_flat_eq: "transformRegistryDependencies_flat = transformDeps"
  by (rule ext) (simp only: transformRegistryDependencies_flat_def transformDeps_def rewriteDepUrl_fun_eq)

lemma transformRegistryDependencies_flat_Some:
  "transformRegistryDependencies_flat v = Inr t \<Longrightarrow> truthy v \<Longrightarrow> \<exists>x. t = Some x"
  unfolding transformRegistryDependencies_flat_eq by (rule transformDeps_Some)

lemma withoutContent_Inr:
  "withoutContent f = Inr g \<Longrightarrow> g = JObj (fmdrop ''content'' (own_props f))"
  by (cases f) auto

lemma io_bind_return: "io_bind (io_return x) f = f x"
  by (simp add: io_bind_def io_return_def split: prod.splits)

lemma io_bind_lift_Inr: "io_bind (lift (Inr x)) f = f x"
  by (simp add: io_bind_def lift_def split: prod.splits)

lemma io_bind_lift_Inl: "io_bind (lift (Inl e)) f = ([], Inl (Throw e))"
  by (simp add: io_bind_def lift_def)

lemma io_bind_emit:
  "io_bind (emit e) f = (case f () of (es, r) \<Rightarrow> (e # es, r))"
  by (simp add: io_bind_def emit_def)

lemma io_bind_perform:
  "io_bind (perform fails e) f =
     (if fails e then ([], Inl (Throw IOError)) else (case f () of (es, r) \<Rightarrow> (e # es, r)))"
  by (simp add: io_bind_def perform_def)

lemma io_bind_Inr:
  "io_bind m f = (es, Inr x) \<longleftrightarrow>
     (\<exists>es1 y es2. m = (es1, Inr y) \<and> f y = (es2, Inr x) \<and> es = es1 @ es2)"
  by (cases m; cases "snd m") (auto simp: io_bind_def split: prod.splits)

lemma no_exit_basic [simp]:
  "no_exit (io_return x)" "no_exit (lift r)" "no_exit (emit e)" "no_exit (perform fails e)"
  by (auto simp: no_exit_def io_return_def lift_def emit_def perform_def split: sum.splits)

lemma no_exit_bind:
  assumes "no_exit m" and "\<And>x. no_exit (f x)"
  shows "no_exit (io_bind m f)"
proof (cases m)
  case (Pair es r)
  show ?thesis
  proof (cases r)
    case (Inl s)
    with Pair assms(1) show ?thesis by (simp add: no_exit_def io_bind_def)
  next
    case (Inr y)
    obtain es' r' where f: "f y = (es', r')" by (cases "f y")
    with assms(2) [of y] have "\<forall>n. r' \<noteq> Inl (Exit n)" by (simp add: no_exit_def)
    with Pair Inr f show ?thesis by (simp add: no_exit_def io_bind_def)
  qed
qed

lemma no_exit_copySourceFile: "no_exit (copySourceFile ex fl file)"
  unfolding copySourceFile_def
  by (intro no_exit_bind no_exit_basic) (auto split: option.splits json.splits)

lemma no_exit_copyEach: "no_exit (copyEach ex fl files)"
  by (induction files) (auto intro!: no_exit_bind no_exit_copySourceFile)

lemma no_exit_copySourceFiles: "no_exit (copySourceFiles ex fl item)"
  unfolding copySourceFiles_def
  by (intro no_exit_bind no_exit_basic)
     (auto simp: no_exit_copyEach split: option.splits json.splits)

lemma no_exit_buildItem: "no_exit (buildItem ex fl item)"
  unfolding buildItem_def
  by (intro no_exit_bind no_exit_basic)
     (auto intro!: no_exit_bind no_exit_copySourceFiles)

lemma no_exit_buildItems: "no_exit (buildItems ex fl items)"
  by (induction items) (auto intro!: no_exit_bind no_exit_buildItem)

lemma buildFlatRegistry_items:
  assumes "get ''items'' (Some registry) = Inr (Some (JArr its))"
  shows "buildFlatRegistry (Parsed registry) ex fl =
     io_bind (perform fl (EnsureDir [OUTPUT_DIR])) (\<lambda>_.
     io_bind (buildItems ex fl its) (\<lambda>_.
     io_bind (lift (mapE indexItem its)) (\<lambda>transformed.
       perform fl (WriteFile [OUTPUT_DIR, ''registry.json''] (index_doc registry transformed)))))"
  using assms by (simp add: buildFlatRegistry_def index_doc_def io_bind_lift_Inr)

lemma buildFlatRegistry_exit:
  "snd (buildFlatRegistry rf ex fl) = Inl (Exit n) \<Longrightarrow> n = 1"
proof (cases rf)
  case (Parsed registry)
  assume a: "snd (buildFlatRegistry rf ex fl) = Inl (Exit n)"
  show ?thesis
  proof (cases "get ''items'' (Some registry)")
    case (Inl e)
    with a Parsed show ?thesis by (simp add: buildFlatRegistry_def io_bind_lift_Inl)
  next
    case (Inr items)
    show ?thesis
    proof (cases "isArray items")
      case True
      then obtain its where "items = Some (JArr its)" by (auto simp: isArray_iff)
      with Inr have "no_exit (buildFlatRegistry (Parsed registry) ex fl)"
        unfolding buildFlatRegistry_items [OF Inr [unfolded \<open>items = Some (JArr its)\<close>]]
        by (intro no_exit_bind no_exit_basic no_exit_buildItems)
      with a Parsed show ?thesis by (simp add: no_exit_def)
    next
      case False
      with a Parsed Inr show ?thesis by (simp add: buildFlatRegistry_def io_bind_lift_Inr)
    qed
  qed
qed (auto simp: buildFlatRegistry_def)

lemma main_flat_ok_iff:
  "main_flat rf ex fl = (es, 0) \<longleftrightarrow> buildFlatRegistry rf ex fl = (es, Inr ())"
proof (cases "buildFlatRegistry rf ex fl")
  case (Pair es' r)
  show ?thesis
  proof (cases r)
    case (Inl s)
    show ?thesis
    proof (cases s)
      case (Throw e)
      with Pair Inl show ?thesis by (simp add: main_flat_def run_script_def)
    next
      case (Exit n)
      with Pair Inl buildFlatRegistry_exit [of rf ex fl n] show ?thesis
        by (simp add: main_flat_def run_script_def)
    qed
  next
    case (Inr u)
    with Pair show ?thesis by (simp add: main_flat_def run_script_def)
  qed
qed

lemma buildFlatRegistry_ok:
  assumes "buildFlatRegistry (Parsed registry) ex fl = (es, Inr ())"
  shows "\<exists>its es1 tr. get ''items'' (Some registry) = Inr (Some (JArr its))
     \<and> \<not> fl (EnsureDir [OUTPUT_DIR])
     \<and> buildItems ex fl its = (es1, Inr ())
     \<and> mapE indexItem its = Inr tr
     \<and> \<not> fl (WriteFile [OUTPUT_DIR, ''registry.json''] (index_doc registry tr))
     \<and> es = EnsureDir [OUTPUT_DIR] # es1 @ [WriteFile [OUTPUT_DIR, ''registry.json''] (index_doc registry tr)]"
proof (cases "get ''items'' (Some registry)")
  case (Inl e)
  with assms show ?thesis by (simp add: buildFlatRegistry_def io_bind_lift_Inl)
next
  case (Inr items)
  show ?thesis
  proof (cases "isArray items")
    case True
    then obtain its where its: "items = Some (JArr its)" by (auto simp: isArray_iff)
    note eq = buildFlatRegistry_items [OF Inr [unfolded its], of ex fl]
    from assms [unfolded eq] show ?thesis
      unfolding Inr its
      by (auto simp: io_bind_Inr perform_def lift_def split: if_splits prod.splits sum.splits)
  next
    case False
    with assms Inr show ?thesis by (simp add: buildFlatRegistry_def io_bind_lift_Inr)
  qed
qed

lemma buildFlatRegistry_okI:
  assumes "get ''items'' (Some registry) = Inr (Some (JArr its))"
    and "\<not> fl (EnsureDir [OUTPUT_DIR])"
    and "buildItems ex fl its = (es1, Inr ())"
    and "mapE indexItem its = Inr tr"
    and "\<not> fl (WriteFile [OUTPUT_DIR, ''registry.json''] (index_doc registry tr))"
  shows "buildFlatRegistry (Parsed registry) ex fl =
     (EnsureDir [OUTPUT_DIR] # es1 @ [WriteFile [OUTPUT_DIR, ''registry.json''] (index_doc registry tr)], Inr ())"
  using assms(2-)
  by (simp add: buildFlatRegistry_items [OF assms(1)] io_bind_def lift_def perform_def)

lemma io_bind_assoc: "io_bind (io_bind m f) g = io_bind m (\<lambda>x. io_bind (f x) g)"
  by (cases m; cases "snd m") (auto simp: io_bind_def split: prod.splits sum.splits)

lemma buildItems_append:
  "buildItems ex fl (xs @ ys) = io_bind (buildItems ex fl xs) (\<lambda>_. buildItems ex fl ys)"
  by (induction xs) (simp_all add: io_bind_return io_bind_assoc)

lemma mapE_append_eq:
  "mapE f (xs @ ys) =
     (case mapE f xs of
        Inl e \<Rightarrow> Inl e
      | Inr as \<Rightarrow> (case mapE f ys of Inl e \<Rightarrow> Inl e | Inr bs \<Rightarrow> Inr (as @ bs)))"
  by (induction xs) (simp_all split: sum.splits)

lemma mapE_append:
  "mapE f (xs @ ys) = Inr zs \<longleftrightarrow>
     (\<exists>as bs. mapE f xs = Inr as \<and> mapE f ys = Inr bs \<and> zs = as @ bs)"
  by (auto simp: mapE_append_eq split: sum.splits)

lemma written_at_last: "written_at p (es @ [WriteFile p d]) = Some d"
  by (induction es) simp_all

lemma indexItem_Inr:
  assumes "indexItem x = Inr y"
  obtains deps t where "get ''registryDependencies'' (Some x) = Inr deps"
    and "transformRegistryDependencies_flat deps = Inr t"
    and "y = JObj (with_prop ''registryDependencies'' t (own_props x))"
  using assms by (auto simp: indexItem_def split: sum.splits)

lemma indexItem_deps:
  assumes "indexItem x = Inr y"
  shows "\<exists>deps. get ''registryDependencies'' (Some x) = Inr deps
           \<and> transformRegistryDependencies_flat deps = get ''registryDependencies'' (Some y)"
proof -
  from assms obtain deps t where d: "get ''registryDependencies'' (Some x) = Inr deps"
    and t: "transformRegistryDependencies_flat deps = Inr t"
    and y: "y = JObj (with_prop ''registryDependencies'' t (own_props x))"
    by (rule indexItem_Inr)
  have "get ''registryDependencies'' (Some y) = Inr t"
    unfolding y by (cases t) (simp_all add: with_prop_def)
  with d t show ?thesis by simp
qed

lemma indexItem_other:
  assumes "indexItem x = Inr y" and "k \<noteq> ''registryDependencies''"
  shows "get k (Some y) = Inr (fmlookup (own_props x) k)"
proof -
  from assms(1) obtain deps t where
    y: "y = JObj (with_prop ''registryDependencies'' t (own_props x))"
    by (rule indexItem_Inr)
  from assms(2) show ?thesis
    unfolding y by (cases t) (simp_all add: with_prop_def)
qed

lemma buildItem_nameless:
  assumes "get ''name'' (Some item) = Inr nm" "\<not> truthy nm"
  shows "buildItem ex fl item = ([Warn_missing_name], Inr ())"
  using assms by (simp add: buildItem_def io_bind_lift_Inr emit_def)

lemma indexItem_typed:
  assumes "get ''registryDependencies'' (Some item) = Inr deps"
    and "\<not> isArray deps \<or> (\<exists>ds. deps = Some (JArr (map JStr ds)))"
  shows "\<exists>y. indexItem item = Inr y"
  using assms(2)
proof
  assume "\<not> isArray deps"
  with assms(1) show ?thesis
    by (simp add: indexItem_def transformRegistryDependencies_flat_def)
next
  assume "\<exists>ds. deps = Some (JArr (map JStr ds))"
  then obtain ds where "deps = Some (JArr (map JStr ds))" by blast
  with assms(1) show ?thesis
    by (simp add: indexItem_def transformRegistryDependencies_flat_strings)
qed

lemma mapE_rewriteDep_untyped:
  "\<exists>x\<in>set xs. \<forall>s. x \<noteq> JStr s \<Longrightarrow> mapE rewriteDep xs = Inl TypeError"
proof (induction xs)
  case Nil
  then show ?case by simp
next
  case (Cons x xs)
  show ?case
  proof (cases x)
    case (JStr s)
    with Cons show ?thesis by (auto split: sum.splits)
  qed simp_all
qed

lemma indexItem_untyped:
  assumes "get ''registryDependencies'' (Some item) = Inr (Some (JArr xs))"
    and "\<exists>x\<in>set xs. \<forall>s. x \<noteq> JStr s"
  shows "indexItem item = Inl TypeError"
  using assms
  by (simp add: indexItem_def transformRegistryDependencies_flat_def mapE_rewriteDep_untyped)

lemma main_flat_exit: "snd (main_flat rf ex fl) = 0 \<or> snd (main_flat rf ex fl) = 1"
proof (cases "buildFlatRegistry rf ex fl")
  case (Pair es r)
  show ?thesis
  proof (cases r)
    case (Inl s)
    show ?thesis
    proof (cases s)
      case (Throw e)
      with Pair Inl show ?thesis by (simp add: main_flat_def run_script_def)
    next
      case (Exit n)
      with Pair Inl buildFlatRegistry_exit [of rf ex fl n] show ?thesis
        by (simp add: main_flat_def run_script_def)
    qed
  next
    case (Inr u)
    with Pair show ?thesis by (simp add: main_flat_def run_script_def)
  qed
qed

lemma main_flat_index_fails:
  assumes "get ''items'' (Some registry) = Inr (Some (JArr (pre @ item # post)))"
    and "indexItem item = Inl e"
  shows "snd (main_flat (Parsed registry) ex fl) = 1"
proof -
  have "snd (main_flat (Parsed registry) ex fl) \<noteq> 0"
  proof
    assume "snd (main_flat (Parsed registry) ex fl) = 0"
    then obtain es where "main_flat (Parsed registry) ex fl = (es, 0)"
      by (cases "main_flat (Parsed registry) ex fl") simp
    then have "buildFlatRegistry (Parsed registry) ex fl = (es, Inr ())"
      by (simp add: main_flat_ok_iff)
    from buildFlatRegistry_ok [OF this] assms(1)
    obtain tr where "mapE indexItem (pre @ item # post) = Inr tr" by auto
    then obtain bs where "mapE indexItem (item # post) = Inr bs"
      by (auto simp: mapE_append)
    with assms(2) show False by simp
  qed
  with main_flat_exit [of "Parsed registry" ex fl] show ?thesis by simp
qed

lemma ex_lib_run: "generateItemJSON ex_lib_item = Inr ex_lib_flat"
  by code_simp

lemma ex_flat_run:
  "main_flat (Parsed ex_registry) ex_sources (\<lambda>e. False) =
     ([EnsureDir [''public/r''],
       Warn_missing_name,
       WriteFile [''public/r'', ''foo.json''] ex_lib_flat,
       CopyFile [''lib/foo.ts''] [''public/r'', ''lib/foo.ts''],
       WriteFile [''public/r'', ''registry.json''] ex_registry_index], 0)"
  by code_simp

lemma ex_flat_run0:
  "main_flat (Parsed (assign ''items'' (Some (JArr ([] @ [ex_lib_item]))) ex_registry)) ex_sources (\<lambda>e. False) =
     ([EnsureDir [''public/r''],
       WriteFile [''public/r'', ''foo.json''] ex_lib_flat,
       CopyFile [''lib/foo.ts''] [''public/r'', ''lib/foo.ts''],
       WriteFile [''public/r'', ''registry.json'']
         (JObj (fmap_of_list [(''name'', JStr ''coderabbit''), (''items'', JArr [ex_lib_item])]))], 0)"
  by code_simp

section \<open>The Flat Registry Builder's contract\<close>

text \<open>
  Claim C2. When \<^verbatim>\<open>generateItemJSON\<close> returns a descriptor for an item whose \<^verbatim>\<open>files\<close> is
  an array, the \<^verbatim>\<open>files\<close> of the descriptor is an array of the same length; each of its
  entries is an object without a key \<^verbatim>\<open>content\<close>, whether the input entry had one or not,
  and every other key has the value it has in the input entry (among its own
  properties).
\<close>

theorem generateItemJSON_strips_content:
  assumes "generateItemJSON item = Inr out"
    and "get ''files'' (Some item) = Inr (Some (JArr files))"
  shows "\<exists>files'. get ''files'' (Some out) = Inr (Some (JArr files'))
     \<and> length files' = length files
     \<and> (\<forall>i<length files. \<exists>m. files' ! i = JObj m
           \<and> fmlookup m ''content'' = None
           \<and> (\<forall>k. k \<noteq> ''content'' \<longrightarrow> fmlookup m k = fmlookup (own_props (files ! i)) k))"
proof -
  from assms(2) obtain mo where item: "item = JObj mo"
    and fl: "fmlookup mo ''files'' = Some (JArr files)"
    by (cases item) auto
  define c0 where "c0 = fmadd (fmupd ''$schema'' (JStr ''https://ui.shadcn.com/schema/registry-item.json'') fmempty) mo"
  have c0f: "fmlookup c0 ''files'' = Some (JArr files)"
    using fl by (simp add: c0_def fmdomI)
  define s1 where "s1 = (\<lambda>c. if truthy (fmlookup c ''registryDependencies'') then
                 (case transformRegistryDependencies_flat (fmlookup c ''registryDependencies'') of
                    Inl e \<Rightarrow> Inl e
                  | Inr transformed \<Rightarrow> Inr (with_prop ''registryDependencies'' transformed c))
               else Inr c)"
  define s2 where "s2 = (\<lambda>c. if truthy (fmlookup c ''files'') \<and> isArray (fmlookup c ''files'')
             then
               (case fmlookup c ''files'' of
                  Some (JArr files) \<Rightarrow>
                    (case mapE withoutContent files of
                       Inl e \<Rightarrow> Inl e
                     | Inr files' \<Rightarrow> Inr (JObj (fmupd ''files'' (JArr files') c)))
                | _ \<Rightarrow> Inr (JObj c))
             else Inr (JObj c))"
  have "generateItemJSON item = (case s1 c0 of Inl e \<Rightarrow> Inl e | Inr c \<Rightarrow> s2 c)"
    by (simp only: generateItemJSON_def Let_def s1_def s2_def c0_def item own_props.simps)
  with assms(1) obtain c1 where c1: "s1 c0 = Inr c1" and out: "s2 c1 = Inr out"
    by (auto split: sum.splits)
  have c1f: "fmlookup c1 ''files'' = Some (JArr files)"
  proof (cases "truthy (fmlookup c0 ''registryDependencies'')")
    case True
    with c1 obtain t where t: "transformRegistryDependencies_flat (fmlookup c0 ''registryDependencies'') = Inr t"
      and c1': "c1 = with_prop ''registryDependencies'' t c0"
      by (auto simp: s1_def split: sum.splits)
    from transformRegistryDependencies_flat_Some [OF t True] obtain x where "t = Some x" by blast
    with c1' c0f show ?thesis by (simp add: with_prop_def)
  next
    case False
    with c1 c0f show ?thesis by (simp add: s1_def)
  qed
  with out obtain files' where m: "mapE withoutContent files = Inr files'"
    and o: "out = JObj (fmupd ''files'' (JArr files') c1)"
    by (auto simp: s2_def split: sum.splits)
  from mapE_nth [OF m] have len: "length files' = length files"
    and el: "\<And>i. i < length files \<Longrightarrow> withoutContent (files ! i) = Inr (files' ! i)"
    by auto
  have "\<forall>i<length files. \<exists>m. files' ! i = JObj m
           \<and> fmlookup m ''content'' = None
           \<and> (\<forall>k. k \<noteq> ''content'' \<longrightarrow> fmlookup m k = fmlookup (own_props (files ! i)) k)"
    using withoutContent_Inr [OF el] by simp
  with o len show ?thesis by simp
qed

theorem generateItemJSON_strips_content_witness:
  "generateItemJSON ex_lib_item = Inr ex_lib_flat
   \<and> (\<exists>files'. get ''files'' (Some ex_lib_flat) = Inr (Some (JArr files'))
        \<and> length files' = 1
        \<and> (\<exists>m. files' ! 0 = JObj m
              \<and> fmlookup m ''content'' = None
              \<and> fmlookup m ''path'' = Some (JStr ''lib/foo.ts'')
              \<and> fmlookup m ''type'' = Some (JStr ''registry:lib'')))"
proof -
  let ?files = "[JObj (fmap_of_list
          [(''path'', JStr ''lib/foo.ts''),
           (''content'', JStr ''export const x=1''),
           (''type'', JStr ''registry:lib'')])]"
  have f: "get ''files'' (Some ex_lib_item) = Inr (Some (JArr ?files))"
    by (simp add: ex_lib_item_def)
  from generateItemJSON_strips_content [OF ex_lib_run f]
  obtain files' where g: "get ''files'' (Some ex_lib_flat) = Inr (Some (JArr files'))"
    and len: "length files' = length ?files"
    and el: "\<forall>i<length ?files. \<exists>m. files' ! i = JObj m
           \<and> fmlookup m ''content'' = None
           \<and> (\<forall>k. k \<noteq> ''content'' \<longrightarrow> fmlookup m k = fmlookup (own_props (?files ! i)) k)"
    by blast
  from el [rule_format, of 0] obtain m where m: "files' ! 0 = JObj m"
    "fmlookup m ''content'' = None"
    and k: "\<forall>k. k \<noteq> ''content'' \<longrightarrow> fmlookup m k = fmlookup (own_props (?files ! 0)) k"
    by auto
  from k [rule_format, of "''path''"] have "fmlookup m ''path'' = Some (JStr ''lib/foo.ts'')"
    by simp
  moreover from k [rule_format, of "''type''"] have "fmlookup m ''type'' = Some (JStr ''registry:lib'')"
    by simp
  ultimately show ?thesis using ex_lib_run g len m by auto
qed

text \<open>
  Claim C6. When the flat builder ends with exit code 0, its last event is the write of
  the consolidated index at \<^verbatim>\<open>registry.json\<close> under the output directory, after all
  items have been processed. The index has every property of the input registry but
  \<^verbatim>\<open>items\<close>; its \<^verbatim>\<open>items\<close> has one element for each input item, in order, named or not,
  whose \<^verbatim>\<open>registryDependencies\<close> is what the rewriter returns for the item's, and whose
  every other property is the item's: \<^verbatim>\<open>files\<close> is kept whole, with the \<^verbatim>\<open>content\<close> of its
  entries.
\<close>

theorem consolidated_index:
  assumes "main_flat (Parsed registry) exists fails = (es, 0)"
  shows "\<exists>its its' index.
       get ''items'' (Some registry) = Inr (Some (JArr its))
     \<and> es \<noteq> [] \<and> last es = WriteFile [OUTPUT_DIR, ''registry.json''] index
     \<and> written_at [OUTPUT_DIR, ''registry.json''] es = Some index
     \<and> (\<forall>k. k \<noteq> ''items'' \<longrightarrow> get k (Some index) = get k (Some registry))
     \<and> get ''items'' (Some index) = Inr (Some (JArr its'))
     \<and> length its' = length its
     \<and> (\<forall>i<length its.
          (\<exists>deps. get ''registryDependencies'' (Some (its ! i)) = Inr deps
             \<and> transformRegistryDependencies_flat deps
                 = get ''registryDependencies'' (Some (its' ! i)))
        \<and> (\<forall>k. k \<noteq> ''registryDependencies'' \<longrightarrow>
              get k (Some (its' ! i)) = Inr (fmlookup (own_props (its ! i)) k)))"
proof -
  from assms have "buildFlatRegistry (Parsed registry) exists fails = (es, Inr ())"
    by (simp add: main_flat_ok_iff)
  from buildFlatRegistry_ok [OF this] obtain its es1 tr where
    its: "get ''items'' (Some registry) = Inr (Some (JArr its))"
    and tr: "mapE indexItem its = Inr tr"
    and es: "es = EnsureDir [OUTPUT_DIR] # es1
                  @ [WriteFile [OUTPUT_DIR, ''registry.json''] (index_doc registry tr)]"
    by blast
  from its obtain m where reg: "registry = JObj m" by (cases registry) auto
  from mapE_nth [OF tr] have len: "length tr = length its"
    and el: "\<And>i. i < length its \<Longrightarrow> indexItem (its ! i) = Inr (tr ! i)"
    by auto
  show ?thesis
  proof (rule exI [of _ its], rule exI [of _ tr], rule exI [of _ "index_doc registry tr"],
      intro conjI allI impI)
    show "get ''items'' (Some registry) = Inr (Some (JArr its))" by (rule its)
    show "es \<noteq> []" using es by simp
    show "last es = WriteFile [OUTPUT_DIR, ''registry.json''] (index_doc registry tr)"
      using es by simp
    show "written_at [OUTPUT_DIR, ''registry.json''] es = Some (index_doc registry tr)"
      unfolding es using written_at_last [of "[OUTPUT_DIR, ''registry.json'']" "EnsureDir [OUTPUT_DIR] # es1"]
      by simp
    show "\<And>k. k \<noteq> ''items'' \<Longrightarrow> get k (Some (index_doc registry tr)) = get k (Some registry)"
      by (simp add: index_doc_def reg)
    show "get ''items'' (Some (index_doc registry tr)) = Inr (Some (JArr tr))"
      by (simp add: index_doc_def)
    show "length tr = length its" by (rule len)
    show "\<And>i. i < length its \<Longrightarrow> \<exists>deps. get ''registryDependencies'' (Some (its ! i)) = Inr deps
             \<and> transformRegistryDependencies_flat deps
                 = get ''registryDependencies'' (Some (tr ! i))"
      using indexItem_deps [OF el] by simp
    show "\<And>i k. i < length its \<Longrightarrow> k \<noteq> ''registryDependencies'' \<Longrightarrow>
              get k (Some (tr ! i)) = Inr (fmlookup (own_props (its ! i)) k)"
      using indexItem_other [OF el] by simp
  qed
qed

theorem consolidated_index_witness:
  "main_flat (Parsed ex_registry) ex_sources (\<lambda>e. False) =
     ([EnsureDir [''public/r''],
       Warn_missing_name,
       WriteFile [''public/r'', ''foo.json''] ex_lib_flat,
       CopyFile [''lib/foo.ts''] [''public/r'', ''lib/foo.ts''],
       WriteFile [''public/r'', ''registry.json''] ex_registry_index], 0)
   \<and> (\<exists>its'. get ''items'' (Some ex_registry_index) = Inr (Some (JArr its'))
        \<and> length its' = 2
        \<and> get ''files'' (Some (its' ! 1)) = get ''files'' (Some ex_lib_item)
        \<and> get ''registryDependencies'' (Some (its' ! 0))
            = Inr (Some (JArr [JStr ''https://raw.githubusercontent.com/RMNCLDYO/coderabbit-shadcn-registry/main/public/r/coderabbit-types.json''])))"
proof -
  from consolidated_index [OF ex_flat_run]
  obtain its its' index where its: "get ''items'' (Some ex_registry) = Inr (Some (JArr its))"
    and lst: "last [EnsureDir [''public/r''],
       Warn_missing_name,
       WriteFile [''public/r'', ''foo.json''] ex_lib_flat,
       CopyFile [''lib/foo.ts''] [''public/r'', ''lib/foo.ts''],
       WriteFile [''public/r'', ''registry.json''] ex_registry_index]
        = WriteFile [OUTPUT_DIR, ''registry.json''] index"
    and its': "get ''items'' (Some index) = Inr (Some (JArr its'))"
    and len: "length its' = length its"
    and el: "\<forall>i<length its.
          (\<exists>deps. get ''registryDependencies'' (Some (its ! i)) = Inr deps
             \<and> transformRegistryDependencies_flat deps
                 = get ''registryDependencies'' (Some (its' ! i)))
        \<and> (\<forall>k. k \<noteq> ''registryDependencies'' \<longrightarrow>
              get k (Some (its' ! i)) = Inr (fmlookup (own_props (its ! i)) k))"
    by blast
  from lst have index: "index = ex_registry_index" by simp
  from its have i: "its = [ex_nameless, ex_lib_item]" by (simp add: ex_registry_def)
  from el [rule_format, of 1] i
  have "get ''files'' (Some (its' ! 1)) = get ''files'' (Some ex_lib_item)"
    by (simp add: ex_lib_item_def)
  moreover from el [rule_format, of 0] i
  have "get ''registryDependencies'' (Some (its' ! 0))
            = Inr (Some (JArr [JStr ''https://raw.githubusercontent.com/RMNCLDYO/coderabbit-shadcn-registry/main/public/r/coderabbit-types.json'']))"
    by (auto simp: ex_nameless_def transformRegistryDependencies_flat_def startsWith_def
        REGISTRY_BASE_URL_def)
  ultimately show ?thesis using ex_flat_run its' len i index by auto
qed

text \<open>
  Claim C9, as amended. An item whose \<^verbatim>\<open>name\<close> is missing (or falsy) is skipped: the loop
  body prints the warning, writes nothing and raises nothing, and the loop goes on with
  the items that remain. The index step still rewrites the \<^verbatim>\<open>registryDependencies\<close> of
  that item, so the end of the run depends on them:

    \<^item> when they are not an array, or are an array of strings, and the write of the index
      does not fail, the item does not change the outcome: if the registry without the
      item builds with exit code 0, the registry with it builds with exit code 0, with
      the warning printed and the same descriptor files written;
    \<^item> when they are an array with an element that is not a string, the run ends with
      exit code 1.
\<close>

theorem nameless_item_skipped:
  assumes "get ''name'' (Some item) = Inr nm" and "\<not> truthy nm"
  shows "buildItem exists fails item = ([Warn_missing_name], Inr ())
     \<and> buildItems exists fails (item # rest) =
         (case buildItems exists fails rest of (es, r) \<Rightarrow> (Warn_missing_name # es, r))
     \<and> (get ''registryDependencies'' (Some item) = Inr deps
          \<and> (\<not> isArray deps \<or> (\<exists>ds. deps = Some (JArr (map JStr ds))))
          \<and> get ''items'' (Some registry) = Inr (Some (JArr (pre @ item # post)))
          \<and> main_flat (Parsed (assign ''items'' (Some (JArr (pre @ post))) registry)) exists fails
              = (es, 0)
          \<and> (\<forall>d. \<not> fails (WriteFile [OUTPUT_DIR, ''registry.json''] d))
        \<longrightarrow> (\<exists>es'. main_flat (Parsed registry) exists fails = (es', 0)
               \<and> Warn_missing_name \<in> set es'
               \<and> (\<forall>p d. p \<noteq> [OUTPUT_DIR, ''registry.json''] \<longrightarrow>
                     (WriteFile p d \<in> set es' \<longleftrightarrow> WriteFile p d \<in> set es))))
     \<and> (get ''registryDependencies'' (Some item) = Inr (Some (JArr xs))
          \<and> (\<exists>x\<in>set xs. \<forall>s. x \<noteq> JStr s)
          \<and> get ''items'' (Some registry) = Inr (Some (JArr (pre @ item # post)))
        \<longrightarrow> snd (main_flat (Parsed registry) exists fails) = 1)"
proof (intro conjI impI)
  show b: "buildItem exists fails item = ([Warn_missing_name], Inr ())"
    using assms by (rule buildItem_nameless)
  show "buildItems exists fails (item # rest) =
         (case buildItems exists fails rest of (es, r) \<Rightarrow> (Warn_missing_name # es, r))"
    by (simp add: b io_bind_def split: prod.splits)
next
  assume a: "get ''registryDependencies'' (Some item) = Inr deps
          \<and> (\<not> isArray deps \<or> (\<exists>ds. deps = Some (JArr (map JStr ds))))
          \<and> get ''items'' (Some registry) = Inr (Some (JArr (pre @ item # post)))
          \<and> main_flat (Parsed (assign ''items'' (Some (JArr (pre @ post))) registry)) exists fails
              = (es, 0)
          \<and> (\<forall>d. \<not> fails (WriteFile [OUTPUT_DIR, ''registry.json''] d))"
  let ?reg0 = "assign ''items'' (Some (JArr (pre @ post))) registry"
  from a obtain m where reg: "registry = JObj m" by (cases registry) auto
  have its0: "get ''items'' (Some ?reg0) = Inr (Some (JArr (pre @ post)))"
    by (simp add: reg with_prop_def)
  from a have "buildFlatRegistry (Parsed ?reg0) exists fails = (es, Inr ())"
    by (simp add: main_flat_ok_iff)
  from buildFlatRegistry_ok [OF this] its0 obtain es1 tr where
    dir: "\<not> fails (EnsureDir [OUTPUT_DIR])"
    and loop: "buildItems exists fails (pre @ post) = (es1, Inr ())"
    and tr: "mapE indexItem (pre @ post) = Inr tr"
    and es: "es = EnsureDir [OUTPUT_DIR] # es1
                  @ [WriteFile [OUTPUT_DIR, ''registry.json''] (index_doc ?reg0 tr)]"
    by auto
  from loop obtain e1 e2 where e1: "buildItems exists fails pre = (e1, Inr ())"
    and e2: "buildItems exists fails post = (e2, Inr ())" and es1: "es1 = e1 @ e2"
    by (auto simp: buildItems_append io_bind_Inr)
  have b: "buildItem exists fails item = ([Warn_missing_name], Inr ())"
    using assms by (rule buildItem_nameless)
  have loop': "buildItems exists fails (pre @ item # post) = (e1 @ Warn_missing_name # e2, Inr ())"
    by (simp add: buildItems_append e1 e2 b io_bind_def)
  from tr obtain t1 t2 where t1: "mapE indexItem pre = Inr t1" and t2: "mapE indexItem post = Inr t2"
    by (auto simp: mapE_append)
  from a indexItem_typed [of item deps] obtain y where y: "indexItem item = Inr y" by blast
  have tr': "mapE indexItem (pre @ item # post) = Inr (t1 @ y # t2)"
    by (simp add: mapE_append t1 t2 y)
  from a have its: "get ''items'' (Some registry) = Inr (Some (JArr (pre @ item # post)))"
    and w: "\<not> fails (WriteFile [OUTPUT_DIR, ''registry.json''] (index_doc registry (t1 @ y # t2)))"
    by simp_all
  let ?es' = "EnsureDir [OUTPUT_DIR] # (e1 @ Warn_missing_name # e2)
      @ [WriteFile [OUTPUT_DIR, ''registry.json''] (index_doc registry (t1 @ y # t2))]"
  have "main_flat (Parsed registry) exists fails = (?es', 0)"
    using buildFlatRegistry_okI [OF its dir loop' tr' w] by (simp add: main_flat_ok_iff)
  moreover have "Warn_missing_name \<in> set ?es'" by simp
  moreover have "\<forall>p d. p \<noteq> [OUTPUT_DIR, ''registry.json''] \<longrightarrow>
                     (WriteFile p d \<in> set ?es' \<longleftrightarrow> WriteFile p d \<in> set es)"
    unfolding es es1 by auto
  ultimately show "\<exists>es'. main_flat (Parsed registry) exists fails = (es', 0)
               \<and> Warn_missing_name \<in> set es'
               \<and> (\<forall>p d. p \<noteq> [OUTPUT_DIR, ''registry.json''] \<longrightarrow>
                     (WriteFile p d \<in> set es' \<longleftrightarrow> WriteFile p d \<in> set es))"
    by blast
next
  assume a: "get ''registryDependencies'' (Some item) = Inr (Some (JArr xs))
          \<and> (\<exists>x\<in>set xs. \<forall>s. x \<noteq> JStr s)
          \<and> get ''items'' (Some registry) = Inr (Some (JArr (pre @ item # post)))"
  then have "indexItem item = Inl TypeError" by (simp add: indexItem_untyped)
  with a show "snd (main_flat (Parsed registry) exists fails) = 1"
    by (simp add: main_flat_index_fails)
qed

theorem nameless_item_skipped_witness:
  "buildItem ex_sources (\<lambda>e. False) ex_nameless = ([Warn_missing_name], Inr ())
   \<and> buildItems ex_sources (\<lambda>e. False) [ex_nameless] = ([Warn_missing_name], Inr ())
   \<and> (\<exists>es'. main_flat (Parsed ex_registry) ex_sources (\<lambda>e. False) = (es', 0)
         \<and> Warn_missing_name \<in> set es'
         \<and> WriteFile [''public/r'', ''foo.json''] ex_lib_flat \<in> set es'
         \<and> length (writes_under [''public/r''] es') = 2)
   \<and> snd (main_flat (Parsed ex_registry_bad) ex_sources (\<lambda>e. False)) = 1"
proof -
  have n: "get ''name'' (Some ex_nameless) = Inr None" "\<not> truthy None"
    by (simp_all add: ex_nameless_def)
  note t = nameless_item_skipped [OF n, of ex_sources "\<lambda>e. False" "[]"
      "Some (JArr [JStr ''coderabbit-types''])" ex_registry "[]" "[ex_lib_item]"
      "[EnsureDir [''public/r''],
       WriteFile [''public/r'', ''foo.json''] ex_lib_flat,
       CopyFile [''lib/foo.ts''] [''public/r'', ''lib/foo.ts''],
       WriteFile [''public/r'', ''registry.json'']
         (JObj (fmap_of_list [(''name'', JStr ''coderabbit''), (''items'', JArr [ex_lib_item])]))]"
      "[]"]
  from t have a: "buildItem ex_sources (\<lambda>e. False) ex_nameless = ([Warn_missing_name], Inr ())"
    by blast
  from t have b: "buildItems ex_sources (\<lambda>e. False) [ex_nameless] = ([Warn_missing_name], Inr ())"
    by (simp add: io_return_def io_bind_def)
  have d: "get ''registryDependencies'' (Some ex_nameless) = Inr (Some (JArr [JStr ''coderabbit-types'']))"
    by (simp add: ex_nameless_def)
  have e: "\<not> isArray (Some (JArr [JStr ''coderabbit-types'']))
      \<or> (\<exists>ds. Some (JArr [JStr ''coderabbit-types'']) = Some (JArr (map JStr ds)))"
    by (intro disjI2 exI [of _ "[''coderabbit-types'']"]) simp
  have i: "get ''items'' (Some ex_registry) = Inr (Some (JArr ([] @ ex_nameless # [ex_lib_item])))"
    by (simp add: ex_registry_def)
  from t d e i ex_flat_run0
  obtain es' where r: "main_flat (Parsed ex_registry) ex_sources (\<lambda>e. False) = (es', 0)"
    "Warn_missing_name \<in> set es'"
    by auto
  with ex_flat_run have "es' = [EnsureDir [''public/r''],
       Warn_missing_name,
       WriteFile [''public/r'', ''foo.json''] ex_lib_flat,
       CopyFile [''lib/foo.ts''] [''public/r'', ''lib/foo.ts''],
       WriteFile [''public/r'', ''registry.json''] ex_registry_index]"
    by simp
  with r have c: "\<exists>es'. main_flat (Parsed ex_registry) ex_sources (\<lambda>e. False) = (es', 0)
         \<and> Warn_missing_name \<in> set es'
         \<and> WriteFile [''public/r'', ''foo.json''] ex_lib_flat \<in> set es'
         \<and> length (writes_under [''public/r''] es') = 2"
    by simp
  have nb: "get ''name'' (Some ex_nameless_bad) = Inr None"
    by (simp add: ex_nameless_bad_def)
  note u = nameless_item_skipped [OF nb n(2), where xs = "[JNum 1]"
      and registry = ex_registry_bad and pre = "[]" and post = "[ex_lib_item]"
      and exists = ex_sources and fails = "\<lambda>e. False",
      THEN conjunct2, THEN conjunct2, THEN conjunct2, rule_format]
  have f: "snd (main_flat (Parsed ex_registry_bad) ex_sources (\<lambda>e. False)) = 1"
    by (rule u) (simp add: ex_nameless_bad_def ex_registry_bad_def)
  show ?thesis by (intro conjI a b c f)
qed

text \<open>
  Claim C9 as it is written fails on a registry whose nameless item has a number among
  its \<^verbatim>\<open>registryDependencies\<close>: the item is skipped with the warning and the next item is
  built, then the index step raises a \<^verbatim>\<open>TypeError\<close> on the skipped item, no index is
  written and the run ends with exit code 1. The same registry without that item builds
  with exit code 0.
\<close>

theorem nameless_item_counterexample:
  "get ''name'' (Some ex_nameless_bad) = Inr None
   \<and> get ''items'' (Some ex_registry_bad) = Inr (Some (JArr [ex_nameless_bad, ex_lib_item]))
   \<and> buildItem ex_sources (\<lambda>e. False) ex_nameless_bad = ([Warn_missing_name], Inr ())
   \<and> main_flat (Parsed ex_registry_bad) ex_sources (\<lambda>e. False) =
       ([EnsureDir [''public/r''],
         Warn_missing_name,
         WriteFile [''public/r'', ''foo.json''] ex_lib_flat,
         CopyFile [''lib/foo.ts''] [''public/r'', ''lib/foo.ts''],
         Error_build_failed TypeError], 1)
   \<and> main_flat (Parsed (assign ''items'' (Some (JArr [ex_lib_item])) ex_registry_bad))
         ex_sources (\<lambda>e. False) =
       ([EnsureDir [''public/r''],
         WriteFile [''public/r'', ''foo.json''] ex_lib_flat,
         CopyFile [''lib/foo.ts''] [''public/r'', ''lib/foo.ts''],
         WriteFile [''public/r'', ''registry.json'']
           (JObj (fmap_of_list [(''name'', JStr ''coderabbit''), (''items'', JArr [ex_lib_item])]))], 0)"
  by code_simp


section \<open>Facts about the Bundle Registry Builder\<close>

lemma typed_BUNDLES: "list_all typed_bundle (map snd BUNDLES)"
  by code_simp

lemma buildBundle_typed:
  assumes "typed_bundle cfg" and "\<And>e. \<not> fails e"
  shows "buildBundle fails backend cfg =
     ([EnsureDir [OUTPUT_DIR, backend],
       WriteFile [OUTPUT_DIR, backend, ''coderabbit.json''] (bundle_doc cfg),
       WriteFile [OUTPUT_DIR, backend, ''registry.json''] (bundle_index cfg)], Inr ())"
proof -
  from assms(1) have deps: "get ''registryDependencies'' (Some cfg)
      = Inr (Some (JArr (map JStr (dep_strings cfg))))"
    by (simp add: typed_bundle_def)
  from assms(1) obtain title s1 meta label s2 where
    t: "get ''title'' (Some cfg) = Inr title" "printed title = Inr s1"
    and m: "get ''meta'' (Some cfg) = Inr meta" "get ''backend'' meta = Inr label"
      "printed label = Inr s2"
    by (auto simp: typed_bundle_def split: sum.splits)
  have g: "generateBundleJSON cfg = Inr (bundle_doc cfg)"
    by (simp add: generateBundleJSON_def deps transformRegistryDependencies_bundles_strings
        with_prop_def bundle_doc_def del: transformRegistryDependencies_bundles.simps map_map)
  have c: "createBundleRegistry backend [cfg] = Inr (bundle_index cfg)"
    by (simp add: createBundleRegistry_def bundleItem_def deps
        transformRegistryDependencies_bundles_strings with_prop_def bundle_index_def
        del: transformRegistryDependencies_bundles.simps map_map)
  show ?thesis
    by (simp add: buildBundle_def g c t m assms(2) io_bind_perform io_bind_lift_Inr io_return_def)
qed

lemma buildBundles_BUNDLES:
  assumes "\<And>e. \<not> fails e"
  shows "buildBundles fails BUNDLES =
     (concat (map (\<lambda>(backend, cfg).
        [EnsureDir [OUTPUT_DIR, backend],
         WriteFile [OUTPUT_DIR, backend, ''coderabbit.json''] (bundle_doc cfg),
         WriteFile [OUTPUT_DIR, backend, ''registry.json''] (bundle_index cfg)]) BUNDLES), Inr ())"
proof -
  have "list_all typed_bundle (map snd table) \<Longrightarrow> buildBundles fails table =
     (concat (map (\<lambda>(backend, cfg).
        [EnsureDir [OUTPUT_DIR, backend],
         WriteFile [OUTPUT_DIR, backend, ''coderabbit.json''] (bundle_doc cfg),
         WriteFile [OUTPUT_DIR, backend, ''registry.json''] (bundle_index cfg)]) table), Inr ())"
    for table
  proof (induction table)
    case Nil
    then show ?case by (simp add: io_return_def)
  next
    case (Cons a table)
    obtain backend cfg where a: "a = (backend, cfg)" by (cases a)
    with Cons show ?case
      by (simp add: buildBundle_typed [OF _ assms] io_bind_def)
  qed
  with typed_BUNDLES show ?thesis by blast
qed

lemma rewritten_not_internal: "\<not> startsWith (rewritten d) ''coderabbit-''"
  by (simp add: rewritten_def startsWith_def)

lemma bundle_doc_facts:
  "get ''registryDependencies'' (Some (bundle_doc cfg))
     = Inr (Some (JArr (map JStr (map rewritten (dep_strings cfg)))))"
  "k \<noteq> ''registryDependencies'' \<Longrightarrow> k \<noteq> ''$schema'' \<Longrightarrow>
     get k (Some (bundle_doc cfg)) = Inr (fmlookup (own_props cfg) k)"
  by (auto simp: bundle_doc_def)

lemma bundle_index_facts:
  "get ''items'' (Some (bundle_index cfg))
     = Inr (Some (JArr [JObj (fmupd ''registryDependencies''
                                  (JArr (map JStr (map rewritten (dep_strings cfg))))
                                  (own_props cfg))]))"
  "get ''name'' (Some (bundle_index cfg)) = Inr (Some (JStr ''coderabbit''))"
  "get ''homepage'' (Some (bundle_index cfg))
     = Inr (Some (JStr ''https://github.com/RMNCLDYO/coderabbit-shadcn-registry''))"
  "fmdom' (own_props (bundle_index cfg)) = {''$schema'', ''name'', ''homepage'', ''items''}"
  by (auto simp: bundle_index_def)

lemma BUNDLES_keys:
  "map fst BUNDLES = [''localstorage'', ''convex'', ''supabase'', ''postgres'', ''mysql'']"
  by (simp add: BUNDLES_def)

lemma typed_bundle_in_BUNDLES: "(backend, cfg) \<in> set BUNDLES \<Longrightarrow> typed_bundle cfg"
  using typed_BUNDLES by (auto simp: list_all_iff)

lemma writes_under_BUNDLES:
  "(backend, cfg) \<in> set BUNDLES \<Longrightarrow>
     writes_under [OUTPUT_DIR, backend] (bundle_events BUNDLES) =
       [([OUTPUT_DIR, backend, ''coderabbit.json''], bundle_doc cfg),
        ([OUTPUT_DIR, backend, ''registry.json''], bundle_index cfg)]"
  by (auto simp: BUNDLES_def bundle_events_def)

lemma writes_under_all_BUNDLES:
  "length (writes_under [OUTPUT_DIR] (bundle_events BUNDLES)) = 10"
  by (simp add: BUNDLES_def bundle_events_def)

section \<open>The Bundle Registry Builder's contract\<close>

text \<open>
  Claim C5. When no file-system call fails, the bundle builder ends with exit code 0.
  The table has the five keys \<^verbatim>\<open>localstorage\<close>, \<^verbatim>\<open>convex\<close>, \<^verbatim>\<open>supabase\<close>, \<^verbatim>\<open>postgres\<close>,
  \<^verbatim>\<open>mysql\<close>; ten files are written in all, and for each key exactly two under the
  directory of the key: \<^verbatim>\<open>coderabbit.json\<close> and \<^verbatim>\<open>registry.json\<close>. In the first, and in
  the one item of the \<^verbatim>\<open>items\<close> of the second, \<^verbatim>\<open>registryDependencies\<close> is the list of
  the configuration with every entry that starts with \<^verbatim>\<open>coderabbit-\<close> in the base-URL
  form, so that no such entry is left; the second has the fixed \<^verbatim>\<open>name\<close> and \<^verbatim>\<open>homepage\<close>.
\<close>

theorem bundles_written:
  assumes "\<forall>e. \<not> fails e"
  shows "\<exists>es. main_bundles fails = (es, 0)
     \<and> map fst BUNDLES = [''localstorage'', ''convex'', ''supabase'', ''postgres'', ''mysql'']
     \<and> length (writes_under [OUTPUT_DIR] es) = 10
     \<and> (\<forall>(backend, cfg) \<in> set BUNDLES. \<exists>ds b r item.
          get ''registryDependencies'' (Some cfg) = Inr (Some (JArr (map JStr ds)))
        \<and> writes_under [OUTPUT_DIR, backend] es =
            [([OUTPUT_DIR, backend, ''coderabbit.json''], b),
             ([OUTPUT_DIR, backend, ''registry.json''], r)]
        \<and> get ''registryDependencies'' (Some b) = Inr (Some (JArr (map JStr (map rewritten ds))))
        \<and> get ''items'' (Some r) = Inr (Some (JArr [item]))
        \<and> get ''registryDependencies'' (Some item)
            = Inr (Some (JArr (map JStr (map rewritten ds))))
        \<and> (\<forall>d\<in>set (map rewritten ds). \<not> startsWith d ''coderabbit-'')
        \<and> get ''name'' (Some r) = Inr (Some (JStr ''coderabbit''))
        \<and> get ''homepage'' (Some r)
            = Inr (Some (JStr ''https://github.com/RMNCLDYO/coderabbit-shadcn-registry'')))"
proof -
  from assms have ok: "\<And>e. \<not> fails e" by simp
  have run: "main_bundles fails = (bundle_events BUNDLES, 0)"
    by (simp add: main_bundles_def run_script_def buildBundles_BUNDLES [OF ok] bundle_events_def)
  have each: "\<exists>ds b r item.
          get ''registryDependencies'' (Some cfg) = Inr (Some (JArr (map JStr ds)))
        \<and> writes_under [OUTPUT_DIR, backend] (bundle_events BUNDLES) =
            [([OUTPUT_DIR, backend, ''coderabbit.json''], b),
             ([OUTPUT_DIR, backend, ''registry.json''], r)]
        \<and> get ''registryDependencies'' (Some b) = Inr (Some (JArr (map JStr (map rewritten ds))))
        \<and> get ''items'' (Some r) = Inr (Some (JArr [item]))
        \<and> get ''registryDependencies'' (Some item)
            = Inr (Some (JArr (map JStr (map rewritten ds))))
        \<and> (\<forall>d\<in>set (map rewritten ds). \<not> startsWith d ''coderabbit-'')
        \<and> get ''name'' (Some r) = Inr (Some (JStr ''coderabbit''))
        \<and> get ''homepage'' (Some r)
            = Inr (Some (JStr ''https://github.com/RMNCLDYO/coderabbit-shadcn-registry''))"
    if "(backend, cfg) \<in> set BUNDLES" for backend cfg
  proof (rule exI [of _ "dep_strings cfg"], rule exI [of _ "bundle_doc cfg"],
      rule exI [of _ "bundle_index cfg"],
      rule exI [of _ "JObj (fmupd ''registryDependencies''
                                  (JArr (map JStr (map rewritten (dep_strings cfg))))
                                  (own_props cfg))"], intro conjI)
    from typed_bundle_in_BUNDLES [OF that]
    show "get ''registryDependencies'' (Some cfg) = Inr (Some (JArr (map JStr (dep_strings cfg))))"
      by (simp add: typed_bundle_def)
    show "writes_under [OUTPUT_DIR, backend] (bundle_events BUNDLES) =
            [([OUTPUT_DIR, backend, ''coderabbit.json''], bundle_doc cfg),
             ([OUTPUT_DIR, backend, ''registry.json''], bundle_index cfg)]"
      using that by (rule writes_under_BUNDLES)
    show "get ''registryDependencies'' (Some (bundle_doc cfg))
            = Inr (Some (JArr (map JStr (map rewritten (dep_strings cfg)))))"
      by (rule bundle_doc_facts)
    show "get ''items'' (Some (bundle_index cfg)) = Inr (Some (JArr [JObj (fmupd ''registryDependencies''
                                  (JArr (map JStr (map rewritten (dep_strings cfg))))
                                  (own_props cfg))]))"
      by (rule bundle_index_facts)
    show "get ''registryDependencies'' (Some (JObj (fmupd ''registryDependencies''
                                  (JArr (map JStr (map rewritten (dep_strings cfg))))
                                  (own_props cfg))))
            = Inr (Some (JArr (map JStr (map rewritten (dep_strings cfg)))))"
      by simp
    show "\<forall>d\<in>set (map rewritten (dep_strings cfg)). \<not> startsWith d ''coderabbit-''"
      by (simp add: rewritten_not_internal)
    show "get ''name'' (Some (bundle_index cfg)) = Inr (Some (JStr ''coderabbit''))"
      by (rule bundle_index_facts)
    show "get ''homepage'' (Some (bundle_index cfg))
            = Inr (Some (JStr ''https://github.com/RMNCLDYO/coderabbit-shadcn-registry''))"
      by (rule bundle_index_facts)
  qed
  show ?thesis
  proof (rule exI [of _ "bundle_events BUNDLES"], intro conjI)
    show "main_bundles fails = (bundle_events BUNDLES, 0)" by (rule run)
    show "map fst BUNDLES = [''localstorage'', ''convex'', ''supabase'', ''postgres'', ''mysql'']"
      by (rule BUNDLES_keys)
    show "length (writes_under [OUTPUT_DIR] (bundle_events BUNDLES)) = 10"
      by (rule writes_under_all_BUNDLES)
    show "\<forall>(backend, cfg) \<in> set BUNDLES. \<exists>ds b r item.
          get ''registryDependencies'' (Some cfg) = Inr (Some (JArr (map JStr ds)))
        \<and> writes_under [OUTPUT_DIR, backend] (bundle_events BUNDLES) =
            [([OUTPUT_DIR, backend, ''coderabbit.json''], b),
             ([OUTPUT_DIR, backend, ''registry.json''], r)]
        \<and> get ''registryDependencies'' (Some b) = Inr (Some (JArr (map JStr (map rewritten ds))))
        \<and> get ''items'' (Some r) = Inr (Some (JArr [item]))
        \<and> get ''registryDependencies'' (Some item)
            = Inr (Some (JArr (map JStr (map rewritten ds))))
        \<and> (\<forall>d\<in>set (map rewritten ds). \<not> startsWith d ''coderabbit-'')
        \<and> get ''name'' (Some r) = Inr (Some (JStr ''coderabbit''))
        \<and> get ''homepage'' (Some r)
            = Inr (Some (JStr ''https://github.com/RMNCLDYO/coderabbit-shadcn-registry''))"
      using each by blast
  qed
qed

theorem bundles_written_witness:
  "\<exists>es b r. main_bundles (\<lambda>e. False) = (es, 0)
     \<and> length (writes_under [OUTPUT_DIR] es) = 10
     \<and> writes_under [OUTPUT_DIR, ''convex''] es =
          [([OUTPUT_DIR, ''convex'', ''coderabbit.json''], b),
           ([OUTPUT_DIR, ''convex'', ''registry.json''], r)]
     \<and> get ''registryDependencies'' (Some b) = Inr (Some (JArr (map JStr
          [''button'', ''input'', ''label'', ''select'', ''textarea'',
           ''https://raw.githubusercontent.com/RMNCLDYO/coderabbit-shadcn-registry/main/public/r/coderabbit-types.json'',
           ''https://raw.githubusercontent.com/RMNCLDYO/coderabbit-shadcn-registry/main/public/r/coderabbit-client.json'',
           ''https://raw.githubusercontent.com/RMNCLDYO/coderabbit-shadcn-registry/main/public/r/coderabbit-storage-adapter.json'',
           ''https://raw.githubusercontent.com/RMNCLDYO/coderabbit-shadcn-registry/main/public/r/coderabbit-storage-convex.json'',
           ''https://raw.githubusercontent.com/RMNCLDYO/coderabbit-shadcn-registry/main/public/r/coderabbit-react.json'',
           ''https://raw.githubusercontent.com/RMNCLDYO/coderabbit-shadcn-registry/main/public/r/coderabbit-form.json'',
           ''https://raw.githubusercontent.com/RMNCLDYO/coderabbit-shadcn-registry/main/public/r/coderabbit-branding.json''])))
     \<and> get ''name'' (Some r) = Inr (Some (JStr ''coderabbit''))"
proof -
  have "\<forall>e. \<not> (\<lambda>e. False) e" by simp
  from bundles_written [OF this]
  obtain es where run: "main_bundles (\<lambda>e. False) = (es, 0)"
    and n: "length (writes_under [OUTPUT_DIR] es) = 10"
    and each: "\<forall>(backend, cfg) \<in> set BUNDLES. \<exists>ds b r item.
          get ''registryDependencies'' (Some cfg) = Inr (Some (JArr (map JStr ds)))
        \<and> writes_under [OUTPUT_DIR, backend] es =
            [([OUTPUT_DIR, backend, ''coderabbit.json''], b),
             ([OUTPUT_DIR, backend, ''registry.json''], r)]
        \<and> get ''registryDependencies'' (Some b) = Inr (Some (JArr (map JStr (map rewritten ds))))
        \<and> get ''items'' (Some r) = Inr (Some (JArr [item]))
        \<and> get ''registryDependencies'' (Some item)
            = Inr (Some (JArr (map JStr (map rewritten ds))))
        \<and> (\<forall>d\<in>set (map rewritten ds). \<not> startsWith d ''coderabbit-'')
        \<and> get ''name'' (Some r) = Inr (Some (JStr ''coderabbit''))
        \<and> get ''homepage'' (Some r)
            = Inr (Some (JStr ''https://github.com/RMNCLDYO/coderabbit-shadcn-registry''))"
    by blast
  have "(''convex'', BUNDLE_convex) \<in> set BUNDLES" by (simp add: BUNDLES_def)
  with each obtain ds b r where
    ds: "get ''registryDependencies'' (Some BUNDLE_convex) = Inr (Some (JArr (map JStr ds)))"
    and w: "writes_under [OUTPUT_DIR, ''convex''] es =
            [([OUTPUT_DIR, ''convex'', ''coderabbit.json''], b),
             ([OUTPUT_DIR, ''convex'', ''registry.json''], r)]"
    and b: "get ''registryDependencies'' (Some b) = Inr (Some (JArr (map JStr (map rewritten ds))))"
    and nm: "get ''name'' (Some r) = Inr (Some (JStr ''coderabbit''))"
    by fast
  from ds have "ds = [''button'', ''input'', ''label'', ''select'', ''textarea'', ''coderabbit-types'',
       ''coderabbit-client'', ''coderabbit-storage-adapter'', ''coderabbit-storage-convex'',
       ''coderabbit-react'', ''coderabbit-form'', ''coderabbit-branding'']"
    by (auto simp: BUNDLE_convex_def map_eq_Cons_conv Cons_eq_map_conv)
  with b have "get ''registryDependencies'' (Some b) = Inr (Some (JArr (map JStr
          [''button'', ''input'', ''label'', ''select'', ''textarea'',
           ''https://raw.githubusercontent.com/RMNCLDYO/coderabbit-shadcn-registry/main/public/r/coderabbit-types.json'',
           ''https://raw.githubusercontent.com/RMNCLDYO/coderabbit-shadcn-registry/main/public/r/coderabbit-client.json'',
           ''https://raw.githubusercontent.com/RMNCLDYO/coderabbit-shadcn-registry/main/public/r/coderabbit-storage-adapter.json'',
           ''https://raw.githubusercontent.com/RMNCLDYO/coderabbit-shadcn-registry/main/public/r/coderabbit-storage-convex.json'',
           ''https://raw.githubusercontent.com/RMNCLDYO/coderabbit-shadcn-registry/main/public/r/coderabbit-react.json'',
           ''https://raw.githubusercontent.com/RMNCLDYO/coderabbit-shadcn-registry/main/public/r/coderabbit-form.json'',
           ''https://raw.githubusercontent.com/RMNCLDYO/coderabbit-shadcn-registry/main/public/r/coderabbit-branding.json''])))"
    by (simp add: rewritten_def startsWith_def)
  with run n w nm show ?thesis by blast
qed

end
